(* ===== verification/Prelude.thy ===== *)
theory Prelude
  imports Main "HOL-Library.Word" "HOL-Library.Sublist"
begin

text \<open>
  What the components share: the machine types, the model of \<open>Result\<close> with its \<open>?\<close>
  operator, the parts of Rust's \<open>str\<close> API that the services use, instants, and the lemma
  collections.

  A Rust \<open>String\<close> is its sequence of UTF-8 bytes, so it is a HOL \<open>string\<close> whose characters
  are bytes: \<open>len()\<close> is \<open>length\<close>, and searching for or splitting at an ASCII character acts on
  bytes exactly as on code points. A \<open>Vec<u8>\<close> is a list of 8-bit words.
\<close>

unbundle bit_operations_syntax

section \<open>Machine types\<close>

type_synonym byte = "8 word"
type_synonym bytes = "byte list"
type_synonym u64 = "64 word"
type_synonym uuid = "128 word"

text \<open>Instants (\<open>chrono::DateTime<Utc>\<close>) are nanoseconds since the Unix epoch.\<close>

type_synonym instant = int

definition one_second :: instant where
  "one_second = 1000000000"

definition seconds :: "int \<Rightarrow> instant" where
  "seconds n = n * one_second"

definition minutes :: "int \<Rightarrow> instant" where
  "minutes n = seconds (60 * n)"

definition days :: "int \<Rightarrow> instant" where
  "days n = seconds (86400 * n)"

text \<open>\<open>timestamp()\<close>, \<open>timestamp_subsec_nanos()\<close> and \<open>timestamp_millis()\<close> of an instant.\<close>

definition timestamp :: "instant \<Rightarrow> int" where
  "timestamp t = t div one_second"

definition subsec_nanos :: "instant \<Rightarrow> int" where
  "subsec_nanos t = t mod one_second"

definition timestamp_millis :: "instant \<Rightarrow> int" where
  "timestamp_millis t = t div 1000000"

lemma timestamp_add_seconds: "timestamp (t + seconds n) = timestamp t + n"
  by (simp add: timestamp_def seconds_def one_second_def)

lemma instant_split: "seconds (timestamp t) + subsec_nanos t = t"
  by (simp add: timestamp_def subsec_nanos_def seconds_def)

lemma subsec_nanos_bounds: "0 \<le> subsec_nanos t \<and> subsec_nanos t < one_second"
  by (simp add: subsec_nanos_def one_second_def)

section \<open>Results\<close>

text \<open>
  A fallible function returns \<open>'e + 'a\<close>: \<open>Inl\<close> is \<open>Err\<close>, \<open>Inr\<close> is \<open>Ok\<close>. Where the code can
  also panic, the error side is an \<open>exit\<close>: an error that is returned, or a panic that unwinds
  through every \<open>?\<close>.
\<close>

datatype 'e exit = Err 'e | Panic

definition try_r :: "'e + 'a \<Rightarrow> ('a \<Rightarrow> 'e + 'b) \<Rightarrow> 'e + 'b" where
  "try_r r k = (case r of Inl e \<Rightarrow> Inl e | Inr a \<Rightarrow> k a)"

definition map_err :: "('e \<Rightarrow> 'f) \<Rightarrow> 'e + 'a \<Rightarrow> 'f + 'a" where
  "map_err f r = (case r of Inl e \<Rightarrow> Inl (f e) | Inr a \<Rightarrow> Inr a)"

definition ok_or :: "'e \<Rightarrow> 'a option \<Rightarrow> 'e + 'a" where
  "ok_or e x = (case x of None \<Rightarrow> Inl e | Some a \<Rightarrow> Inr a)"

definition no_panic :: "'e + 'a \<Rightarrow> 'e exit + 'a" where
  "no_panic = map_err Err"

text \<open>\<open>collect()\<close> of an iterator of results: the first error, or all the values.\<close>

fun collect :: "('e + 'a) list \<Rightarrow> 'e + 'a list" where
  "collect [] = Inr []"
| "collect (r # rs) = try_r r (\<lambda>a. try_r (collect rs) (\<lambda>as. Inr (a # as)))"

lemma try_r_simps [simp]:
  "try_r (Inl e) k = Inl e"
  "try_r (Inr a) k = k a"
  by (simp_all add: try_r_def)

lemma map_err_simps [simp]:
  "map_err f (Inl e) = Inl (f e)"
  "map_err f (Inr a) = Inr a"
  by (simp_all add: map_err_def)

lemma ok_or_simps [simp]:
  "ok_or e None = Inl e"
  "ok_or e (Some a) = Inr a"
  by (simp_all add: ok_or_def)

lemma no_panic_simps [simp]:
  "no_panic (Inl e) = Inl (Err e)"
  "no_panic (Inr a) = Inr a"
  by (simp_all add: no_panic_def)

lemma try_r_Inr_iff [simp]: "try_r r k = Inr b \<longleftrightarrow> (\<exists>a. r = Inr a \<and> k a = Inr b)"
  by (cases r) simp_all

lemma map_err_Inr_iff [simp]: "map_err f r = Inr a \<longleftrightarrow> r = Inr a"
  by (cases r) simp_all

lemma ok_or_Inr_iff [simp]: "ok_or e x = Inr a \<longleftrightarrow> x = Some a"
  by (cases x) simp_all

lemma map_err_Inl_iff: "map_err f r = Inl e \<longleftrightarrow> (\<exists>x. r = Inl x \<and> e = f x)"
  by (cases r) auto

lemma ok_or_Inl_iff: "ok_or e x = Inl e' \<longleftrightarrow> x = None \<and> e' = e"
  by (cases x) auto

lemma no_panic_Inr_iff [simp]: "no_panic r = Inr a \<longleftrightarrow> r = Inr a"
  by (simp add: no_panic_def)

lemma no_panic_not_Panic [simp]: "no_panic r \<noteq> Inl Panic"
  by (cases r) simp_all

lemma collect_Inr_iff: "collect rs = Inr as \<longleftrightarrow> rs = map Inr as"
  by (induction rs arbitrary: as) (auto simp: Cons_eq_map_conv)

lemma collect_all_Inr [simp]: "collect (map (\<lambda>x. Inr (f x)) xs) = Inr (map f xs)"
  by (simp add: collect_Inr_iff)

section \<open>Slices\<close>

text \<open>
  Indexing and slicing panic out of range: \<open>None\<close> here, turned into \<open>Panic\<close> by \<open>or_panic\<close>.
\<close>

definition slice_to :: "'a list \<Rightarrow> nat \<Rightarrow> 'a list option" where
  "slice_to xs n = (if n \<le> length xs then Some (take n xs) else None)"

definition slice_from :: "'a list \<Rightarrow> nat \<Rightarrow> 'a list option" where
  "slice_from xs n = (if n \<le> length xs then Some (drop n xs) else None)"

definition index :: "'a list \<Rightarrow> nat \<Rightarrow> 'a option" where
  "index xs i = (if i < length xs then Some (xs ! i) else None)"

definition or_panic :: "'a option \<Rightarrow> 'e exit + 'a" where
  "or_panic x = (case x of None \<Rightarrow> Inl Panic | Some a \<Rightarrow> Inr a)"

lemma or_panic_simps [simp]:
  "or_panic None = Inl Panic"
  "or_panic (Some a) = Inr a"
  by (simp_all add: or_panic_def)

lemma or_panic_Inr_iff [simp]: "or_panic x = Inr a \<longleftrightarrow> x = Some a"
  by (cases x) simp_all

section \<open>Strings\<close>

text \<open>\<open>str::as_bytes\<close>.\<close>

definition as_bytes :: "string \<Rightarrow> bytes" where
  "as_bytes s = map of_char s"

lemma of_char_byte_eq_iff [simp]: "(of_char c :: byte) = of_char d \<longleftrightarrow> c = d"
proof
  assume "(of_char c :: byte) = of_char d"
  then have "unat (of_nat (of_char c) :: byte) = unat (of_nat (of_char d) :: byte)"
    by (simp only: of_nat_of_char)
  then have "(of_char c :: nat) = of_char d"
    by (simp add: unat_of_nat)
  then show "c = d" by simp
qed simp

lemma length_as_bytes [simp]: "length (as_bytes s) = length s"
  by (simp add: as_bytes_def)

lemma as_bytes_eq_iff [simp]: "as_bytes s = as_bytes t \<longleftrightarrow> s = t"
  by (simp add: as_bytes_def inj_def)

text \<open>\<open>str::split(c)\<close> for an ASCII character: always at least one piece.\<close>

fun split_on :: "char \<Rightarrow> string \<Rightarrow> string list" where
  "split_on c [] = [[]]"
| "split_on c (x # xs) =
     (if x = c then [] # split_on c xs
      else (case split_on c xs of [] \<Rightarrow> [[x]] | p # ps \<Rightarrow> (x # p) # ps))"

fun join_with :: "char \<Rightarrow> string list \<Rightarrow> string" where
  "join_with c [] = []"
| "join_with c [p] = p"
| "join_with c (p # ps) = p @ c # join_with c ps"

lemma split_on_not_Nil [simp]: "split_on c s \<noteq> []"
  by (cases s) (auto split: list.splits)

lemma split_on_notin [simp]: "c \<notin> set s \<Longrightarrow> split_on c s = [s]"
  by (induction s) auto

lemma split_on_append: "c \<notin> set a \<Longrightarrow> split_on c (a @ c # b) = a # split_on c b"
  by (induction a) auto

lemma join_split_on: "join_with c (split_on c s) = s"
proof (induction s)
  case (Cons x xs)
  then show ?case
    by (cases "split_on c xs"; cases "tl (split_on c xs)") auto
qed simp

lemma split_on_pieces: "p \<in> set (split_on c s) \<Longrightarrow> c \<notin> set p"
proof (induction s arbitrary: p)
  case (Cons x xs)
  then show ?case
    by (cases "split_on c xs") (auto split: if_splits)
qed simp

lemma split_on_three_iff:
  "split_on c s = [p, q, r] \<longleftrightarrow>
     s = p @ c # q @ c # r \<and> c \<notin> set p \<and> c \<notin> set q \<and> c \<notin> set r"
proof
  assume l: "split_on c s = [p, q, r]"
  have "join_with c [p, q, r] = s" using join_split_on [of c s] by (simp only: l)
  moreover have "c \<notin> set x" if "x \<in> {p, q, r}" for x
    using split_on_pieces [of x c s] that by (auto simp: l)
  ultimately show "s = p @ c # q @ c # r \<and> c \<notin> set p \<and> c \<notin> set q \<and> c \<notin> set r"
    by auto
next
  assume "s = p @ c # q @ c # r \<and> c \<notin> set p \<and> c \<notin> set q \<and> c \<notin> set r"
  then show "split_on c s = [p, q, r]"
    by (simp add: split_on_append)
qed

text \<open>\<open>str::strip_prefix(p)\<close> and \<open>str::contains(p)\<close> for a string pattern.\<close>

definition strip_prefix :: "string \<Rightarrow> string \<Rightarrow> string option" where
  "strip_prefix p s = (if take (length p) s = p then Some (drop (length p) s) else None)"

lemma strip_prefix_append [simp]: "strip_prefix p (p @ s) = Some s"
  by (simp add: strip_prefix_def)

lemma strip_prefix_Some_iff: "strip_prefix p s = Some t \<longleftrightarrow> s = p @ t"
  by (auto simp: strip_prefix_def) (metis append_take_drop_id)

fun str_contains :: "string \<Rightarrow> string \<Rightarrow> bool" where
  "str_contains p [] \<longleftrightarrow> p = []"
| "str_contains p (x # xs) \<longleftrightarrow> take (length p) (x # xs) = p \<or> str_contains p xs"

text \<open>\<open>char::is_ascii_alphanumeric\<close> on one byte; a non-ASCII code point is made of bytes above
  127, for which it is false as well.\<close>

definition is_ascii_alphanumeric :: "char \<Rightarrow> bool" where
  "is_ascii_alphanumeric c \<longleftrightarrow>
     (let b = (of_char c :: nat)
      in 48 \<le> b \<and> b \<le> 57 \<or> 65 \<le> b \<and> b \<le> 90 \<or> 97 \<le> b \<and> b \<le> 122)"

text \<open>
  \<open>str::trim\<close>: remove code points with the Unicode property \<open>White_Space\<close> at both ends; here
  they are the UTF-8 encodings of those code points.
\<close>

definition white_space :: "string list" where
  "white_space =
     [[CHR 0x09], [CHR 0x0A], [CHR 0x0B], [CHR 0x0C], [CHR 0x0D], [CHR 0x20],
      [CHR 0xC2, CHR 0x85], [CHR 0xC2, CHR 0xA0], [CHR 0xE1, CHR 0x9A, CHR 0x80],
      [CHR 0xE2, CHR 0x80, CHR 0x80], [CHR 0xE2, CHR 0x80, CHR 0x81], [CHR 0xE2, CHR 0x80, CHR 0x82],
      [CHR 0xE2, CHR 0x80, CHR 0x83], [CHR 0xE2, CHR 0x80, CHR 0x84], [CHR 0xE2, CHR 0x80, CHR 0x85],
      [CHR 0xE2, CHR 0x80, CHR 0x86], [CHR 0xE2, CHR 0x80, CHR 0x87], [CHR 0xE2, CHR 0x80, CHR 0x88],
      [CHR 0xE2, CHR 0x80, CHR 0x89], [CHR 0xE2, CHR 0x80, CHR 0x8A], [CHR 0xE2, CHR 0x80, CHR 0xA8],
      [CHR 0xE2, CHR 0x80, CHR 0xA9], [CHR 0xE2, CHR 0x80, CHR 0xAF], [CHR 0xE2, CHR 0x81, CHR 0x9F],
      [CHR 0xE3, CHR 0x80, CHR 0x80]]"

function strip_any :: "string list \<Rightarrow> string \<Rightarrow> string" where
  "strip_any ws s =
     (case List.find (\<lambda>w. w \<noteq> [] \<and> take (length w) s = w) ws of
        None \<Rightarrow> s
      | Some w \<Rightarrow> strip_any ws (drop (length w) s))"
  by pat_completeness auto
termination
proof (relation "measure (\<lambda>(ws, s). length s)")
  fix ws s w
  assume "List.find (\<lambda>w. w \<noteq> [] \<and> take (length w) s = w) ws = Some w"
  then have "w \<noteq> []" and "take (length w) s = w" by (auto simp: find_Some_iff)
  then have "0 < length w" and "s \<noteq> []" by auto
  then show "((ws, drop (length w) s), (ws, s)) \<in> measure (\<lambda>(ws, s). length s)"
    by simp
qed simp

declare strip_any.simps [simp del]

definition trim_start :: "string \<Rightarrow> string" where
  "trim_start s = strip_any white_space s"

definition trim_end :: "string \<Rightarrow> string" where
  "trim_end s = rev (strip_any (map rev white_space) (rev s))"

definition trim :: "string \<Rightarrow> string" where
  "trim s = trim_end (trim_start s)"

lemma strip_any_id:
  assumes "s = [] \<or> hd s \<notin> hd ` set ws"
  shows "strip_any ws s = s"
proof -
  have "\<not> (w \<noteq> [] \<and> take (length w) s = w)" if "w \<in> set ws" for w
    using assms imageI [OF that, of hd] by (cases s; cases w) auto
  then have "List.find (\<lambda>w. w \<noteq> [] \<and> take (length w) s = w) ws = None"
    by (auto simp: find_None_iff)
  then show ?thesis by (subst strip_any.simps) simp
qed

lemma trim_id:
  assumes "s = [] \<or> hd s \<notin> hd ` set white_space \<and> last s \<notin> last ` set white_space"
  shows "trim s = s"
proof -
  have "strip_any white_space s = s"
    by (rule strip_any_id) (use assms in auto)
  moreover have "strip_any (map rev white_space) (rev s) = rev s"
    by (rule strip_any_id) (use assms in \<open>auto simp: image_image hd_rev\<close>)
  ultimately show ?thesis
    by (simp add: trim_def trim_start_def trim_end_def)
qed

lemma trim_Nil [simp]: "trim [] = []"
  by (simp add: trim_id)

text \<open>The bytes at which a \<open>White_Space\<close> encoding starts or ends.\<close>

lemma white_space_ends:
  "hd ` set white_space =
     {CHR 0x09, CHR 0x0A, CHR 0x0B, CHR 0x0C, CHR 0x0D, CHR 0x20, CHR 0xC2, CHR 0xE1, CHR 0xE2, CHR 0xE3}"
  "last ` set white_space \<subseteq>
     {CHR 0x09, CHR 0x0A, CHR 0x0B, CHR 0x0C, CHR 0x0D, CHR 0x20} \<union> {c. 128 \<le> (of_char c :: nat)}"
  by (auto simp: white_space_def)

section \<open>Enumerations stored as strings\<close>

text \<open>
  The contract between an enumeration's \<open>as_str\<close> and its \<open>FromStr\<close> instance, which the code
  relies on wherever a value is written to the database or a token and read back.
\<close>

locale str_codec =
  fixes as_str :: "'a \<Rightarrow> string"
    and from_str :: "string \<Rightarrow> 'e + 'a"
  assumes from_as: "from_str (as_str a) = Inr a"
    and from_exact: "from_str s = Inr a \<Longrightarrow> s = as_str a"
begin

lemma from_str_iff: "from_str s = Inr a \<longleftrightarrow> s = as_str a"
  using from_as from_exact by blast

lemma as_str_eq_iff: "as_str a = as_str b \<longleftrightarrow> a = b"
  by (metis from_as sum.inject(2))

lemma from_str_fails_iff: "(\<exists>e. from_str s = Inl e) \<longleftrightarrow> s \<notin> range as_str"
  by (metis Inl_Inr_False from_as from_str_iff obj_sumE rangeE rangeI)

end

section \<open>Lemma collections\<close>

text \<open>
  \<open>io_simps\<close> evaluates the effectful combinators; \<open>db_keeps\<close> collects, for each operation, that
  it keeps the database invariant.
\<close>

named_theorems io_simps
named_theorems db_keeps

end
