(* ===== verification/User_Status.thy ===== *)
theory User_Status
  imports Prelude
begin

text \<open>
  The account status of \<open>services/identity/src/services/mod.rs\<close>: its spelling in the \<open>status\<close>
  column and the parser that reads it back.
\<close>

datatype user_status = PendingVerification | Active | Suspended | Locked | Deleted

fun user_status_as_str :: "user_status \<Rightarrow> string" where
  "user_status_as_str PendingVerification = ''pending_verification''"
| "user_status_as_str Active = ''active''"
| "user_status_as_str Suspended = ''suspended''"
| "user_status_as_str Locked = ''locked''"
| "user_status_as_str Deleted = ''deleted''"

definition user_status_from_str :: "string \<Rightarrow> string + user_status" where
  "user_status_from_str s =
     (if s = ''pending_verification'' then Inr PendingVerification
      else if s = ''active'' then Inr Active
      else if s = ''suspended'' then Inr Suspended
      else if s = ''locked'' then Inr Locked
      else if s = ''deleted'' then Inr Deleted
      else Inl (''invalid user status: '' @ s))"

interpretation user_status: str_codec user_status_as_str user_status_from_str
proof unfold_locales
  show "user_status_from_str (user_status_as_str a) = Inr a" for a
    by (cases a) (simp_all add: user_status_from_str_def)
  show "user_status_from_str s = Inr a \<Longrightarrow> s = user_status_as_str a" for s a
    by (auto simp: user_status_from_str_def split: if_splits)
qed

definition valid_status :: "string \<Rightarrow> bool" where
  "valid_status s \<longleftrightarrow> (case user_status_from_str s of Inl _ \<Rightarrow> False | Inr _ \<Rightarrow> True)"

lemma valid_status_iff: "valid_status s \<longleftrightarrow> (\<exists>a. s = user_status_as_str a)"
proof -
  have "valid_status s \<longleftrightarrow> (\<exists>a. user_status_from_str s = Inr a)"
    by (auto simp: valid_status_def split: sum.splits)
  then show ?thesis by (simp only: user_status.from_str_iff)
qed

lemma valid_status_as_str [simp]: "valid_status (user_status_as_str a)"
  by (auto simp: valid_status_iff)

end
