(* ===== verification/Database.thy ===== *)
theory Database
  imports User_Status
begin

text \<open>
  The identity database: one record type per table of \<open>services/identity/migrations\<close>, the
  constraints the migrations declare, and the meaning of each SQL statement the service sends.

  A statement maps the transaction's \<open>NOW()\<close> and the database to a result and the database it
  leaves; a violated constraint is an error that carries the constraint's name and leaves the
  database alone. \<open>LOWER\<close> depends on the server's locale and is the parameter \<open>low\<close>. Rows are
  kept in insertion order; ties of \<open>ORDER BY\<close>, which SQL leaves open, are broken by that order.
\<close>

section \<open>Tables\<close>

record user_row =
  u_id :: uuid
  u_username :: string
  u_email :: string
  u_given_name :: string
  u_family_name :: string
  u_password_hash :: string
  u_email_verified :: bool
  u_status :: string
  u_created_at :: instant
  u_updated_at :: instant
  u_deleted_at :: "instant option"

record token_row =
  t_id :: uuid
  t_user_id :: uuid
  t_token_hash :: bytes
  t_expires_at :: instant
  t_consumed_at :: "instant option"
  t_created_at :: instant

record refresh_row =
  rt_id :: uuid
  rt_user_id :: uuid
  rt_token_hash :: bytes
  rt_expires_at :: instant
  rt_revoked_at :: "instant option"
  rt_created_at :: instant

record outbox_row =
  ob_id :: uuid
  ob_aggregate_type :: string
  ob_aggregate_id :: uuid
  ob_event_type :: string
  ob_payload :: bytes
  ob_trace_id :: "string option"
  ob_span_id :: "string option"
  ob_created_at :: instant
  ob_published_at :: "instant option"

record signing_key_row =
  sk_kid :: string
  sk_algorithm :: string
  sk_encrypted_private_key :: bytes
  sk_public_jwk :: bytes
  sk_status :: string
  sk_created_at :: instant

record db =
  users :: "user_row list"
  tokens :: "token_row list"
  refresh_tokens :: "refresh_row list"
  outbox :: "outbox_row list"
  signing_keys :: "signing_key_row list"

definition empty_db :: db where
  "empty_db = \<lparr>users = [], tokens = [], refresh_tokens = [], outbox = [], signing_keys = []\<rparr>"

text \<open>\<open>tokio_postgres::Error\<close>: a violated constraint, or any other failure.\<close>

datatype pg_error = Constraint string | Other_Pg_Error

type_synonym 'a sql = "instant \<Rightarrow> db \<Rightarrow> pg_error + 'a \<times> db"

section \<open>Constraints\<close>

definition live :: "user_row \<Rightarrow> bool" where
  "live u \<longleftrightarrow> u_deleted_at u = None"

definition users_violation :: "(string \<Rightarrow> string) \<Rightarrow> user_row list \<Rightarrow> string option" where
  "users_violation low us =
     (if \<not> distinct (map u_id us) then Some ''users_pkey''
      else if \<not> distinct (map (low \<circ> u_username) (filter live us)) then Some ''idx_users_username''
      else if \<not> distinct (map (low \<circ> u_email) (filter live us)) then Some ''idx_users_email''
      else None)"

definition tokens_violation :: "user_row list \<Rightarrow> token_row list \<Rightarrow> string option" where
  "tokens_violation us ts =
     (if \<not> distinct (map t_id ts) then Some ''email_verification_tokens_pkey''
      else if \<not> distinct (map t_token_hash (filter (\<lambda>t. t_consumed_at t = None) ts))
      then Some ''idx_verification_tokens_hash''
      else if \<not> t_user_id ` set ts \<subseteq> u_id ` set us
      then Some ''email_verification_tokens_user_id_fkey''
      else None)"

definition refresh_violation :: "user_row list \<Rightarrow> refresh_row list \<Rightarrow> string option" where
  "refresh_violation us rs =
     (if \<not> distinct (map rt_id rs) then Some ''refresh_tokens_pkey''
      else if \<not> distinct (map rt_token_hash (filter (\<lambda>r. rt_revoked_at r = None) rs))
      then Some ''idx_refresh_tokens_hash''
      else if \<not> rt_user_id ` set rs \<subseteq> u_id ` set us then Some ''refresh_tokens_user_id_fkey''
      else None)"

definition outbox_violation :: "outbox_row list \<Rightarrow> string option" where
  "outbox_violation os = (if \<not> distinct (map ob_id os) then Some ''outbox_pkey'' else None)"

definition signing_keys_violation :: "signing_key_row list \<Rightarrow> string option" where
  "signing_keys_violation ks =
     (if \<not> distinct (map sk_kid ks) then Some ''signing_keys_pkey'' else None)"

text \<open>
  Writing one table checks that table's constraints on the rows it would have, and succeeds with
  \<open>a\<close> (the rows affected) where they hold.
\<close>

definition write_checked :: "string option \<Rightarrow> 'a \<Rightarrow> db \<Rightarrow> pg_error + 'a \<times> db" where
  "write_checked violation a d = (case violation of Some c \<Rightarrow> Inl (Constraint c) | None \<Rightarrow> Inr (a, d))"

definition update_where :: "('r \<Rightarrow> bool) \<Rightarrow> ('r \<Rightarrow> 'r) \<Rightarrow> 'r list \<Rightarrow> 'r list" where
  "update_where P f rs = map (\<lambda>r. if P r then f r else r) rs"

definition affected :: "('r \<Rightarrow> bool) \<Rightarrow> 'r list \<Rightarrow> nat" where
  "affected P rs = length (filter P rs)"

text \<open>\<open>Client::query_opt\<close> fails on more than one row.\<close>

definition query_opt :: "'r list \<Rightarrow> db \<Rightarrow> pg_error + 'r option \<times> db" where
  "query_opt rows d =
     (case rows of [] \<Rightarrow> Inr (None, d) | [r] \<Rightarrow> Inr (Some r, d) | _ \<Rightarrow> Inl Other_Pg_Error)"

section \<open>Statements\<close>

definition sql_insert_user ::
    "(string \<Rightarrow> string) \<Rightarrow> uuid \<Rightarrow> string \<Rightarrow> string \<Rightarrow> string \<Rightarrow> string \<Rightarrow> string \<Rightarrow> nat sql" where
  "sql_insert_user low i username email given_name family_name password_hash now d =
     (let us = users d @ [\<lparr>u_id = i, u_username = username, u_email = email,
          u_given_name = given_name, u_family_name = family_name, u_password_hash = password_hash,
          u_email_verified = False, u_status = ''pending_verification'',
          u_created_at = now, u_updated_at = now, u_deleted_at = None\<rparr>]
      in write_checked (users_violation low us) 1 (d\<lparr>users := us\<rparr>))"

definition sql_insert_token :: "uuid \<Rightarrow> uuid \<Rightarrow> bytes \<Rightarrow> instant \<Rightarrow> nat sql" where
  "sql_insert_token i user_id token_hash expires_at now d =
     (let ts = tokens d @ [\<lparr>t_id = i, t_user_id = user_id, t_token_hash = token_hash,
          t_expires_at = expires_at, t_consumed_at = None, t_created_at = now\<rparr>]
      in write_checked (tokens_violation (users d) ts) 1 (d\<lparr>tokens := ts\<rparr>))"

definition sql_insert_refresh_token :: "uuid \<Rightarrow> uuid \<Rightarrow> bytes \<Rightarrow> instant \<Rightarrow> nat sql" where
  "sql_insert_refresh_token i user_id token_hash expires_at now d =
     (let rs = refresh_tokens d @ [\<lparr>rt_id = i, rt_user_id = user_id, rt_token_hash = token_hash,
          rt_expires_at = expires_at, rt_revoked_at = None, rt_created_at = now\<rparr>]
      in write_checked (refresh_violation (users d) rs) 1 (d\<lparr>refresh_tokens := rs\<rparr>))"

definition sql_insert_event ::
    "uuid \<Rightarrow> string \<Rightarrow> uuid \<Rightarrow> string \<Rightarrow> bytes \<Rightarrow> string option \<Rightarrow> string option \<Rightarrow> nat sql" where
  "sql_insert_event i aggregate_type aggregate_id event_type payload trace_id span_id now d =
     (let os = outbox d @ [\<lparr>ob_id = i, ob_aggregate_type = aggregate_type,
          ob_aggregate_id = aggregate_id, ob_event_type = event_type, ob_payload = payload,
          ob_trace_id = trace_id, ob_span_id = span_id, ob_created_at = now, ob_published_at = None\<rparr>]
      in write_checked (outbox_violation os) 1 (d\<lparr>outbox := os\<rparr>))"

definition sql_insert_signing_key :: "string \<Rightarrow> string \<Rightarrow> bytes \<Rightarrow> bytes \<Rightarrow> nat sql" where
  "sql_insert_signing_key kid algorithm encrypted public_jwk now d =
     (let ks = signing_keys d @ [\<lparr>sk_kid = kid, sk_algorithm = algorithm,
          sk_encrypted_private_key = encrypted, sk_public_jwk = public_jwk,
          sk_status = ''active'', sk_created_at = now\<rparr>]
      in write_checked (signing_keys_violation ks) 1 (d\<lparr>signing_keys := ks\<rparr>))"

definition sql_user_by_id :: "uuid \<Rightarrow> user_row option sql" where
  "sql_user_by_id i now d = query_opt (filter (\<lambda>u. u_id u = i \<and> live u) (users d)) d"

definition sql_user_by_email :: "(string \<Rightarrow> string) \<Rightarrow> string \<Rightarrow> user_row option sql" where
  "sql_user_by_email low email now d =
     query_opt (filter (\<lambda>u. low (u_email u) = low email \<and> live u) (users d)) d"

definition sql_token_by_hash :: "bytes \<Rightarrow> token_row option sql" where
  "sql_token_by_hash token_hash now d =
     query_opt (filter (\<lambda>t. t_token_hash t = token_hash \<and> t_consumed_at t = None) (tokens d)) d"

definition sql_consume_token :: "uuid \<Rightarrow> nat sql" where
  "sql_consume_token i now d =
     (let P = (\<lambda>t. t_id t = i \<and> t_consumed_at t = None);
          ts = update_where P (\<lambda>t. t\<lparr>t_consumed_at := Some now\<rparr>) (tokens d)
      in write_checked (tokens_violation (users d) ts) (affected P (tokens d)) (d\<lparr>tokens := ts\<rparr>))"

definition sql_mark_email_verified :: "(string \<Rightarrow> string) \<Rightarrow> string \<Rightarrow> uuid \<Rightarrow> nat sql" where
  "sql_mark_email_verified low status i now d =
     (let P = (\<lambda>u. u_id u = i \<and> live u);
          us = update_where P (\<lambda>u. u\<lparr>u_email_verified := True, u_status := status, u_updated_at := now\<rparr>)
            (users d)
      in write_checked (users_violation low us) (affected P (users d)) (d\<lparr>users := us\<rparr>))"

definition sql_update_password :: "(string \<Rightarrow> string) \<Rightarrow> uuid \<Rightarrow> string \<Rightarrow> nat sql" where
  "sql_update_password low i password_hash now d =
     (let P = (\<lambda>u. u_id u = i \<and> live u);
          us = update_where P (\<lambda>u. u\<lparr>u_password_hash := password_hash, u_updated_at := now\<rparr>) (users d)
      in write_checked (users_violation low us) (affected P (users d)) (d\<lparr>users := us\<rparr>))"

definition coalesce :: "'a option \<Rightarrow> 'a \<Rightarrow> 'a" where
  "coalesce x y = (case x of Some a \<Rightarrow> a | None \<Rightarrow> y)"

definition sql_update_profile ::
    "(string \<Rightarrow> string) \<Rightarrow> uuid \<Rightarrow> string option \<Rightarrow> string option \<Rightarrow> string option \<Rightarrow> nat sql" where
  "sql_update_profile low i given_name family_name username now d =
     (let P = (\<lambda>u. u_id u = i \<and> live u);
          us = update_where P (\<lambda>u. u\<lparr>u_given_name := coalesce given_name (u_given_name u),
              u_family_name := coalesce family_name (u_family_name u),
              u_username := coalesce username (u_username u), u_updated_at := now\<rparr>) (users d)
      in write_checked (users_violation low us) (affected P (users d)) (d\<lparr>users := us\<rparr>))"

definition sql_count_recent_tokens :: "uuid \<Rightarrow> int sql" where
  "sql_count_recent_tokens user_id now d =
     Inr (int (affected (\<lambda>t. t_user_id t = user_id \<and> t_created_at t > now - minutes 60) (tokens d)), d)"

definition sql_public_jwks :: "bytes list sql" where
  "sql_public_jwks now d =
     Inr (map sk_public_jwk (filter (\<lambda>k. sk_status k \<noteq> ''revoked'') (signing_keys d)), d)"

text \<open>\<open>ORDER BY created_at DESC LIMIT 1\<close>: a row of greatest \<open>created_at\<close>.\<close>

fun newest_key :: "signing_key_row list \<Rightarrow> signing_key_row option" where
  "newest_key [] = None"
| "newest_key (k # ks) =
     (case newest_key ks of
        None \<Rightarrow> Some k
      | Some k' \<Rightarrow> if sk_created_at k < sk_created_at k' then Some k' else Some k)"

definition sql_active_signing_key :: "signing_key_row option sql" where
  "sql_active_signing_key now d =
     Inr (newest_key (filter (\<lambda>k. sk_status k = ''active'') (signing_keys d)), d)"

definition sql_count_active_keys :: "int sql" where
  "sql_count_active_keys now d =
     Inr (int (affected (\<lambda>k. sk_status k = ''active'') (signing_keys d)), d)"

definition sql_fetch_unpublished :: "int \<Rightarrow> outbox_row list sql" where
  "sql_fetch_unpublished batch_size now d =
     (if batch_size < 0 then Inl Other_Pg_Error
      else Inr (take (nat batch_size)
        (sort_key ob_created_at (filter (\<lambda>e. ob_published_at e = None) (outbox d))), d))"

definition sql_mark_published :: "uuid \<Rightarrow> nat sql" where
  "sql_mark_published i now d =
     (let P = (\<lambda>e. ob_id e = i);
          os = update_where P (\<lambda>e. e\<lparr>ob_published_at := Some now\<rparr>) (outbox d)
      in write_checked (outbox_violation os) (affected P (outbox d)) (d\<lparr>outbox := os\<rparr>))"

end
