(* ===== verification/Database_Inv.thy ===== *)
theory Database_Inv
  imports Database
begin

text \<open>
  The database invariant: every constraint of the migrations holds and every account status can be
  parsed. Each statement keeps it, lookups by a unique key return at most one row, and the
  statements' effects are characterised for the services' lemmas.
\<close>

section \<open>The invariant\<close>

definition db_inv :: "(string \<Rightarrow> string) \<Rightarrow> db \<Rightarrow> bool" where
  "db_inv low d \<longleftrightarrow>
     users_violation low (users d) = None \<and>
     tokens_violation (users d) (tokens d) = None \<and>
     refresh_violation (users d) (refresh_tokens d) = None \<and>
     outbox_violation (outbox d) = None \<and>
     signing_keys_violation (signing_keys d) = None \<and>
     list_all (\<lambda>u. valid_status (u_status u)) (users d)"

definition sql_keeps :: "(db \<Rightarrow> bool) \<Rightarrow> 'a sql \<Rightarrow> bool" where
  "sql_keeps I s \<longleftrightarrow> (\<forall>now d a d'. I d \<longrightarrow> s now d = Inr (a, d') \<longrightarrow> I d')"

lemma sql_keepsI: "(\<And>now d a d'. I d \<Longrightarrow> s now d = Inr (a, d') \<Longrightarrow> I d') \<Longrightarrow> sql_keeps I s"
  by (auto simp: sql_keeps_def)

lemma sql_keepsD: "sql_keeps I s \<Longrightarrow> I d \<Longrightarrow> s now d = Inr (a, d') \<Longrightarrow> I d'"
  by (auto simp: sql_keeps_def)

lemma empty_db_inv: "db_inv low empty_db"
  by (simp add: db_inv_def empty_db_def users_violation_def tokens_violation_def
      refresh_violation_def outbox_violation_def signing_keys_violation_def)

section \<open>Writes\<close>

lemma write_checked_Inr_iff [simp]:
  "write_checked v a d = Inr (b, d') \<longleftrightarrow> v = None \<and> b = a \<and> d' = d"
  by (auto simp: write_checked_def split: option.splits)

lemma write_checked_Inl_iff [simp]:
  "write_checked v a d = Inl e \<longleftrightarrow> (\<exists>c. v = Some c \<and> e = Constraint c)"
  by (auto simp: write_checked_def split: option.splits)

lemma update_where_Nil [simp]: "update_where P f [] = []"
  by (simp add: update_where_def)

lemma set_update_where: "set (update_where P f rs) = (\<lambda>r. if P r then f r else r) ` set rs"
  by (simp add: update_where_def)

lemma map_update_where: "(\<And>r. g (f r) = g r) \<Longrightarrow> map g (update_where P f rs) = map g rs"
  by (auto simp: update_where_def)

lemma image_update_where: "(\<And>r. g (f r) = g r) \<Longrightarrow> g ` set (update_where P f rs) = g ` set rs"
  by (metis map_update_where set_map)

lemma update_where_none: "(\<And>r. r \<in> set rs \<Longrightarrow> \<not> P r) \<Longrightarrow> update_where P f rs = rs"
  by (induction rs) (auto simp: update_where_def)

lemma affected_zero_iff: "affected P rs = 0 \<longleftrightarrow> (\<forall>r \<in> set rs. \<not> P r)"
  by (auto simp: affected_def filter_empty_conv)

text \<open>The foreign keys only depend on which user ids exist.\<close>

lemma fkeys_mono:
  assumes "u_id ` set us \<subseteq> u_id ` set us'"
  shows "tokens_violation us ts = None \<Longrightarrow> tokens_violation us' ts = None"
    and "refresh_violation us rs = None \<Longrightarrow> refresh_violation us' rs = None"
  using assms by (auto simp: tokens_violation_def refresh_violation_def split: if_splits)

lemma users_write_inv:
  assumes "db_inv low d" and "users_violation low us = None"
    and "u_id ` set (users d) \<subseteq> u_id ` set us" and "\<forall>u \<in> set us. valid_status (u_status u)"
  shows "db_inv low (d\<lparr>users := us\<rparr>)"
  using assms fkeys_mono by (auto simp: db_inv_def list_all_iff)

lemma db_inv_statuses: "db_inv low d \<Longrightarrow> u \<in> set (users d) \<Longrightarrow> valid_status (u_status u)"
  by (auto simp: db_inv_def list_all_iff)

section \<open>Every statement keeps the invariant\<close>

lemma valid_pending: "valid_status ''pending_verification''"
  using valid_status_as_str [of PendingVerification] by simp

lemma sql_insert_user_keeps: "sql_keeps (db_inv low) (sql_insert_user low i un em gn fn ph)"
  by (rule sql_keepsI)
    (auto simp: sql_insert_user_def Let_def valid_pending db_inv_statuses intro!: users_write_inv)

lemma sql_insert_token_keeps: "sql_keeps (db_inv low) (sql_insert_token i u h e)"
  by (rule sql_keepsI) (auto simp: sql_insert_token_def Let_def db_inv_def)

lemma sql_insert_refresh_token_keeps: "sql_keeps (db_inv low) (sql_insert_refresh_token i u h e)"
  by (rule sql_keepsI) (auto simp: sql_insert_refresh_token_def Let_def db_inv_def)

lemma sql_insert_event_keeps: "sql_keeps (db_inv low) (sql_insert_event i at ai et p tr sp)"
  by (rule sql_keepsI) (auto simp: sql_insert_event_def Let_def db_inv_def)

lemma sql_insert_signing_key_keeps: "sql_keeps (db_inv low) (sql_insert_signing_key k a e j)"
  by (rule sql_keepsI) (auto simp: sql_insert_signing_key_def Let_def db_inv_def)

lemma sql_consume_token_keeps: "sql_keeps (db_inv low) (sql_consume_token i)"
  by (rule sql_keepsI) (auto simp: sql_consume_token_def Let_def db_inv_def)

lemma sql_mark_published_keeps [db_keeps]: "sql_keeps (db_inv low) (sql_mark_published i)"
  by (rule sql_keepsI) (auto simp: sql_mark_published_def Let_def db_inv_def)

lemma users_update_inv:
  assumes "db_inv low d" and "users_violation low (update_where P f (users d)) = None"
    and "\<And>u. u_id (f u) = u_id u" and "\<And>u. valid_status (u_status u) \<Longrightarrow> valid_status (u_status (f u))"
  shows "db_inv low (d\<lparr>users := update_where P f (users d)\<rparr>)"
proof (rule users_write_inv [OF assms(1,2)])
  show "u_id ` set (users d) \<subseteq> u_id ` set (update_where P f (users d))"
    by (simp add: image_update_where assms(3))
  show "\<forall>u \<in> set (update_where P f (users d)). valid_status (u_status u)"
    using assms(4) db_inv_statuses [OF assms(1)] by (auto simp: set_update_where)
qed

lemma sql_mark_email_verified_keeps:
  "valid_status st \<Longrightarrow> sql_keeps (db_inv low) (sql_mark_email_verified low st i)"
  by (rule sql_keepsI) (auto simp: sql_mark_email_verified_def Let_def intro!: users_update_inv)

lemma sql_update_password_keeps: "sql_keeps (db_inv low) (sql_update_password low i ph)"
  by (rule sql_keepsI) (auto simp: sql_update_password_def Let_def intro!: users_update_inv)

lemma sql_update_profile_keeps: "sql_keeps (db_inv low) (sql_update_profile low i gn fn un)"
  by (rule sql_keepsI) (auto simp: sql_update_profile_def Let_def intro!: users_update_inv)

lemma query_opt_same: "query_opt rows d = Inr (a, d') \<Longrightarrow> d' = d"
  by (auto simp: query_opt_def split: list.splits)

lemma sql_reads_keep [db_keeps]:
  "sql_keeps I (sql_user_by_id i)" "sql_keeps I (sql_user_by_email low em)"
  "sql_keeps I (sql_token_by_hash h)" "sql_keeps I (sql_count_recent_tokens i)"
  "sql_keeps I sql_public_jwks" "sql_keeps I sql_active_signing_key"
  "sql_keeps I sql_count_active_keys" "sql_keeps I (sql_fetch_unpublished n)"
  by (auto intro!: sql_keepsI simp: sql_user_by_id_def sql_user_by_email_def sql_token_by_hash_def
      sql_count_recent_tokens_def sql_public_jwks_def sql_active_signing_key_def
      sql_count_active_keys_def sql_fetch_unpublished_def dest: query_opt_same split: if_splits)

section \<open>What the service's operations keep\<close>

text \<open>
  A property of the database that the statements of the request handlers keep. The operations are
  shown to keep any such property, once. The statements of registration are apart: what a
  verification token promises is kept by the operations that write tokens and statuses, not by
  their single statements.
\<close>

locale account_statements =
  fixes low :: "string \<Rightarrow> string"
    and I :: "db \<Rightarrow> bool"
  assumes keeps_sql_insert_refresh_token: "sql_keeps I (sql_insert_refresh_token i u h e)"
    and keeps_sql_insert_event: "sql_keeps I (sql_insert_event i at ai ''auth_email'' p tr sp)"
    and keeps_sql_insert_signing_key: "sql_keeps I (sql_insert_signing_key k a en j)"
    and keeps_sql_update_password: "sql_keeps I (sql_update_password low i ph)"
    and keeps_sql_update_profile: "sql_keeps I (sql_update_profile low i gn' fn' un')"
begin

lemmas account_statements_keep [db_keeps] = keeps_sql_insert_refresh_token keeps_sql_insert_event
  keeps_sql_insert_signing_key keeps_sql_update_password keeps_sql_update_profile

end

locale statement_invariant = account_statements +
  assumes keeps_sql_insert_user: "sql_keeps I (sql_insert_user low i un em gn fn ph)"
    and keeps_sql_insert_token: "sql_keeps I (sql_insert_token i u h e)"
    and keeps_sql_consume_token: "sql_keeps I (sql_consume_token i)"
    and keeps_sql_mark_email_verified:
      "valid_status st \<Longrightarrow> sql_keeps I (sql_mark_email_verified low st i)"
begin

lemmas statements_keep [db_keeps] = keeps_sql_insert_user keeps_sql_insert_token
  keeps_sql_consume_token keeps_sql_mark_email_verified

end

lemma db_inv_statements: "statement_invariant low (db_inv low)"
  by unfold_locales
    (rule sql_insert_refresh_token_keeps sql_insert_event_keeps sql_insert_signing_key_keeps
      sql_update_password_keeps sql_update_profile_keeps sql_insert_user_keeps sql_insert_token_keeps
      sql_consume_token_keeps sql_mark_email_verified_keeps; assumption?)+

interpretation constraints: statement_invariant low "db_inv low" for low
  by (rule db_inv_statements)

section \<open>Lookups by a unique key\<close>

lemma filter_unique:
  assumes "distinct (map f (filter P rs))"
  shows "filter (\<lambda>r. f r = v \<and> P r) rs = [] \<and> (\<forall>r \<in> set rs. P r \<longrightarrow> f r \<noteq> v) \<or>
    (\<exists>r. filter (\<lambda>r. f r = v \<and> P r) rs = [r] \<and> r \<in> set rs \<and> P r \<and> f r = v)"
  using assms
proof (induction rs)
  case (Cons r rs)
  show ?case
  proof (cases "f r = v \<and> P r")
    case True
    with Cons.prems have "v \<notin> f ` {x \<in> set rs. P x}" by auto
    then have "\<forall>r' \<in> set rs. P r' \<longrightarrow> f r' \<noteq> v" by auto
    then have "filter (\<lambda>r. f r = v \<and> P r) rs = []" by (auto simp: filter_empty_conv)
    with True show ?thesis by auto
  next
    case False
    with Cons show ?thesis by (auto split: if_splits)
  qed
qed simp

lemma query_unique:
  assumes "distinct (map f (filter P rs))"
  shows "query_opt (filter (\<lambda>r. f r = v \<and> P r) rs) d = Inr (a, d') \<longleftrightarrow>
    d' = d \<and> (case a of None \<Rightarrow> \<forall>r \<in> set rs. P r \<longrightarrow> f r \<noteq> v | Some r \<Rightarrow> r \<in> set rs \<and> P r \<and> f r = v)"
  using filter_unique [OF assms, of v]
proof
  assume "filter (\<lambda>r. f r = v \<and> P r) rs = [] \<and> (\<forall>r \<in> set rs. P r \<longrightarrow> f r \<noteq> v)"
  then show ?thesis by (auto simp: query_opt_def split: option.splits)
next
  assume "\<exists>r. filter (\<lambda>r. f r = v \<and> P r) rs = [r] \<and> r \<in> set rs \<and> P r \<and> f r = v"
  then obtain r where r: "filter (\<lambda>r. f r = v \<and> P r) rs = [r]" "r \<in> set rs" "P r" "f r = v" by blast
  have "r' = r" if "r' \<in> set rs" "P r'" "f r' = v" for r'
  proof -
    from that have "r' \<in> set (filter (\<lambda>r. f r = v \<and> P r) rs)" by simp
    then show "r' = r" unfolding r(1) by simp
  qed
  then have "(r' \<in> set rs \<and> P r' \<and> f r' = v) = (r' = r)" for r'
    using r by blast
  moreover have "query_opt (filter (\<lambda>r. f r = v \<and> P r) rs) d = Inr (a, d') \<longleftrightarrow> a = Some r \<and> d' = d"
    by (auto simp: query_opt_def r(1))
  ultimately show ?thesis
    using r by (cases a) auto
qed

lemma db_inv_unique:
  assumes "db_inv low d"
  shows "distinct (map u_id (users d))"
    and "distinct (map (low \<circ> u_username) (filter live (users d)))"
    and "distinct (map (low \<circ> u_email) (filter live (users d)))"
    and "distinct (map t_id (tokens d))"
    and "distinct (map t_token_hash (filter (\<lambda>t. t_consumed_at t = None) (tokens d)))"
    and "t \<in> set (tokens d) \<Longrightarrow> t_user_id t \<in> u_id ` set (users d)"
    and "r \<in> set (refresh_tokens d) \<Longrightarrow> rt_user_id r \<in> u_id ` set (users d)"
    and "distinct (map ob_id (outbox d))"
    and "distinct (map sk_kid (signing_keys d))"
  using assms
  by (auto simp: db_inv_def users_violation_def tokens_violation_def refresh_violation_def
      outbox_violation_def signing_keys_violation_def split: if_splits)

lemma distinct_map_filter: "distinct (map f rs) \<Longrightarrow> distinct (map f (filter P rs))"
  by (metis distinct_map distinct_filter filter_is_subset inj_on_subset)

lemma sql_user_by_id_iff:
  assumes "db_inv low d"
  shows "sql_user_by_id i now d = Inr (a, d') \<longleftrightarrow> d' = d \<and>
    (case a of None \<Rightarrow> \<forall>u \<in> set (users d). live u \<longrightarrow> u_id u \<noteq> i
     | Some u \<Rightarrow> u \<in> set (users d) \<and> live u \<and> u_id u = i)"
  using query_unique [OF distinct_map_filter [OF db_inv_unique(1) [OF assms], of live], of i d a d']
  by (simp add: sql_user_by_id_def)

lemma sql_user_by_email_iff:
  assumes "db_inv low d"
  shows "sql_user_by_email low em now d = Inr (a, d') \<longleftrightarrow> d' = d \<and>
    (case a of None \<Rightarrow> \<forall>u \<in> set (users d). live u \<longrightarrow> low (u_email u) \<noteq> low em
     | Some u \<Rightarrow> u \<in> set (users d) \<and> live u \<and> low (u_email u) = low em)"
  using query_unique [OF db_inv_unique(3) [OF assms], of "low em" d a d']
  by (simp add: sql_user_by_email_def cong: option.case_cong)

lemma sql_token_by_hash_iff:
  assumes "db_inv low d"
  shows "sql_token_by_hash h now d = Inr (a, d') \<longleftrightarrow> d' = d \<and>
    (case a of None \<Rightarrow> \<forall>t \<in> set (tokens d). t_consumed_at t = None \<longrightarrow> t_token_hash t \<noteq> h
     | Some t \<Rightarrow> t \<in> set (tokens d) \<and> t_consumed_at t = None \<and> t_token_hash t = h)"
  using query_unique [OF db_inv_unique(5) [OF assms], of h d a d']
  by (simp add: sql_token_by_hash_def)

lemma newest_key_Some: "newest_key ks = Some k \<Longrightarrow> k \<in> set ks \<and> (\<forall>k' \<in> set ks. sk_created_at k' \<le> sk_created_at k)"
proof (induction ks arbitrary: k)
  case (Cons a ks)
  show ?case
  proof (cases "newest_key ks")
    case None
    then have "ks = []" by (cases ks) (auto split: option.splits if_splits)
    with Cons.prems show ?thesis by simp
  next
    case (Some k')
    with Cons.IH [OF Some] Cons.prems show ?thesis
      by (auto split: if_splits simp: not_less intro: order_trans)
  qed
qed simp

lemma newest_key_None [simp]: "newest_key ks = None \<longleftrightarrow> ks = []"
  by (cases ks) (auto split: option.splits)

end
