(* ===== verification/Crypto_Base.thy ===== *)
theory Crypto_Base
  imports Prelude
begin

text \<open>
  The error type of \<open>services/identity/src/crypto/error.rs\<close> and the interfaces of the libraries
  the cryptographic code calls. \<open>base64ct\<close>, the SHA-256 digest and \<open>uuid\<close> are not part of the
  repository: they are records of functions that the definitions take as arguments, with what
  their documentation promises stated as a predicate (\<open>base64_ok\<close>, \<open>uuid_ok\<close>).
\<close>

section \<open>CryptoError\<close>

datatype crypto_error =
    KeyGeneration
  | Signing
  | Verification
  | Encryption
  | Decryption
  | InvalidKeyMaterial
  | InvalidKek
  | KeyNotFound
  | Serialization
  | InvalidToken
  | TokenExpired
  | AlgorithmMismatch
  | KekLoad string
  | RngFailure

section \<open>Library interfaces\<close>

text \<open>\<open>base64ct\<close>: \<open>Base64UrlUnpadded::{encode_string, decode_vec}\<close> and \<open>Base64::decode_vec\<close>.\<close>

record base64_lib =
  b64url_encode :: "bytes \<Rightarrow> string"
  b64url_decode :: "string \<Rightarrow> bytes option"
  b64_decode :: "string \<Rightarrow> bytes option"

definition b64url_char :: "char \<Rightarrow> bool" where
  "b64url_char c \<longleftrightarrow> is_ascii_alphanumeric c \<or> c = CHR ''-'' \<or> c = CHR ''_''"

text \<open>Decoding inverts encoding, and the encoder writes the URL-safe alphabet without padding.\<close>

definition base64_ok :: "base64_lib \<Rightarrow> bool" where
  "base64_ok B \<longleftrightarrow>
     (\<forall>x. b64url_decode B (b64url_encode B x) = Some x) \<and>
     (\<forall>x. list_all b64url_char (b64url_encode B x))"

lemma base64_okD:
  assumes "base64_ok B"
  shows b64url_decode_encode: "b64url_decode B (b64url_encode B x) = Some x"
    and b64url_encode_chars: "c \<in> set (b64url_encode B x) \<Longrightarrow> b64url_char c"
  using assms by (auto simp: base64_ok_def list_all_iff)

lemma b64url_encode_inj:
  "base64_ok B \<Longrightarrow> b64url_encode B x = b64url_encode B y \<longleftrightarrow> x = y"
  by (metis b64url_decode_encode option.inject)

lemma b64url_encode_no_special:
  assumes "base64_ok B"
  shows "CHR ''.'' \<notin> set (b64url_encode B x)"
    and "CHR '';'' \<notin> set (b64url_encode B x)"
    and "CHR ''='' \<notin> set (b64url_encode B x)"
    and "CHR '' '' \<notin> set (b64url_encode B x)"
  using b64url_encode_chars [OF assms]
  by (fastforce simp: b64url_char_def is_ascii_alphanumeric_def)+

text \<open>\<open>Uuid::to_string\<close> and \<open>str::parse::<Uuid>\<close>.\<close>

record uuid_lib =
  uuid_to_string :: "uuid \<Rightarrow> string"
  uuid_parse :: "string \<Rightarrow> uuid option"

definition uuid_ok :: "uuid_lib \<Rightarrow> bool" where
  "uuid_ok U \<longleftrightarrow> (\<forall>u. uuid_parse U (uuid_to_string U u) = Some u)"

lemma uuid_parse_to_string: "uuid_ok U \<Longrightarrow> uuid_parse U (uuid_to_string U u) = Some u"
  by (simp add: uuid_ok_def)

end
