(* ===== verification/Jwk_Keys.thy ===== *)
theory Jwk_Keys
  imports Crypto_Base
begin

text \<open>
  Signing algorithms, JSON web keys and key generation, \<open>services/identity/src/crypto/jwk.rs\<close>.
  ECDSA itself is \<open>aws_lc_rs\<close>'s: key parsing, signing and verification are a record of functions
  over an abstract type of key pairs, with the contract \<open>ecdsa_ok\<close>.
\<close>

section \<open>Algorithm\<close>

datatype algorithm = ES256 | ES384

fun algorithm_as_str :: "algorithm \<Rightarrow> string" where
  "algorithm_as_str ES256 = ''ES256''"
| "algorithm_as_str ES384 = ''ES384''"

fun curve_name :: "algorithm \<Rightarrow> string" where
  "curve_name ES256 = ''P-256''"
| "curve_name ES384 = ''P-384''"

fun coordinate_size :: "algorithm \<Rightarrow> nat" where
  "coordinate_size ES256 = 32"
| "coordinate_size ES384 = 48"

text \<open>The library's algorithm constants that \<open>signing_algorithm\<close> and
  \<open>verification_algorithm\<close> choose between.\<close>

datatype ecdsa_signing = ECDSA_P256_SHA256_FIXED_SIGNING | ECDSA_P384_SHA384_FIXED_SIGNING

datatype ecdsa_verification = ECDSA_P256_SHA256_FIXED | ECDSA_P384_SHA384_FIXED

fun signing_algorithm :: "algorithm \<Rightarrow> ecdsa_signing" where
  "signing_algorithm ES256 = ECDSA_P256_SHA256_FIXED_SIGNING"
| "signing_algorithm ES384 = ECDSA_P384_SHA384_FIXED_SIGNING"

fun verification_algorithm :: "algorithm \<Rightarrow> ecdsa_verification" where
  "verification_algorithm ES256 = ECDSA_P256_SHA256_FIXED"
| "verification_algorithm ES384 = ECDSA_P384_SHA384_FIXED"

definition algorithm_from_str :: "string \<Rightarrow> crypto_error + algorithm" where
  "algorithm_from_str s =
     (if s = ''ES256'' then Inr ES256
      else if s = ''ES384'' then Inr ES384
      else Inl AlgorithmMismatch)"

interpretation alg: str_codec algorithm_as_str algorithm_from_str
proof unfold_locales
  show "algorithm_from_str (algorithm_as_str a) = Inr a" for a
    by (cases a) (simp_all add: algorithm_from_str_def)
  show "algorithm_from_str s = Inr a \<Longrightarrow> s = algorithm_as_str a" for s a
    by (auto simp: algorithm_from_str_def split: if_splits)
qed

instantiation algorithm :: linorder
begin

definition less_eq_algorithm :: "algorithm \<Rightarrow> algorithm \<Rightarrow> bool" where
  "less_eq_algorithm a b \<longleftrightarrow> coordinate_size a \<le> coordinate_size b"

definition less_algorithm :: "algorithm \<Rightarrow> algorithm \<Rightarrow> bool" where
  "less_algorithm a b \<longleftrightarrow> coordinate_size a < coordinate_size b"

instance
proof
  fix x y :: algorithm
  show "x \<le> y \<Longrightarrow> y \<le> x \<Longrightarrow> x = y"
    by (cases x; cases y) (auto simp: less_eq_algorithm_def)
qed (auto simp: less_eq_algorithm_def less_algorithm_def)

end

section \<open>ECDSA\<close>

record 'kp ecdsa_lib =
  key_from_pkcs8 :: "ecdsa_signing \<Rightarrow> bytes \<Rightarrow> 'kp option"
  public_key :: "'kp \<Rightarrow> bytes"
  ecdsa_sign :: "'kp \<Rightarrow> bytes \<Rightarrow> bytes \<Rightarrow> bytes option"
  ecdsa_verify :: "ecdsa_verification \<Rightarrow> bytes \<Rightarrow> bytes \<Rightarrow> bytes \<Rightarrow> bool"

text \<open>
  \<open>ecdsa_sign kp rnd msg\<close> signs with the randomness \<open>rnd\<close>. A signature made with a key pair
  verifies under its public key, which is an uncompressed point.
\<close>

definition ecdsa_ok :: "'kp ecdsa_lib \<Rightarrow> bool" where
  "ecdsa_ok E \<longleftrightarrow>
     (\<forall>alg der kp. key_from_pkcs8 E (signing_algorithm alg) der = Some kp \<longrightarrow>
        length (public_key E kp) = 1 + 2 * coordinate_size alg \<and> public_key E kp ! 0 = 4) \<and>
     (\<forall>alg der kp rnd msg sg. key_from_pkcs8 E (signing_algorithm alg) der = Some kp \<longrightarrow>
        ecdsa_sign E kp rnd msg = Some sg \<longrightarrow>
        ecdsa_verify E (verification_algorithm alg) (public_key E kp) msg sg)"

lemma ecdsa_okD:
  assumes "ecdsa_ok E" and "key_from_pkcs8 E (signing_algorithm alg) der = Some kp"
  shows ecdsa_public_length: "length (public_key E kp) = 1 + 2 * coordinate_size alg"
    and ecdsa_public_point: "public_key E kp ! 0 = 4"
    and ecdsa_verify_sign: "ecdsa_sign E kp rnd msg = Some sg \<Longrightarrow>
      ecdsa_verify E (verification_algorithm alg) (public_key E kp) msg sg"
  using assms unfolding ecdsa_ok_def by blast+

section \<open>JSON web keys\<close>

record jwk =
  jwk_kty :: string
  jwk_use :: string
  jwk_kid :: string
  jwk_alg :: string
  jwk_crv :: string
  jwk_x :: string
  jwk_y :: string

record jwk_set =
  jwk_keys :: "jwk list"

record generated_key_pair =
  gen_kid :: string
  gen_algorithm :: algorithm
  gen_private_key_pkcs8 :: bytes
  gen_public_jwk :: jwk

definition public_jwk_from_pkcs8 ::
    "base64_lib \<Rightarrow> 'kp ecdsa_lib \<Rightarrow> string \<Rightarrow> algorithm \<Rightarrow> bytes \<Rightarrow> crypto_error exit + jwk" where
  "public_jwk_from_pkcs8 B E kid alg pkcs8_der =
     try_r (no_panic (ok_or InvalidKeyMaterial (key_from_pkcs8 E (signing_algorithm alg) pkcs8_der)))
       (\<lambda>key_pair.
     let public_key_bytes = public_key E key_pair;
         coord_size = coordinate_size alg;
         expected_len = 1 + 2 * coord_size
     in if length public_key_bytes \<noteq> expected_len \<or> public_key_bytes ! 0 \<noteq> 0x04
        then Inl (Err InvalidKeyMaterial)
        else try_r (or_panic (slice_to public_key_bytes (coord_size + 1))) (\<lambda>upto.
             try_r (or_panic (slice_from upto 1)) (\<lambda>x.
             try_r (or_panic (slice_from public_key_bytes (1 + coord_size))) (\<lambda>y.
             Inr \<lparr>jwk_kty = ''EC'', jwk_use = ''sig'', jwk_kid = kid,
                  jwk_alg = algorithm_as_str alg, jwk_crv = curve_name alg,
                  jwk_x = b64url_encode B x, jwk_y = b64url_encode B y\<rparr>))))"

text \<open>
  \<open>generated\<close> is what \<open>EcdsaKeyPair::generate_pkcs8\<close> yields for an algorithm and \<open>kid\<close> the
  fresh UUID in text form.
\<close>

definition generate_key_pair ::
    "base64_lib \<Rightarrow> 'kp ecdsa_lib \<Rightarrow> (ecdsa_signing \<Rightarrow> bytes option) \<Rightarrow> string \<Rightarrow> algorithm
      \<Rightarrow> crypto_error exit + generated_key_pair" where
  "generate_key_pair B E generated kid alg =
     try_r (no_panic (ok_or KeyGeneration (generated (signing_algorithm alg)))) (\<lambda>pkcs8_bytes.
     try_r (public_jwk_from_pkcs8 B E kid alg pkcs8_bytes) (\<lambda>public_jwk.
     Inr \<lparr>gen_kid = kid, gen_algorithm = alg, gen_private_key_pkcs8 = pkcs8_bytes,
          gen_public_jwk = public_jwk\<rparr>))"

definition build_jwk_set :: "jwk list \<Rightarrow> jwk_set" where
  "build_jwk_set keys = \<lparr>jwk_keys = keys\<rparr>"

section \<open>Laws\<close>

text \<open>The point that a public JWK's coordinates stand for, as a verifier rebuilds it.\<close>

definition jwk_point :: "base64_lib \<Rightarrow> jwk \<Rightarrow> bytes option" where
  "jwk_point B k =
     (case (b64url_decode B (jwk_x k), b64url_decode B (jwk_y k)) of
        (Some x, Some y) \<Rightarrow> Some (0x04 # x @ y)
      | _ \<Rightarrow> None)"

lemma coordinate_slices:
  assumes "length bs = Suc (2 * n)"
  shows "slice_to bs (Suc n) = Some (take (Suc n) bs)"
    and "slice_from (take (Suc n) bs) (Suc 0) = Some (take n (drop (Suc 0) bs))"
    and "slice_from bs (Suc n) = Some (drop (Suc n) bs)"
  using assms by (simp_all add: slice_to_def slice_from_def drop_take)

lemma public_jwk_Inr_iff:
  "public_jwk_from_pkcs8 B E kid alg der = Inr k \<longleftrightarrow>
     (\<exists>kp. key_from_pkcs8 E (signing_algorithm alg) der = Some kp \<and>
        length (public_key E kp) = 1 + 2 * coordinate_size alg \<and> public_key E kp ! 0 = 4 \<and>
        k = \<lparr>jwk_kty = ''EC'', jwk_use = ''sig'', jwk_kid = kid,
             jwk_alg = algorithm_as_str alg, jwk_crv = curve_name alg,
             jwk_x = b64url_encode B (take (coordinate_size alg) (drop 1 (public_key E kp))),
             jwk_y = b64url_encode B (drop (1 + coordinate_size alg) (public_key E kp))\<rparr>)"
  by (auto simp: public_jwk_from_pkcs8_def Let_def coordinate_slices)

lemma public_jwk_no_panic: "public_jwk_from_pkcs8 B E kid alg der \<noteq> Inl Panic"
proof
  assume p: "public_jwk_from_pkcs8 B E kid alg der = Inl Panic"
  then obtain kp where "key_from_pkcs8 E (signing_algorithm alg) der = Some kp"
    by (cases "key_from_pkcs8 E (signing_algorithm alg) der") (auto simp: public_jwk_from_pkcs8_def)
  with p show False
    by (auto simp: public_jwk_from_pkcs8_def Let_def coordinate_slices split: if_splits)
qed

lemma jwk_point_of_public:
  assumes "base64_ok B" and "public_jwk_from_pkcs8 B E kid alg der = Inr k"
    and "key_from_pkcs8 E (signing_algorithm alg) der = Some kp"
  shows "jwk_point B k = Some (public_key E kp)"
proof -
  let ?p = "public_key E kp" and ?n = "coordinate_size alg"
  from assms(2,3) have len: "length ?p = 1 + 2 * ?n" and hd: "?p ! 0 = 4"
    and x: "jwk_x k = b64url_encode B (take ?n (drop 1 ?p))"
    and y: "jwk_y k = b64url_encode B (drop (1 + ?n) ?p)"
    by (auto simp: public_jwk_Inr_iff)
  have "?p = 4 # drop 1 ?p"
    using len hd by (cases ?p) auto
  moreover have "take ?n (drop 1 ?p) @ drop (1 + ?n) ?p = drop 1 ?p"
    by (metis append_take_drop_id drop_drop add.commute)
  ultimately show ?thesis
    by (simp add: jwk_point_def x y b64url_decode_encode [OF assms(1)])
qed

lemma generate_Inr_iff:
  "generate_key_pair B E generated kid alg = Inr g \<longleftrightarrow>
     gen_kid g = kid \<and> gen_algorithm g = alg \<and>
     generated (signing_algorithm alg) = Some (gen_private_key_pkcs8 g) \<and>
     public_jwk_from_pkcs8 B E kid alg (gen_private_key_pkcs8 g) = Inr (gen_public_jwk g)"
  by (cases g) (auto simp: generate_key_pair_def)

end
