(* ===== verification/Effects.thy ===== *)
theory Effects
  imports Database_Inv Jwk_Keys
begin

text \<open>
  Effects of the identity service's asynchronous functions. The state is the primary database and
  a tick that counts effects; everything the outside world decides (randomness, clocks, whether a
  statement arrives, what other clients did in between) is a record of functions of the tick.

  A function is a state transformer whose result is a value, a returned error or a panic. A
  transaction restores the database unless it commits; a commit or a single statement has three
  outcomes: it is carried out, it is refused, or it is carried out while its reply is lost.
  Other clients act (\<open>e_others\<close>) before a single statement and before a transaction; a transaction
  itself is modelled as running without interference.
\<close>

section \<open>Environment and world\<close>

datatype outcome = Delivered | Refused | ReplyLost

datatype pool = Primary | Replica

datatype client = Conn pool | Tx instant

record env =
  e_pool :: "nat \<Rightarrow> bool"
  e_stmt :: "nat \<Rightarrow> outcome"
  e_others :: "nat \<Rightarrow> db \<Rightarrow> db"
  e_replica :: "nat \<Rightarrow> db \<Rightarrow> db"
  e_db_now :: "nat \<Rightarrow> instant"
  e_utc :: "nat \<Rightarrow> instant"
  e_unix_time :: "nat \<Rightarrow> u64 option"
  e_rand :: "nat \<Rightarrow> nat \<Rightarrow> bytes option"
  e_sign_rand :: "nat \<Rightarrow> bytes"
  e_salt :: "nat \<Rightarrow> string"
  e_uuid :: "nat \<Rightarrow> uuid"
  e_trace :: "nat \<Rightarrow> (string \<times> string) option"
  e_join :: "nat \<Rightarrow> bool"
  e_pkcs8 :: "nat \<Rightarrow> ecdsa_signing \<Rightarrow> bytes option"

record world =
  w_db :: db
  w_tick :: nat

text \<open>Steps over any state, and those of the identity service.\<close>

type_synonym ('w, 'e, 'a) state_io = "'w \<Rightarrow> ('e exit + 'a) \<times> 'w"

type_synonym ('e, 'a) io = "(world, 'e, 'a) state_io"

section \<open>Sequencing\<close>

definition ret :: "'a \<Rightarrow> ('w, 'e, 'a) state_io" where
  "ret a w = (Inr a, w)"

definition throw :: "'e \<Rightarrow> ('w, 'e, 'a) state_io" where
  "throw e w = (Inl (Err e), w)"

definition andThen ::
    "('w, 'e, 'a) state_io \<Rightarrow> ('a \<Rightarrow> ('w, 'e, 'b) state_io) \<Rightarrow> ('w, 'e, 'b) state_io" where
  "andThen m k w = (case m w of (Inl x, w') \<Rightarrow> (Inl x, w') | (Inr a, w') \<Rightarrow> k a w')"

fun map_exit :: "('e \<Rightarrow> 'f) \<Rightarrow> 'e exit \<Rightarrow> 'f exit" where
  "map_exit f (Err e) = Err (f e)"
| "map_exit f Panic = Panic"

definition mapErr :: "('e \<Rightarrow> 'f) \<Rightarrow> ('w, 'e, 'a) state_io \<Rightarrow> ('w, 'f, 'a) state_io" where
  "mapErr f m w = (case m w of (r, w') \<Rightarrow> (map_err (map_exit f) r, w'))"

text \<open>A pure result, and a pure result that may be a panic, as a step.\<close>

definition pureR :: "('e \<Rightarrow> 'f) \<Rightarrow> 'e + 'a \<Rightarrow> ('w, 'f, 'a) state_io" where
  "pureR f r w = (map_err (\<lambda>e. Err (f e)) r, w)"

definition pureX :: "('e \<Rightarrow> 'f) \<Rightarrow> 'e exit + 'a \<Rightarrow> ('w, 'f, 'a) state_io" where
  "pureX f r w = (map_err (map_exit f) r, w)"

section \<open>Asking the environment\<close>

definition ask :: "(nat \<Rightarrow> 'a) \<Rightarrow> ('e, 'a) io" where
  "ask f w = (Inr (f (w_tick w)), w\<lparr>w_tick := Suc (w_tick w)\<rparr>)"

text \<open>\<open>task::spawn_blocking(..).await\<close>: the task may be lost (\<open>JoinError\<close>).\<close>

definition spawn_blocking :: "env \<Rightarrow> 'e \<Rightarrow> (('e, 'a) io) \<Rightarrow> ('e, 'a) io" where
  "spawn_blocking V e body = andThen (ask (e_join V)) (\<lambda>joined. if joined then body else throw e)"

section \<open>The database\<close>

definition pool_get :: "env \<Rightarrow> pool \<Rightarrow> 'e \<Rightarrow> ('e, client) io" where
  "pool_get V p e = andThen (ask (e_pool V)) (\<lambda>ok. if ok then ret (Conn p) else throw e)"

fun exec :: "env \<Rightarrow> client \<Rightarrow> 'a sql \<Rightarrow> (pg_error, 'a) io" where
  "exec V (Conn Primary) s w =
     (let t = w_tick w; d0 = e_others V t (w_db w);
          w0 = \<lparr>w_db = d0, w_tick = Suc t\<rparr>
      in case e_stmt V t of
           Refused \<Rightarrow> (Inl (Err Other_Pg_Error), w0)
         | out \<Rightarrow>
          (case s (e_db_now V t) d0 of
             Inl e \<Rightarrow> (Inl (Err (if out = ReplyLost then Other_Pg_Error else e)), w0)
           | Inr (a, d) \<Rightarrow> (if out = ReplyLost then Inl (Err Other_Pg_Error) else Inr a, w0\<lparr>w_db := d\<rparr>)))"
| "exec V (Conn Replica) s w =
     (let t = w_tick w; dr = e_replica V t (w_db w);
          w0 = w\<lparr>w_tick := Suc t\<rparr>
      in case e_stmt V t of
           Delivered \<Rightarrow>
             (case s (e_db_now V t) dr of
                Inl e \<Rightarrow> (Inl (Err e), w0)
              | Inr (a, d) \<Rightarrow> (if d = dr then Inr a else Inl (Err Other_Pg_Error), w0))
         | _ \<Rightarrow> (Inl (Err Other_Pg_Error), w0))"
| "exec V (Tx now) s w =
     (let t = w_tick w; w0 = w\<lparr>w_tick := Suc t\<rparr>
      in case e_stmt V t of
           Delivered \<Rightarrow>
             (case s now (w_db w) of
                Inl e \<Rightarrow> (Inl (Err e), w0)
              | Inr (a, d) \<Rightarrow> (Inr a, w0\<lparr>w_db := d\<rparr>))
         | _ \<Rightarrow> (Inl (Err Other_Pg_Error), w0))"

text \<open>
  \<open>client.transaction()\<close>, the statements of \<open>body\<close>, and \<open>tx.commit()\<close>. Where \<open>body\<close> leaves
  early, dropping the transaction rolls it back.
\<close>

definition transaction :: "env \<Rightarrow> (pg_error \<Rightarrow> 'e) \<Rightarrow> (client \<Rightarrow> ('e, 'a) io) \<Rightarrow> ('e, 'a) io" where
  "transaction V db_err body w =
     (let t = w_tick w; d0 = e_others V t (w_db w);
          w0 = \<lparr>w_db = d0, w_tick = Suc t\<rparr>
      in case e_stmt V t of
           Delivered \<Rightarrow>
             (case body (Tx (e_db_now V t)) w0 of
                (Inl x, w1) \<Rightarrow> (Inl x, w1\<lparr>w_db := d0\<rparr>)
              | (Inr a, w1) \<Rightarrow>
                 (case e_stmt V (w_tick w1) of
                    Delivered \<Rightarrow> (Inr a, w1\<lparr>w_tick := Suc (w_tick w1)\<rparr>)
                  | Refused \<Rightarrow> (Inl (Err (db_err Other_Pg_Error)),
                      w1\<lparr>w_db := d0, w_tick := Suc (w_tick w1)\<rparr>)
                  | ReplyLost \<Rightarrow> (Inl (Err (db_err Other_Pg_Error)),
                      w1\<lparr>w_tick := Suc (w_tick w1)\<rparr>)))
         | _ \<Rightarrow> (Inl (Err (db_err Other_Pg_Error)), w0))"

section \<open>Evaluation\<close>

lemma ret_simps [io_simps]: "ret a w = (Inr a, w)" "throw e w = (Inl (Err e), w)"
  by (simp_all add: ret_def throw_def)

lemma andThen_Inr_iff: "andThen m k w = (Inr b, w'') \<longleftrightarrow> (\<exists>a w'. m w = (Inr a, w') \<and> k a w' = (Inr b, w''))"
  by (auto simp: andThen_def split: prod.splits sum.splits)

lemma andThen_Inl_iff:
  "andThen m k w = (Inl x, w'') \<longleftrightarrow>
     m w = (Inl x, w'') \<or> (\<exists>a w'. m w = (Inr a, w') \<and> k a w' = (Inl x, w''))"
  by (auto simp: andThen_def split: prod.splits sum.splits)

lemma mapErr_Inr_iff: "mapErr f m w = (Inr a, w') \<longleftrightarrow> m w = (Inr a, w')"
  by (cases "m w") (auto simp: mapErr_def)

lemma pureR_Inr_iff: "pureR f r w = (Inr a, w') \<longleftrightarrow> r = Inr a \<and> w' = w"
  by (auto simp: pureR_def)

lemma pureX_Inr_iff: "pureX f r w = (Inr a, w') \<longleftrightarrow> r = Inr a \<and> w' = w"
  by (auto simp: pureX_def)

lemma ask_Inr_iff: "ask f w = (Inr a, w') \<longleftrightarrow> a = f (w_tick w) \<and> w' = w\<lparr>w_tick := Suc (w_tick w)\<rparr>"
  by (auto simp: ask_def)

lemma spawn_blocking_Inr_iff:
  "spawn_blocking V e body w = (Inr a, w') \<longleftrightarrow>
     e_join V (w_tick w) \<and> body (w\<lparr>w_tick := Suc (w_tick w)\<rparr>) = (Inr a, w')"
  by (auto simp: spawn_blocking_def andThen_Inr_iff ask_Inr_iff throw_def)

lemma pool_get_Inr_iff:
  "pool_get V p e w = (Inr c, w') \<longleftrightarrow>
     e_pool V (w_tick w) \<and> c = Conn p \<and> w' = w\<lparr>w_tick := Suc (w_tick w)\<rparr>"
  by (auto simp: pool_get_def andThen_Inr_iff ask_Inr_iff throw_def ret_def split: if_splits)

lemmas io_Inr_iff = andThen_Inr_iff mapErr_Inr_iff pureR_Inr_iff pureX_Inr_iff ask_Inr_iff
  spawn_blocking_Inr_iff pool_get_Inr_iff ret_def throw_def

lemma exec_primary_Inr_iff:
  "exec V (Conn Primary) s w = (Inr a, w') \<longleftrightarrow>
     e_stmt V (w_tick w) = Delivered \<and>
     (\<exists>d. s (e_db_now V (w_tick w)) (e_others V (w_tick w) (w_db w)) = Inr (a, d) \<and>
        w' = \<lparr>w_db = d, w_tick = Suc (w_tick w)\<rparr>)"
  by (auto simp: Let_def split: outcome.splits sum.splits prod.splits if_splits)

lemma exec_replica_Inr_iff:
  "exec V (Conn Replica) s w = (Inr a, w') \<longleftrightarrow>
     e_stmt V (w_tick w) = Delivered \<and>
     s (e_db_now V (w_tick w)) (e_replica V (w_tick w) (w_db w)) =
       Inr (a, e_replica V (w_tick w) (w_db w)) \<and>
     w' = w\<lparr>w_tick := Suc (w_tick w)\<rparr>"
  by (auto simp: Let_def split: outcome.splits sum.splits prod.splits if_splits)

lemma exec_tx_Inr_iff:
  "exec V (Tx now) s w = (Inr a, w') \<longleftrightarrow>
     e_stmt V (w_tick w) = Delivered \<and>
     (\<exists>d. s now (w_db w) = Inr (a, d) \<and> w' = \<lparr>w_db = d, w_tick = Suc (w_tick w)\<rparr>)"
  by (auto simp: Let_def split: outcome.splits sum.splits prod.splits)

lemmas exec_Inr_iff = exec_primary_Inr_iff exec_replica_Inr_iff exec_tx_Inr_iff

declare exec.simps [simp del]

lemma transaction_Inr_iff:
  "transaction V f body w = (Inr a, w') \<longleftrightarrow>
     e_stmt V (w_tick w) = Delivered \<and>
     (\<exists>w1. body (Tx (e_db_now V (w_tick w)))
         \<lparr>w_db = e_others V (w_tick w) (w_db w), w_tick = Suc (w_tick w)\<rparr> = (Inr a, w1) \<and>
       e_stmt V (w_tick w1) = Delivered \<and> w' = w1\<lparr>w_tick := Suc (w_tick w1)\<rparr>)"
  by (auto simp: transaction_def Let_def split: outcome.splits sum.splits prod.splits)

text \<open>
  A transaction that does not return a value leaves the database as other clients left it, or as
  its completed body would: the latter only where the reply to the commit was lost.
\<close>

lemma transaction_Inl:
  assumes "transaction V f body w = (Inl x, w')"
  shows "w_db w' = e_others V (w_tick w) (w_db w) \<or>
    (\<exists>a w1. body (Tx (e_db_now V (w_tick w)))
         \<lparr>w_db = e_others V (w_tick w) (w_db w), w_tick = Suc (w_tick w)\<rparr> = (Inr a, w1) \<and>
       e_stmt V (w_tick w1) = ReplyLost \<and> x = Err (f Other_Pg_Error) \<and> w_db w' = w_db w1)"
  using assms
  by (auto simp: transaction_def Let_def split: outcome.splits sum.splits prod.splits)

section \<open>Steps that do not touch the database\<close>

definition quiet :: "('e, 'a) io \<Rightarrow> bool" where
  "quiet m \<longleftrightarrow> (\<forall>w. w_db (snd (m w)) = w_db w)"

lemma quietD: "quiet m \<Longrightarrow> m w = (r, w') \<Longrightarrow> w_db w' = w_db w"
  by (metis quiet_def snd_conv)

lemma quiet_pure:
  "quiet (ret a)" "quiet (throw e)" "quiet (pureR f r)" "quiet (pureX g x)" "quiet (ask h)"
  by (auto simp: quiet_def ret_def throw_def pureR_def pureX_def ask_def)

lemma quiet_andThen: "quiet m \<Longrightarrow> (\<And>a. quiet (k a)) \<Longrightarrow> quiet (andThen m k)"
  by (auto simp: quiet_def andThen_def split: prod.splits sum.splits) (metis snd_conv)+

lemma quiet_control:
  "quiet m \<Longrightarrow> quiet n \<Longrightarrow> quiet (if b then m else n)"
  "quiet m \<Longrightarrow> (\<And>a. quiet (s a)) \<Longrightarrow> quiet (case x of None \<Rightarrow> m | Some a \<Rightarrow> s a)"
  "(\<And>a b. quiet (p a b)) \<Longrightarrow> quiet (case y of (a, b) \<Rightarrow> p a b)"
  "(\<And>c. quiet (f c)) \<Longrightarrow> quiet (let c = z in f c)"
  by (auto split: option.split prod.split simp: Let_def)

lemma quiet_mapErr: "quiet m \<Longrightarrow> quiet (mapErr f m)"
  by (auto simp: quiet_def mapErr_def split: prod.splits) (metis snd_conv)

lemma quiet_spawn_blocking: "quiet m \<Longrightarrow> quiet (spawn_blocking V e m)"
  unfolding spawn_blocking_def by (intro quiet_andThen quiet_pure quiet_control)

lemma quiet_pool_get: "quiet (pool_get V p e)"
  unfolding pool_get_def by (intro quiet_andThen quiet_pure quiet_control)

lemmas quiet_intros = quiet_pure quiet_andThen quiet_control quiet_mapErr quiet_spawn_blocking
  quiet_pool_get

lemma quiet_step:
  assumes "andThen m k w = (r, w')" and "quiet m"
  obtains x where "r = Inl x" and "w_db w' = w_db w" and "m w = (Inl x, w')"
  | a w1 where "m w = (Inr a, w1)" and "w_db w1 = w_db w" and "k a w1 = (r, w')"
proof -
  obtain r1 w1 where m: "m w = (r1, w1)" by (cases "m w")
  with assms(2) have q: "w_db w1 = w_db w" by (rule quietD)
  show thesis
    by (cases r1) (use assms(1) m q that in \<open>auto simp: andThen_def\<close>)
qed

section \<open>Which errors a step returns\<close>

definition errs :: "('e \<Rightarrow> bool) \<Rightarrow> ('w, 'e, 'a) state_io \<Rightarrow> bool" where
  "errs E m \<longleftrightarrow> (\<forall>w e w'. m w = (Inl (Err e), w') \<longrightarrow> E e)"

lemma errsD: "errs E m \<Longrightarrow> m w = (Inl (Err e), w') \<Longrightarrow> E e"
  by (auto simp: errs_def)

lemma errs_pure:
  "errs E (ret a)" "E e \<Longrightarrow> errs E (throw e)" "(\<And>x. r = Inl x \<Longrightarrow> E (f x)) \<Longrightarrow> errs E (pureR f r)"
  "(\<And>x. q = Inl (Err x) \<Longrightarrow> E (g x)) \<Longrightarrow> errs E (pureX g q)" "errs E (ask h)"
  by (auto simp: errs_def ret_def throw_def pureR_def pureX_def ask_def map_err_def
      split: sum.splits elim!: map_exit.elims)

lemma errs_andThen: "errs E m \<Longrightarrow> (\<And>a. errs E (k a)) \<Longrightarrow> errs E (andThen m k)"
  unfolding errs_def andThen_Inl_iff by blast

lemma errs_control:
  "errs E m \<Longrightarrow> errs E n \<Longrightarrow> errs E (if b then m else n)"
  "errs E m \<Longrightarrow> (\<And>a. errs E (s a)) \<Longrightarrow> errs E (case x of None \<Rightarrow> m | Some a \<Rightarrow> s a)"
  "(\<And>a b. errs E (p a b)) \<Longrightarrow> errs E (case y of (a, b) \<Rightarrow> p a b)"
  "(\<And>c. errs E (f c)) \<Longrightarrow> errs E (let c = z in f c)"
  by (auto split: option.split prod.split simp: Let_def)

lemma errs_mapErr: "(\<And>e. E (f e)) \<Longrightarrow> errs E (mapErr f m)"
  by (auto simp: errs_def mapErr_def map_err_def split: prod.splits sum.splits elim!: map_exit.elims)

lemma errs_spawn_blocking: "E e \<Longrightarrow> errs E m \<Longrightarrow> errs E (spawn_blocking V e m)"
  unfolding spawn_blocking_def by (intro errs_andThen errs_pure errs_control)

lemma errs_pool_get: "E e \<Longrightarrow> errs E (pool_get V p e)"
  unfolding pool_get_def by (intro errs_andThen errs_pure errs_control)

lemmas errs_intros = errs_andThen errs_control errs_mapErr errs_spawn_blocking errs_pool_get errs_pure

section \<open>Keeping an invariant\<close>

definition io_keeps :: "(db \<Rightarrow> bool) \<Rightarrow> ('e, 'a) io \<Rightarrow> bool" where
  "io_keeps I m \<longleftrightarrow> (\<forall>w r w'. I (w_db w) \<longrightarrow> m w = (r, w') \<longrightarrow> I (w_db w'))"

definition env_keeps :: "(db \<Rightarrow> bool) \<Rightarrow> env \<Rightarrow> bool" where
  "env_keeps I V \<longleftrightarrow> (\<forall>t d. I d \<longrightarrow> I (e_others V t d) \<and> I (e_replica V t d))"

lemma io_keepsI: "(\<And>w r w'. I (w_db w) \<Longrightarrow> m w = (r, w') \<Longrightarrow> I (w_db w')) \<Longrightarrow> io_keeps I m"
  by (auto simp: io_keeps_def)

lemma io_keepsD: "io_keeps I m \<Longrightarrow> I (w_db w) \<Longrightarrow> m w = (r, w') \<Longrightarrow> I (w_db w')"
  by (auto simp: io_keeps_def)

lemma keeps_pure [db_keeps]:
  "io_keeps I (ret a)" "io_keeps I (throw e)" "io_keeps I (pureR f r)" "io_keeps I (pureX g x)"
  "io_keeps I (ask h)"
  by (auto simp: io_keeps_def ret_def throw_def pureR_def pureX_def ask_def)

lemma keeps_if [db_keeps]: "io_keeps I m \<Longrightarrow> io_keeps I n \<Longrightarrow> io_keeps I (if b then m else n)"
  by simp

lemma keeps_let [db_keeps]: "(\<And>a. io_keeps I (f a)) \<Longrightarrow> io_keeps I (let a = x in f a)"
  by (simp add: Let_def)

lemma keeps_case_option [db_keeps]:
  "io_keeps I m \<Longrightarrow> (\<And>a. io_keeps I (s a)) \<Longrightarrow> io_keeps I (case x of None \<Rightarrow> m | Some a \<Rightarrow> s a)"
  by (simp split: option.split)

lemma keeps_case_prod [db_keeps]:
  "(\<And>a b. io_keeps I (s a b)) \<Longrightarrow> io_keeps I (case x of (a, b) \<Rightarrow> s a b)"
  by (simp split: prod.split)

lemma keeps_case_sum [db_keeps]:
  "(\<And>a. io_keeps I (l a)) \<Longrightarrow> (\<And>b. io_keeps I (r b)) \<Longrightarrow>
     io_keeps I (case x of Inl a \<Rightarrow> l a | Inr b \<Rightarrow> r b)"
  by (simp split: sum.split)

lemma keeps_andThen [db_keeps]:
  assumes "io_keeps I m" and "\<And>a. io_keeps I (k a)"
  shows "io_keeps I (andThen m k)"
proof (rule io_keepsI)
  fix w r w' assume I: "I (w_db w)" and m: "andThen m k w = (r, w')"
  obtain r1 w1 where r1: "m w = (r1, w1)" by (cases "m w")
  from io_keepsD [OF assms(1) I r1] have I1: "I (w_db w1)" .
  show "I (w_db w')"
  proof (cases r1)
    case (Inl x)
    with m r1 I1 show ?thesis by (simp add: andThen_def)
  next
    case (Inr a)
    with m r1 have "k a w1 = (r, w')" by (simp add: andThen_def)
    then show ?thesis by (rule io_keepsD [OF assms(2) I1])
  qed
qed

lemma keeps_mapErr [db_keeps]: "io_keeps I m \<Longrightarrow> io_keeps I (mapErr f m)"
  by (rule io_keepsI) (auto simp: mapErr_def split: prod.splits dest: io_keepsD)

lemma keeps_spawn_blocking [db_keeps]: "io_keeps I m \<Longrightarrow> io_keeps I (spawn_blocking V e m)"
  unfolding spawn_blocking_def by (intro keeps_andThen keeps_pure) (simp add: keeps_pure)

lemma keeps_pool_get [db_keeps]: "io_keeps I (pool_get V p e)"
  unfolding pool_get_def by (intro keeps_andThen keeps_pure) (simp add: keeps_pure)

lemma keeps_exec [db_keeps]:
  assumes "env_keeps I V" and "sql_keeps I s"
  shows "io_keeps I (exec V c s)"
proof (rule io_keepsI)
  fix w r w' assume I: "I (w_db w)" and m: "exec V c s w = (r, w')"
  have I': "I (e_others V t (w_db w))" for t using assms(1) I by (simp add: env_keeps_def)
  consider "c = Conn Primary" | "c = Conn Replica" | now where "c = Tx now"
    by (cases c; cases "case c of Conn p \<Rightarrow> p | _ \<Rightarrow> Primary") auto
  moreover have "s now (e_others V t (w_db w)) = Inr (a, d) \<Longrightarrow> I d" for now t a d
    by (rule sql_keepsD [OF assms(2) I'])
  moreover have "s now (w_db w) = Inr (a, d) \<Longrightarrow> I d" for now a d
    by (rule sql_keepsD [OF assms(2) I])
  ultimately show "I (w_db w')"
    using m I I'
    by cases (auto simp: exec.simps Let_def split: outcome.splits sum.splits prod.splits if_splits)
qed

lemma keeps_transaction [db_keeps]:
  assumes "env_keeps I V" and "\<And>c. io_keeps I (body c)"
  shows "io_keeps I (transaction V f body)"
proof (rule io_keepsI)
  fix w r w' assume I: "I (w_db w)" and m: "transaction V f body w = (r, w')"
  let ?w0 = "\<lparr>w_db = e_others V (w_tick w) (w_db w), w_tick = Suc (w_tick w)\<rparr>"
  have I0: "I (w_db ?w0)" using assms(1) I by (simp add: env_keeps_def)
  have body: "body c ?w0 = (r1, w1) \<Longrightarrow> I (w_db w1)" for c r1 w1
    by (rule io_keepsD [OF assms(2) I0])
  show "I (w_db w')"
  proof (cases r)
    case (Inl x)
    with m have "transaction V f body w = (Inl x, w')" by simp
    from transaction_Inl [OF this] I0 body show ?thesis by auto
  next
    case (Inr a)
    with m have "transaction V f body w = (Inr a, w')" by simp
    then show ?thesis using body by (auto simp: transaction_Inr_iff)
  qed
qed

end
