(* ===== verification/Jwt.thy ===== *)
theory Jwt
  imports Jwk_Keys
begin

text \<open>
  JSON web tokens, \<open>services/identity/src/crypto/jwt.rs\<close>: the header and claims, compact
  serialisation with a signature (\<open>sign_jwt\<close>) and verification (\<open>verify_jwt\<close>). \<open>serde_json\<close> is a
  record of functions; \<open>json_ok\<close> states that reading back what was written gives the same value,
  for claims without custom entries (a custom entry may collide with a standard name).

  Claim times are \<open>u64\<close>; where the code adds to them, \<open>add_u64\<close> keeps both build profiles:
  \<open>chk\<close> is \<open>True\<close> where overflow checks are compiled in (the sum panics) and \<open>False\<close> where they
  are not (it wraps).
\<close>

section \<open>Header, audience, claims\<close>

record jwt_header =
  hdr_alg :: string
  hdr_typ :: string
  hdr_kid :: string

datatype audience = Single string | Multiple "string list"

fun audience_contains :: "audience \<Rightarrow> string \<Rightarrow> bool" where
  "audience_contains (Single s) v \<longleftrightarrow> s = v"
| "audience_contains (Multiple vs) v \<longleftrightarrow> list_ex (\<lambda>s. s = v) vs"

text \<open>A \<open>serde_json::Value\<close> is represented by its text.\<close>

type_synonym json_value = bytes

record claims =
  cl_iss :: "string option"
  cl_sub :: "string option"
  cl_aud :: "audience option"
  cl_exp :: "u64 option"
  cl_nbf :: "u64 option"
  cl_iat :: "u64 option"
  cl_jti :: "string option"
  cl_name :: "string option"
  cl_given_name :: "string option"
  cl_family_name :: "string option"
  cl_email :: "string option"
  cl_email_verified :: "bool option"
  cl_preferred_username :: "string option"
  cl_custom :: "(string \<times> json_value) list"

definition default_claims :: claims where
  "default_claims = \<lparr>cl_iss = None, cl_sub = None, cl_aud = None, cl_exp = None, cl_nbf = None,
     cl_iat = None, cl_jti = None, cl_name = None, cl_given_name = None, cl_family_name = None,
     cl_email = None, cl_email_verified = None, cl_preferred_username = None, cl_custom = []\<rparr>"

record encoded_jwt =
  jwt_token :: string
  jwt_kid :: string

record verification_options =
  allowed_algorithms :: "algorithm list"
  opt_issuer :: "string option"
  opt_audience :: "string option"
  current_time :: u64
  leeway :: u64

section \<open>serde_json\<close>

record json_lib =
  header_to_vec :: "jwt_header \<Rightarrow> bytes option"
  header_from_slice :: "bytes \<Rightarrow> jwt_header option"
  claims_to_vec :: "claims \<Rightarrow> bytes option"
  claims_from_slice :: "bytes \<Rightarrow> claims option"
  jwk_to_value :: "jwk \<Rightarrow> json_value option"
  jwk_from_value :: "json_value \<Rightarrow> jwk option"
  jwk_set_to_string :: "jwk_set \<Rightarrow> string option"

definition json_ok :: "json_lib \<Rightarrow> bool" where
  "json_ok J \<longleftrightarrow>
     (\<forall>h b. header_to_vec J h = Some b \<longrightarrow> header_from_slice J b = Some h) \<and>
     (\<forall>c b. cl_custom c = [] \<longrightarrow> claims_to_vec J c = Some b \<longrightarrow> claims_from_slice J b = Some c) \<and>
     (\<forall>k v. jwk_to_value J k = Some v \<longrightarrow> jwk_from_value J v = Some k)"

lemma json_okD:
  assumes "json_ok J"
  shows header_json: "header_to_vec J h = Some b \<Longrightarrow> header_from_slice J b = Some h"
    and claims_json: "cl_custom c = [] \<Longrightarrow> claims_to_vec J c = Some b \<Longrightarrow> claims_from_slice J b = Some c"
    and jwk_json: "jwk_to_value J k = Some v \<Longrightarrow> jwk_from_value J v = Some k"
  using assms unfolding json_ok_def by blast+

section \<open>Signing\<close>

definition sign_jwt ::
    "base64_lib \<Rightarrow> 'kp ecdsa_lib \<Rightarrow> json_lib \<Rightarrow> bytes \<Rightarrow> algorithm \<Rightarrow> string \<Rightarrow> claims \<Rightarrow> 'kp
      \<Rightarrow> crypto_error + encoded_jwt" where
  "sign_jwt B E J rnd alg kid claims key_pair =
     (let header = \<lparr>hdr_alg = algorithm_as_str alg, hdr_typ = ''JWT'', hdr_kid = kid\<rparr>
      in try_r (ok_or Serialization (header_to_vec J header)) (\<lambda>header_json.
         try_r (ok_or Serialization (claims_to_vec J claims)) (\<lambda>claims_json.
         let header_b64 = b64url_encode B header_json;
             claims_b64 = b64url_encode B claims_json;
             signing_input = header_b64 @ ''.'' @ claims_b64
         in try_r (ok_or Signing (ecdsa_sign E key_pair rnd (as_bytes signing_input))) (\<lambda>signature.
            let sig_b64 = b64url_encode B signature
            in Inr \<lparr>jwt_token = signing_input @ ''.'' @ sig_b64, jwt_kid = kid\<rparr>))))"

section \<open>Verification\<close>

definition add_u64 :: "bool \<Rightarrow> u64 \<Rightarrow> u64 \<Rightarrow> 'e exit + u64" where
  "add_u64 chk a b = (if chk \<and> 2 ^ 64 \<le> unat a + unat b then Inl Panic else Inr (a + b))"

definition check_exp :: "bool \<Rightarrow> verification_options \<Rightarrow> claims \<Rightarrow> crypto_error exit + unit" where
  "check_exp chk opts c =
     (case cl_exp c of
        None \<Rightarrow> Inr ()
      | Some e \<Rightarrow> try_r (add_u64 chk e (leeway opts)) (\<lambda>limit.
          if current_time opts > limit then Inl (Err TokenExpired) else Inr ()))"

definition check_nbf :: "bool \<Rightarrow> verification_options \<Rightarrow> claims \<Rightarrow> crypto_error exit + unit" where
  "check_nbf chk opts c =
     (case cl_nbf c of
        None \<Rightarrow> Inr ()
      | Some nbf \<Rightarrow> try_r (add_u64 chk (current_time opts) (leeway opts)) (\<lambda>latest.
          if latest < nbf then Inl (Err InvalidToken) else Inr ()))"

definition check_iss :: "verification_options \<Rightarrow> claims \<Rightarrow> crypto_error exit + unit" where
  "check_iss opts c =
     (case opt_issuer opts of
        None \<Rightarrow> Inr ()
      | Some expected_iss \<Rightarrow>
          (case cl_iss c of
             Some iss \<Rightarrow> if iss = expected_iss then Inr () else Inl (Err InvalidToken)
           | None \<Rightarrow> Inl (Err InvalidToken)))"

definition check_aud :: "verification_options \<Rightarrow> claims \<Rightarrow> crypto_error exit + unit" where
  "check_aud opts c =
     (case opt_audience opts of
        None \<Rightarrow> Inr ()
      | Some expected_aud \<Rightarrow>
          (case cl_aud c of
             Some aud \<Rightarrow> if audience_contains aud expected_aud then Inr () else Inl (Err InvalidToken)
           | None \<Rightarrow> Inl (Err InvalidToken)))"

definition verify_jwt ::
    "bool \<Rightarrow> base64_lib \<Rightarrow> 'kp ecdsa_lib \<Rightarrow> json_lib \<Rightarrow> string \<Rightarrow> jwk \<Rightarrow> verification_options
      \<Rightarrow> crypto_error exit + claims" where
  "verify_jwt chk B E J token public_jwk options =
     (let parts = split_on CHR ''.'' token
      in if length parts \<noteq> 3 then Inl (Err InvalidToken)
         else try_r (no_panic (ok_or InvalidToken (b64url_decode B (parts ! 0)))) (\<lambda>header_bytes.
         try_r (no_panic (ok_or InvalidToken (header_from_slice J header_bytes))) (\<lambda>header.
         try_r (no_panic (algorithm_from_str (hdr_alg header))) (\<lambda>algorithm.
         if algorithm \<notin> set (allowed_algorithms options) then Inl (Err AlgorithmMismatch)
         else if hdr_kid header \<noteq> jwk_kid public_jwk then Inl (Err Verification)
         else try_r (no_panic (ok_or InvalidKeyMaterial (b64url_decode B (jwk_x public_jwk)))) (\<lambda>x_bytes.
         try_r (no_panic (ok_or InvalidKeyMaterial (b64url_decode B (jwk_y public_jwk)))) (\<lambda>y_bytes.
         let public_key_bytes = 0x04 # x_bytes @ y_bytes;
             signing_input = parts ! 0 @ ''.'' @ parts ! 1
         in try_r (no_panic (ok_or InvalidToken (b64url_decode B (parts ! 2)))) (\<lambda>signature_bytes.
         if \<not> ecdsa_verify E (verification_algorithm algorithm) public_key_bytes
               (as_bytes signing_input) signature_bytes
         then Inl (Err Verification)
         else try_r (no_panic (ok_or InvalidToken (b64url_decode B (parts ! 1)))) (\<lambda>claims_bytes.
         try_r (no_panic (ok_or InvalidToken (claims_from_slice J claims_bytes))) (\<lambda>claims.
         try_r (check_exp chk options claims) (\<lambda>_.
         try_r (check_nbf chk options claims) (\<lambda>_.
         try_r (check_iss options claims) (\<lambda>_.
         try_r (check_aud options claims) (\<lambda>_.
         Inr claims)))))))))))))"

definition key_pair_from_pkcs8 :: "'kp ecdsa_lib \<Rightarrow> algorithm \<Rightarrow> bytes \<Rightarrow> crypto_error + 'kp" where
  "key_pair_from_pkcs8 E alg pkcs8_der =
     ok_or InvalidKeyMaterial (key_from_pkcs8 E (signing_algorithm alg) pkcs8_der)"

section \<open>What verification promises\<close>

text \<open>The claims are within their validity window, widened by the leeway, on unbounded numbers.\<close>

definition in_window :: "verification_options \<Rightarrow> claims \<Rightarrow> bool" where
  "in_window opts c \<longleftrightarrow>
     (\<forall>e. cl_exp c = Some e \<longrightarrow> unat (current_time opts) \<le> unat e + unat (leeway opts)) \<and>
     (\<forall>n. cl_nbf c = Some n \<longrightarrow> unat n \<le> unat (current_time opts) + unat (leeway opts))"

definition expected_party :: "verification_options \<Rightarrow> claims \<Rightarrow> bool" where
  "expected_party opts c \<longleftrightarrow>
     (\<forall>i. opt_issuer opts = Some i \<longrightarrow> cl_iss c = Some i) \<and>
     (\<forall>a. opt_audience opts = Some a \<longrightarrow> (\<exists>aud. cl_aud c = Some aud \<and> audience_contains aud a))"

text \<open>No sum of claim times exceeds 64 bits.\<close>

definition times_fit :: "verification_options \<Rightarrow> claims \<Rightarrow> bool" where
  "times_fit opts c \<longleftrightarrow>
     (\<forall>e. cl_exp c = Some e \<longrightarrow> unat e + unat (leeway opts) < 2 ^ 64) \<and>
     (cl_nbf c \<noteq> None \<longrightarrow> unat (current_time opts) + unat (leeway opts) < 2 ^ 64)"

text \<open>
  A token carries claims \<open>c\<close> under a public key: three parts, a header naming an allowed
  algorithm and this key, and a signature over the first two parts that the key verifies.
\<close>

definition carries ::
    "base64_lib \<Rightarrow> 'kp ecdsa_lib \<Rightarrow> json_lib \<Rightarrow> algorithm list \<Rightarrow> jwk \<Rightarrow> string \<Rightarrow> claims \<Rightarrow> bool" where
  "carries B E J algs k token c \<longleftrightarrow>
     (\<exists>h p s hb header alg point sb cb.
        token = h @ ''.'' @ p @ ''.'' @ s \<and>
        CHR ''.'' \<notin> set h \<and> CHR ''.'' \<notin> set p \<and> CHR ''.'' \<notin> set s \<and>
        b64url_decode B h = Some hb \<and> header_from_slice J hb = Some header \<and>
        hdr_alg header = algorithm_as_str alg \<and> alg \<in> set algs \<and> hdr_kid header = jwk_kid k \<and>
        jwk_point B k = Some point \<and> b64url_decode B s = Some sb \<and>
        ecdsa_verify E (verification_algorithm alg) point (as_bytes (h @ ''.'' @ p)) sb \<and>
        b64url_decode B p = Some cb \<and> claims_from_slice J cb = Some c)"

section \<open>Laws\<close>

lemma add_u64_le: "add_u64 chk a b = Inr s \<Longrightarrow> unat s \<le> unat a + unat b"
  by (auto simp: add_u64_def unat_word_ariths split: if_splits)

lemma add_u64_fits:
  assumes "unat a + unat b < 2 ^ 64"
  shows "add_u64 chk a b = Inr (a + b)" and "unat (a + b) = unat a + unat b"
  using assms by (auto simp: add_u64_def unat_word_ariths)

lemma check_times_sound:
  assumes "check_exp chk opts c = Inr u" and "check_nbf chk opts c = Inr v"
  shows "in_window opts c"
  unfolding in_window_def
proof (intro conjI allI impI)
  fix e assume "cl_exp c = Some e"
  with assms(1) obtain l where "add_u64 chk e (leeway opts) = (Inr l :: crypto_error exit + u64)"
    and "current_time opts \<le> l"
    by (auto simp: check_exp_def not_less split: if_splits)
  then show "unat (current_time opts) \<le> unat e + unat (leeway opts)"
    using add_u64_le by (fastforce simp: word_le_nat_alt)
next
  fix n assume "cl_nbf c = Some n"
  with assms(2) obtain l where "add_u64 chk (current_time opts) (leeway opts) = (Inr l :: crypto_error exit + u64)"
    and "n \<le> l"
    by (auto simp: check_nbf_def not_less split: if_splits)
  then show "unat n \<le> unat (current_time opts) + unat (leeway opts)"
    using add_u64_le by (fastforce simp: word_le_nat_alt)
qed

lemma check_times_complete:
  assumes "times_fit opts c" and "in_window opts c"
  shows "check_exp chk opts c = Inr ()" and "check_nbf chk opts c = Inr ()"
  using assms by (auto simp: check_exp_def check_nbf_def times_fit_def in_window_def
      word_less_nat_alt add_u64_fits split: option.splits)

lemma check_parties: "check_iss opts c = Inr () \<and> check_aud opts c = Inr () \<longleftrightarrow> expected_party opts c"
  by (auto simp: check_iss_def check_aud_def expected_party_def split: option.splits)

lemma list3: "length xs = 3 \<longleftrightarrow> (\<exists>a b c. xs = [a, b, c])"
  by (auto simp: numeral_3_eq_3 length_Suc_conv)

lemma carriesI:
  assumes "split_on CHR ''.'' token = [h, p, s]"
    and "b64url_decode B h = Some hb" "header_from_slice J hb = Some header"
    and "hdr_alg header = algorithm_as_str alg" "alg \<in> set algs" "hdr_kid header = jwk_kid k"
    and "jwk_point B k = Some point" "b64url_decode B s = Some sb"
    and "ecdsa_verify E (verification_algorithm alg) point (as_bytes (h @ ''.'' @ p)) sb"
    and "b64url_decode B p = Some cb" "claims_from_slice J cb = Some c"
  shows "carries B E J algs k token c"
  unfolding carries_def
  by (intro exI conjI) (use assms in \<open>auto simp: split_on_three_iff\<close>)

lemma verify_carried:
  assumes "carries B E J (allowed_algorithms opts) k token c"
  shows "verify_jwt chk B E J token k opts =
    try_r (check_exp chk opts c) (\<lambda>_. try_r (check_nbf chk opts c) (\<lambda>_.
    try_r (check_iss opts c) (\<lambda>_. try_r (check_aud opts c) (\<lambda>_. Inr c))))"
proof -
  from assms obtain h p s hb header alg point sb cb where
      "split_on CHR ''.'' token = [h, p, s]"
      "b64url_decode B h = Some hb" "header_from_slice J hb = Some header"
      "hdr_alg header = algorithm_as_str alg" "alg \<in> set (allowed_algorithms opts)"
      "hdr_kid header = jwk_kid k" "jwk_point B k = Some point" "b64url_decode B s = Some sb"
      "ecdsa_verify E (verification_algorithm alg) point (as_bytes (h @ ''.'' @ p)) sb"
      "b64url_decode B p = Some cb" "claims_from_slice J cb = Some c"
    by (auto simp: carries_def split_on_append)
  then show ?thesis
    by (auto simp: verify_jwt_def Let_def alg.from_as jwk_point_def split: option.splits)
qed

lemma verify_Inr_iff:
  "verify_jwt chk B E J token k opts = Inr c \<longleftrightarrow>
     carries B E J (allowed_algorithms opts) k token c \<and>
     check_exp chk opts c = Inr () \<and> check_nbf chk opts c = Inr () \<and> expected_party opts c"
    (is "?v \<longleftrightarrow> ?r")
proof
  assume v: ?v
  then have "length (split_on CHR ''.'' token) = 3"
    by (simp add: verify_jwt_def Let_def split: if_splits)
  then obtain h p s where parts: "split_on CHR ''.'' token = [h, p, s]"
    unfolding list3 by blast
  with v have "carries B E J (allowed_algorithms opts) k token c"
    by (auto simp: verify_jwt_def Let_def jwk_point_def alg.from_str_iff intro!: carriesI [OF parts]
        split: if_splits)
  moreover from v parts
  have "check_exp chk opts c = Inr ()" "check_nbf chk opts c = Inr ()" "expected_party opts c"
    by (auto simp: verify_jwt_def Let_def simp flip: check_parties split: if_splits)
  ultimately show ?r by simp
next
  assume r: ?r
  then have "check_iss opts c = Inr ()" "check_aud opts c = Inr ()"
    using check_parties [of opts c] by blast+
  with r show ?v by (simp add: verify_carried [OF conjunct1 [OF r]])
qed

lemma sign_Inr_iff:
  "sign_jwt B E J rnd alg kid c kp = Inr t \<longleftrightarrow>
     (\<exists>hb cb sg. header_to_vec J \<lparr>hdr_alg = algorithm_as_str alg, hdr_typ = ''JWT'', hdr_kid = kid\<rparr> = Some hb \<and>
        claims_to_vec J c = Some cb \<and>
        ecdsa_sign E kp rnd (as_bytes (b64url_encode B hb @ ''.'' @ b64url_encode B cb)) = Some sg \<and>
        jwt_kid t = kid \<and>
        jwt_token t = b64url_encode B hb @ ''.'' @ b64url_encode B cb @ ''.'' @ b64url_encode B sg)"
  by (cases t) (auto simp: sign_jwt_def Let_def)

lemma sign_carries:
  assumes "base64_ok B" and "ecdsa_ok E" and "json_ok J"
    and kp: "key_from_pkcs8 E (signing_algorithm alg) der = Some kp"
    and k: "public_jwk_from_pkcs8 B E kid alg der = Inr k"
    and t: "sign_jwt B E J rnd alg kid c kp = Inr t"
    and "cl_custom c = []" and "alg \<in> set algs"
  shows "carries B E J algs k (jwt_token t) c"
proof -
  from t obtain hb cb sg where
      hb: "header_to_vec J \<lparr>hdr_alg = algorithm_as_str alg, hdr_typ = ''JWT'', hdr_kid = kid\<rparr> = Some hb"
    and cb: "claims_to_vec J c = Some cb"
    and sg: "ecdsa_sign E kp rnd (as_bytes (b64url_encode B hb @ ''.'' @ b64url_encode B cb)) = Some sg"
    and tok: "jwt_token t = b64url_encode B hb @ ''.'' @ b64url_encode B cb @ ''.'' @ b64url_encode B sg"
    by (auto simp: sign_Inr_iff)
  have "jwk_kid k = kid" using k by (auto simp: public_jwk_Inr_iff)
  then show ?thesis
    unfolding carries_def
    by (intro exI conjI)
      (use tok assms(8) header_json [OF assms(3) hb] claims_json [OF assms(3,7) cb]
         ecdsa_verify_sign [OF assms(2) kp sg] jwk_point_of_public [OF assms(1) k kp]
         b64url_decode_encode [OF assms(1)] b64url_encode_no_special(1) [OF assms(1)] in auto)
qed

lemma try_r_Inl_iff: "try_r r k = Inl e \<longleftrightarrow> r = Inl e \<or> (\<exists>a. r = Inr a \<and> k a = Inl e)"
  by (cases r) auto

lemma verify_panics:
  assumes "verify_jwt chk B E J token k opts = Inl Panic"
  obtains c where "carries B E J (allowed_algorithms opts) k token c"
    and "check_exp chk opts c = Inl Panic \<or> check_nbf chk opts c = Inl Panic"
proof -
  have "length (split_on CHR ''.'' token) = 3"
    using assms by (simp add: verify_jwt_def Let_def split: if_splits)
  then obtain h p s where parts: "split_on CHR ''.'' token = [h, p, s]"
    unfolding list3 by blast
  have nop: "check_iss opts c \<noteq> Inl Panic" "check_aud opts c \<noteq> Inl Panic" for c
    by (auto simp: check_iss_def check_aud_def split: option.splits)
  from assms parts nop show ?thesis
    by (auto simp: verify_jwt_def Let_def jwk_point_def alg.from_str_iff try_r_Inl_iff
        intro!: that carriesI [OF parts] split: if_splits)
qed

lemma add_u64_panics: "add_u64 chk a b = Inl Panic \<longleftrightarrow> chk \<and> 2 ^ 64 \<le> unat a + unat b"
  by (simp add: add_u64_def)

lemma release_verify_no_panic: "verify_jwt False B E J token k opts \<noteq> Inl Panic"
proof
  assume "verify_jwt False B E J token k opts = Inl Panic"
  then obtain c where "check_exp False opts c = Inl Panic \<or> check_nbf False opts c = Inl Panic"
    by (rule verify_panics)
  then show False
    by (auto simp: check_exp_def check_nbf_def try_r_Inl_iff add_u64_panics split: option.splits if_splits)
qed

end
