(* ===== verification/Kek.thy ===== *)
theory Kek
  imports Crypto_Base
begin

text \<open>
  The key encryption key, \<open>services/identity/src/crypto/kek.rs\<close>: the hex decoder, the validated
  \<open>Kek\<close> and its loading from the process environment. The environment variables and the file
  system are a record of functions; \<open>std::env::var\<close> is \<open>None\<close> where the variable is unset or not
  Unicode.
\<close>

section \<open>Kek\<close>

definition KEK_LEN :: nat where
  "KEK_LEN = 32"

definition KEK_ENV_HEX :: string where
  "KEK_ENV_HEX = ''IDENTITY_KEK_HEX''"

definition KEK_ENV_BASE64 :: string where
  "KEK_ENV_BASE64 = ''IDENTITY_KEK_BASE64''"

definition KEK_FILE_ENV :: string where
  "KEK_FILE_ENV = ''IDENTITY_KEK_FILE''"

record kek =
  kek_bytes :: bytes

definition kek_from_bytes :: "bytes \<Rightarrow> crypto_error + kek" where
  "kek_from_bytes bs =
     (if length bs \<noteq> KEK_LEN then Inl InvalidKek else Inr \<lparr>kek_bytes = bs\<rparr>)"

section \<open>Hex decoding\<close>

definition hex_digit :: "byte \<Rightarrow> crypto_error + byte" where
  "hex_digit b =
     (if 0x30 \<le> b \<and> b \<le> 0x39 then Inr (b - 0x30)
      else if 0x61 \<le> b \<and> b \<le> 0x66 then Inr (b - 0x61 + 10)
      else if 0x41 \<le> b \<and> b \<le> 0x46 then Inr (b - 0x41 + 10)
      else Inl InvalidKek)"

text \<open>\<open>slice::chunks(2)\<close>.\<close>

fun chunks2 :: "'a list \<Rightarrow> 'a list list" where
  "chunks2 [] = []"
| "chunks2 [x] = [[x]]"
| "chunks2 (x # y # xs) = [x, y] # chunks2 xs"

definition decode_pair :: "bytes \<Rightarrow> crypto_error + byte" where
  "decode_pair pair =
     try_r (hex_digit (pair ! 0)) (\<lambda>hi.
     try_r (hex_digit (pair ! 1)) (\<lambda>lo.
     Inr (push_bit 4 hi OR lo)))"

definition decode_hex :: "string \<Rightarrow> crypto_error + bytes" where
  "decode_hex hex0 =
     (let hex = trim hex0
      in if odd (length hex) then Inl InvalidKek
         else collect (map decode_pair (chunks2 (as_bytes hex))))"

section \<open>Loading\<close>

record process_env =
  env_var :: "string \<Rightarrow> string option"
  fs_read :: "string \<Rightarrow> string + bytes"

definition load_kek_from_file :: "process_env \<Rightarrow> string \<Rightarrow> crypto_error + kek" where
  "load_kek_from_file P path =
     try_r (map_err (\<lambda>e. KekLoad (''read failed: '' @ e)) (fs_read P path)) kek_from_bytes"

definition load_kek :: "base64_lib \<Rightarrow> process_env \<Rightarrow> crypto_error + kek" where
  "load_kek B P =
     (case env_var P KEK_ENV_HEX of
        Some hex_str \<Rightarrow> try_r (decode_hex hex_str) kek_from_bytes
      | None \<Rightarrow>
     (case env_var P KEK_ENV_BASE64 of
        Some b64_str \<Rightarrow> try_r (ok_or InvalidKek (b64_decode B b64_str)) kek_from_bytes
      | None \<Rightarrow>
     (case env_var P KEK_FILE_ENV of
        Some path \<Rightarrow> load_kek_from_file P path
      | None \<Rightarrow> Inl (KekLoad
          ''no KEK configured: set IDENTITY_KEK_HEX, IDENTITY_KEK_BASE64, or IDENTITY_KEK_FILE''))))"

section \<open>Hex digits and their spelling\<close>

text \<open>The two-digit lower-case spelling of bytes, the reference the decoder is measured against.\<close>

definition hex_lower :: "byte \<Rightarrow> byte" where
  "hex_lower v = (if v < 10 then 0x30 + v else 0x57 + v)"

definition ascii_lower :: "byte \<Rightarrow> byte" where
  "ascii_lower b = (if 0x41 \<le> b \<and> b \<le> 0x5A then b + 0x20 else b)"

definition hex_bytes :: "bytes \<Rightarrow> bytes" where
  "hex_bytes bs = concat (map (\<lambda>b. [hex_lower (drop_bit 4 b), hex_lower (b AND 15)]) bs)"

definition hex_encode :: "bytes \<Rightarrow> string" where
  "hex_encode bs = map (\<lambda>b. char_of (unat b)) (hex_bytes bs)"

lemma all_bytesI:
  assumes "list_all (\<lambda>n. P (word_of_nat n)) [0..<256]"
  shows "P (b::byte)"
proof -
  have "unat b \<in> set [0..<256]"
    using unsigned_less [of b, where ?'a = nat] by simp
  with assms have "P (word_of_nat (unat b))"
    by (metis list_all_iff)
  then show ?thesis by simp
qed

lemma all_nibblesI:
  assumes "list_all (\<lambda>n. P (word_of_nat n)) [0..<16]" and "(v::byte) < 16"
  shows "P v"
proof -
  have "unat v \<in> set [0..<16]"
    using assms(2) by (simp add: word_less_nat_alt)
  with assms(1) have "P (word_of_nat (unat v))"
    by (metis list_all_iff)
  then show ?thesis by simp
qed

definition is_lower_digit :: "byte \<Rightarrow> bool" where
  "is_lower_digit b \<longleftrightarrow> 0x30 \<le> b \<and> b \<le> 0x39 \<or> 0x61 \<le> b \<and> b \<le> 0x66"

lemma hex_digit_table:
  "case hex_digit b of
     Inl e \<Rightarrow> e = InvalidKek \<and> \<not> is_lower_digit (ascii_lower b)
   | Inr v \<Rightarrow> v < 16 \<and> ascii_lower b = hex_lower v"
  by (rule all_bytesI) code_simp

lemma hex_lower_table:
  assumes "v < 16"
  shows "is_lower_digit (hex_lower v)" and "hex_digit (hex_lower v) = Inr v"
    and "ascii_lower (hex_lower v) = hex_lower v"
  by (rule all_nibblesI [OF _ assms], code_simp)+

lemma hex_digit_iff: "hex_digit b = Inr v \<longleftrightarrow> v < 16 \<and> ascii_lower b = hex_lower v"
proof
  assume "hex_digit b = Inr v"
  then show "v < 16 \<and> ascii_lower b = hex_lower v" using hex_digit_table [of b] by simp
next
  assume v: "v < 16 \<and> ascii_lower b = hex_lower v"
  then obtain w where "hex_digit b = Inr w" and w: "w < 16" "ascii_lower b = hex_lower w"
    using hex_digit_table [of b] hex_lower_table(1) [of v] by (auto split: sum.splits)
  moreover from v w have "w = v"
    by (metis hex_lower_table(2) sum.inject(2))
  ultimately show "hex_digit b = Inr v" by simp
qed

lemma hex_digit_Inl: "hex_digit b = Inl e \<Longrightarrow> e = InvalidKek"
  using hex_digit_table [of b] by simp


section \<open>decode_hex accepts exactly the spellings of a byte string\<close>

lemma fifteen_mask: "(15::byte) = mask 4"
  by (simp add: mask_eq_exp_minus_1)

lemma nibbles_byte: "push_bit 4 (drop_bit 4 b) OR (b AND 15) = (b::byte)"
  by (rule bit_word_eqI) (auto simp: fifteen_mask bit_simps)

lemma nibble_eq_take_bit: "(v::byte) < 16 \<longleftrightarrow> take_bit 4 v = v"
proof
  assume "v < 16"
  then have "unat v < 2 ^ 4" by (simp add: word_less_nat_alt)
  then show "take_bit 4 v = v"
    by (simp add: word_unat_eq_iff unsigned_take_bit_eq take_bit_nat_eq_self)
next
  assume "take_bit 4 v = v"
  then have "unat v < 2 ^ 4"
    by (metis take_bit_nat_less_exp unsigned_take_bit_eq)
  then show "v < 16" by (simp add: word_less_nat_alt)
qed

lemma nibble_bit: "(v::byte) < 16 \<Longrightarrow> 4 \<le> n \<Longrightarrow> \<not> bit v n"
  by (metis bit_take_bit_iff nibble_eq_take_bit not_le)

lemma byte_nibbles:
  assumes "hi < 16" and "lo < 16"
  shows "drop_bit 4 (push_bit 4 hi OR lo) = (hi::byte)" and "(push_bit 4 hi OR lo) AND 15 = lo"
proof -
  have "n < 4" if "bit hi n" for n
    using nibble_bit [OF assms(1), of n] that by (cases "n < 4") auto
  then show "drop_bit 4 (push_bit 4 hi OR lo) = hi"
    using nibble_bit [OF assms(2)] by (intro bit_word_eqI) (auto simp: bit_simps)
  have "n < 4" if "bit lo n" for n
    using nibble_bit [OF assms(2), of n] that by (cases "n < 4") auto
  then show "(push_bit 4 hi OR lo) AND 15 = lo"
    unfolding fifteen_mask by (intro bit_word_eqI) (auto simp: bit_simps)
qed

lemma nibble_bounds: "drop_bit 4 (b::byte) < 16" "b AND 15 < (16::byte)"
proof -
  show "drop_bit 4 b < 16"
    using unsigned_less [of b, where ?'a = nat]
    by (simp add: word_less_nat_alt drop_bit_eq_div unat_div)
  show "b AND 15 < (16::byte)"
    by (simp add: nibble_eq_take_bit fifteen_mask flip: take_bit_eq_mask)
qed

lemma hex_lower_inj: "v < 16 \<Longrightarrow> w < 16 \<Longrightarrow> hex_lower v = hex_lower w \<longleftrightarrow> v = w"
  by (metis hex_lower_table(2) sum.inject(2))

lemma decode_pair_iff:
  "decode_pair [a, b] = Inr v \<longleftrightarrow>
     [ascii_lower a, ascii_lower b] = [hex_lower (drop_bit 4 v), hex_lower (v AND 15)]"
proof
  assume "decode_pair [a, b] = Inr v"
  then obtain hi lo where "hi < 16" "lo < 16" and v: "v = push_bit 4 hi OR lo"
    and "ascii_lower a = hex_lower hi" "ascii_lower b = hex_lower lo"
    by (auto simp: decode_pair_def hex_digit_iff)
  then show "[ascii_lower a, ascii_lower b] = [hex_lower (drop_bit 4 v), hex_lower (v AND 15)]"
    unfolding v by (simp only: byte_nibbles)
next
  assume "[ascii_lower a, ascii_lower b] = [hex_lower (drop_bit 4 v), hex_lower (v AND 15)]"
  then have "hex_digit a = Inr (drop_bit 4 v)" and "hex_digit b = Inr (v AND 15)"
    by (simp_all add: hex_digit_iff nibble_bounds)
  then show "decode_pair [a, b] = Inr v"
    by (simp add: decode_pair_def nibbles_byte)
qed

lemma decode_pairs_iff:
  assumes "even (length bs)"
  shows "collect (map decode_pair (chunks2 bs)) = Inr vs \<longleftrightarrow> map ascii_lower bs = hex_bytes vs"
  using assms
proof (induction bs arbitrary: vs rule: chunks2.induct)
  case 1
  show ?case by (cases vs) (auto simp: hex_bytes_def)
next
  case (3 a b bs)
  then have IH: "collect (map decode_pair (chunks2 bs)) = Inr ws \<longleftrightarrow> map ascii_lower bs = hex_bytes ws" for ws
    by simp
  show ?case
    by (cases vs) (auto simp: IH decode_pair_iff hex_bytes_def)
qed simp

lemma length_hex_bytes [simp]: "length (hex_bytes bs) = 2 * length bs"
  by (induction bs) (auto simp: hex_bytes_def)

theorem decode_hex_iff:
  "decode_hex s = Inr bs \<longleftrightarrow> map ascii_lower (as_bytes (trim s)) = hex_bytes bs"
proof (cases "even (length (trim s))")
  case True
  then show ?thesis by (simp add: decode_hex_def decode_pairs_iff)
next
  case False
  then have "length (map ascii_lower (as_bytes (trim s))) \<noteq> length (hex_bytes bs)"
    by auto
  then have "map ascii_lower (as_bytes (trim s)) \<noteq> hex_bytes bs" by metis
  with False show ?thesis by (simp add: decode_hex_def)
qed

lemma of_char_char_of_byte: "of_char (char_of (unat b)) = (b::byte)"
proof -
  have "(of_char (char_of (unat b)) :: nat) = unat b"
    using unsigned_less [of b, where ?'a = nat] by simp
  then show ?thesis by (metis of_nat_of_char of_nat_unat ucast_id)
qed

lemma as_bytes_hex_encode [simp]: "as_bytes (hex_encode bs) = hex_bytes bs"
  by (simp add: as_bytes_def hex_encode_def of_char_char_of_byte cong: map_cong)

lemma hex_bytes_digits: "b \<in> set (hex_bytes bs) \<Longrightarrow> is_lower_digit b \<and> ascii_lower b = b"
  using hex_lower_table nibble_bounds by (fastforce simp: hex_bytes_def)

lemma hex_encode_chars: "c \<in> set (hex_encode bs) \<Longrightarrow> is_lower_digit (of_char c)"
  using hex_bytes_digits by (auto simp: hex_encode_def of_char_char_of_byte)

lemma trim_hex_encode [simp]: "trim (hex_encode bs) = hex_encode bs"
proof (rule trim_id)
  have "c \<notin> hd ` set white_space" "c \<notin> last ` set white_space" if "c \<in> set (hex_encode bs)" for c
  proof -
    from that have "is_lower_digit (of_char c)" by (rule hex_encode_chars)
    then show "c \<notin> hd ` set white_space" "c \<notin> last ` set white_space"
      by (auto simp: white_space_ends(1) is_lower_digit_def white_space_def)
  qed
  then show "hex_encode bs = [] \<or> hd (hex_encode bs) \<notin> hd ` set white_space \<and>
      last (hex_encode bs) \<notin> last ` set white_space"
    by (cases "hex_encode bs = []") simp_all
qed

theorem decode_hex_encode: "decode_hex (hex_encode bs) = Inr bs"
proof -
  have "map ascii_lower (hex_bytes bs) = hex_bytes bs"
    by (rule map_idI) (simp add: hex_bytes_digits)
  then show ?thesis by (simp add: decode_hex_iff)
qed

section \<open>Loading\<close>

lemma kek_from_bytes_iff: "kek_from_bytes bs = Inr k \<longleftrightarrow> length bs = 32 \<and> kek_bytes k = bs"
  by (cases k) (auto simp: kek_from_bytes_def KEK_LEN_def)

lemma load_kek_from_file_length: "load_kek_from_file P path = Inr k \<Longrightarrow> length (kek_bytes k) = 32"
  by (auto simp: load_kek_from_file_def kek_from_bytes_iff)

theorem load_kek_length: "load_kek B P = Inr k \<Longrightarrow> length (kek_bytes k) = 32"
  by (auto simp: load_kek_def kek_from_bytes_iff load_kek_from_file_length split: option.splits)

end
