(* ===== verification/Encryption.thy ===== *)
theory Encryption
  imports Crypto_Base
begin

text \<open>
  Private keys at rest, \<open>services/identity/src/crypto/encryption.rs\<close>: the \<open>EncryptedKey\<close>
  envelope \<open>nonce || ciphertext || tag\<close> around AES-256-GCM. The cipher is \<open>aws_lc_rs\<close>'s: a
  record of functions with its contract \<open>aead_ok\<close>.
\<close>

section \<open>The cipher\<close>

definition NONCE_LEN :: nat where
  "NONCE_LEN = 12"

record aead_lib =
  unbound_key_ok :: "bytes \<Rightarrow> bool"
  gcm_seal :: "bytes \<Rightarrow> bytes \<Rightarrow> bytes \<Rightarrow> bytes \<Rightarrow> bytes option"
  gcm_open :: "bytes \<Rightarrow> bytes \<Rightarrow> bytes \<Rightarrow> bytes \<Rightarrow> bytes option"

text \<open>
  The arguments are key, nonce, associated data and message. Sealing appends a 16-byte tag;
  opening recomputes the tag, so it succeeds exactly on what sealing produces.
\<close>

definition aead_ok :: "aead_lib \<Rightarrow> bool" where
  "aead_ok A \<longleftrightarrow>
     (\<forall>k. length k = 32 \<longrightarrow> unbound_key_ok A k) \<and>
     (\<forall>k n a p c. length k = 32 \<longrightarrow> length n = NONCE_LEN \<longrightarrow> gcm_seal A k n a p = Some c \<longrightarrow>
        length c = length p + 16) \<and>
     (\<forall>k n a p c. length k = 32 \<longrightarrow> length n = NONCE_LEN \<longrightarrow>
        (gcm_open A k n a c = Some p \<longleftrightarrow> gcm_seal A k n a p = Some c))"

lemma aead_okD:
  assumes "aead_ok A" and "length k = 32"
  shows aead_key: "unbound_key_ok A k"
    and aead_length: "length n = NONCE_LEN \<Longrightarrow> gcm_seal A k n a p = Some c \<Longrightarrow> length c = length p + 16"
    and aead_open_iff: "length n = NONCE_LEN \<Longrightarrow> gcm_open A k n a c = Some p \<longleftrightarrow> gcm_seal A k n a p = Some c"
  using assms unfolding aead_ok_def by blast+

section \<open>EncryptedKey\<close>

definition AES_KEK_LEN :: nat where
  "AES_KEK_LEN = 32"

definition TAG_LEN :: nat where
  "TAG_LEN = 16"

record encrypted_key =
  enc_data :: bytes

definition encrypted_key_from_bytes :: "bytes \<Rightarrow> crypto_error + encrypted_key" where
  "encrypted_key_from_bytes bs =
     (if length bs < NONCE_LEN + 1 + TAG_LEN then Inl InvalidKeyMaterial
      else Inr \<lparr>enc_data = bs\<rparr>)"

definition encrypted_key_as_bytes :: "encrypted_key \<Rightarrow> bytes" where
  "encrypted_key_as_bytes e = enc_data e"

definition nonce_bytes :: "encrypted_key \<Rightarrow> bytes option" where
  "nonce_bytes e = slice_to (enc_data e) NONCE_LEN"

definition ciphertext_and_tag :: "encrypted_key \<Rightarrow> bytes option" where
  "ciphertext_and_tag e = slice_from (enc_data e) NONCE_LEN"

text \<open>\<open>rnd\<close> is what \<open>rand::fill\<close> yields for the 12-byte nonce, \<open>None\<close> where it fails.\<close>

definition encrypt_private_key ::
    "aead_lib \<Rightarrow> bytes option \<Rightarrow> bytes \<Rightarrow> bytes \<Rightarrow> bytes \<Rightarrow> crypto_error + encrypted_key" where
  "encrypt_private_key A rnd kek plaintext aad =
     (if length kek \<noteq> AES_KEK_LEN then Inl InvalidKek
      else if \<not> unbound_key_ok A kek then Inl InvalidKek
      else try_r (ok_or Encryption rnd) (\<lambda>nonce.
           try_r (ok_or Encryption (gcm_seal A kek nonce aad plaintext)) (\<lambda>in_out.
           Inr \<lparr>enc_data = nonce @ in_out\<rparr>)))"

definition decrypt_private_key ::
    "aead_lib \<Rightarrow> bytes \<Rightarrow> encrypted_key \<Rightarrow> bytes \<Rightarrow> crypto_error exit + bytes" where
  "decrypt_private_key A kek encrypted aad =
     (if length kek \<noteq> AES_KEK_LEN then Inl (Err InvalidKek)
      else if \<not> unbound_key_ok A kek then Inl (Err InvalidKek)
      else try_r (or_panic (nonce_bytes encrypted)) (\<lambda>nb.
           try_r (if length nb = NONCE_LEN then Inr nb else Inl (Err Decryption)) (\<lambda>nonce.
           try_r (or_panic (ciphertext_and_tag encrypted)) (\<lambda>in_out.
           no_panic (ok_or Decryption (gcm_open A kek nonce aad in_out))))))"

section \<open>Laws\<close>

lemma encrypted_key_from_bytes_iff:
  "encrypted_key_from_bytes bs = Inr e \<longleftrightarrow> 29 \<le> length bs \<and> enc_data e = bs"
  by (cases e) (auto simp: encrypted_key_from_bytes_def NONCE_LEN_def TAG_LEN_def)

lemma encrypt_Inr_iff:
  assumes "aead_ok A"
  shows "encrypt_private_key A rnd kek p aad = Inr e \<longleftrightarrow>
    length kek = 32 \<and> (\<exists>n c. rnd = Some n \<and> gcm_seal A kek n aad p = Some c \<and> enc_data e = n @ c)"
  by (cases e) (auto simp: encrypt_private_key_def AES_KEK_LEN_def aead_key [OF assms])

lemma decrypt_Inr_iff:
  assumes "aead_ok A"
  shows "decrypt_private_key A kek e aad = Inr p \<longleftrightarrow>
    length kek = 32 \<and> (\<exists>n c. length n = NONCE_LEN \<and> enc_data e = n @ c \<and> gcm_seal A kek n aad p = Some c)"
    (is "?l \<longleftrightarrow> ?r")
proof
  assume ?l
  then have len: "length kek = 32" "NONCE_LEN \<le> length (enc_data e)"
    and op: "gcm_open A kek (take NONCE_LEN (enc_data e)) aad (drop NONCE_LEN (enc_data e)) = Some p"
    by (auto simp: decrypt_private_key_def AES_KEK_LEN_def nonce_bytes_def ciphertext_and_tag_def
        slice_to_def slice_from_def split: if_splits)
  then show ?r
    using aead_open_iff [OF assms len(1)] by (metis append_take_drop_id length_take min.absorb2)
next
  assume ?r
  then show ?l
    using aead_key [OF assms] aead_open_iff [OF assms]
    by (auto simp: decrypt_private_key_def AES_KEK_LEN_def nonce_bytes_def ciphertext_and_tag_def
        slice_to_def slice_from_def)
qed

lemma decrypt_no_panic:
  "NONCE_LEN \<le> length (enc_data e) \<Longrightarrow> decrypt_private_key A kek e aad \<noteq> Inl Panic"
  by (auto simp: decrypt_private_key_def nonce_bytes_def ciphertext_and_tag_def slice_to_def
      slice_from_def NONCE_LEN_def split: if_splits option.splits)

section \<open>The key store's view\<close>

text \<open>
  What the signing-key store relies on: a key wrapped under an identity, written out and read
  back, unwraps to the same key, and unwrapping only ever yields what was wrapped.
\<close>

locale key_wrapping =
  fixes lib_ok :: "'l \<Rightarrow> bool"
    and wrap :: "'l \<Rightarrow> bytes option \<Rightarrow> bytes \<Rightarrow> bytes \<Rightarrow> bytes \<Rightarrow> crypto_error + 'w"
    and unwrap :: "'l \<Rightarrow> bytes \<Rightarrow> 'w \<Rightarrow> bytes \<Rightarrow> crypto_error exit + bytes"
    and to_store :: "'w \<Rightarrow> bytes"
    and of_store :: "bytes \<Rightarrow> crypto_error + 'w"
  assumes store_wrap: "lib_ok L \<Longrightarrow> (\<forall>n. rnd = Some n \<longrightarrow> length n = NONCE_LEN) \<Longrightarrow> p \<noteq> [] \<Longrightarrow>
      wrap L rnd kek p aad = Inr e \<Longrightarrow> of_store (to_store e) = Inr e"
    and unwrap_wrap: "lib_ok L \<Longrightarrow> (\<forall>n. rnd = Some n \<longrightarrow> length n = NONCE_LEN) \<Longrightarrow>
      wrap L rnd kek p aad = Inr e \<Longrightarrow> unwrap L kek e aad = Inr p"
    and of_store_no_panic: "of_store bs = Inr e \<Longrightarrow> unwrap L kek e aad \<noteq> Inl Panic"
begin

lemma reload:
  assumes "lib_ok L" and "\<forall>n. rnd = Some n \<longrightarrow> length n = NONCE_LEN" and "p \<noteq> []"
    and "wrap L rnd kek p aad = Inr e"
  shows "try_r (no_panic (of_store (to_store e))) (\<lambda>w. unwrap L kek w aad) = Inr p"
  using store_wrap [OF assms] unwrap_wrap [OF assms(1,2,4)] by simp

lemma reload_no_panic:
  "try_r (no_panic (of_store bs)) (\<lambda>w. unwrap L kek w aad) \<noteq> Inl Panic"
  using of_store_no_panic by (cases "of_store bs") auto

end

interpretation aes_gcm: key_wrapping aead_ok encrypt_private_key decrypt_private_key
  encrypted_key_as_bytes encrypted_key_from_bytes
proof unfold_locales
  fix L rnd kek p aad e
  assume A: "aead_ok L" and n: "\<forall>n. rnd = Some n \<longrightarrow> length n = NONCE_LEN"
    and w: "encrypt_private_key L rnd kek p aad = Inr e"
  then obtain m c where m: "length m = NONCE_LEN" "length kek = 32" "enc_data e = m @ c"
    and s: "gcm_seal L kek m aad p = Some c"
    by (auto simp: encrypt_Inr_iff)
  then show "decrypt_private_key L kek e aad = Inr p"
    using A by (auto simp: decrypt_Inr_iff)
  assume "p \<noteq> []"
  then show "encrypted_key_from_bytes (encrypted_key_as_bytes e) = Inr e"
    using m aead_length [OF A m(2,1) s]
    by (cases p) (auto simp: encrypted_key_from_bytes_iff encrypted_key_as_bytes_def NONCE_LEN_def)
next
  fix bs e L kek aad
  assume "encrypted_key_from_bytes bs = Inr e"
  then show "decrypt_private_key L kek e aad \<noteq> Inl Panic"
    by (intro decrypt_no_panic) (auto simp: encrypted_key_from_bytes_iff NONCE_LEN_def)
qed

end
