(* ===== verification/Opaque_Token.thy ===== *)
theory Opaque_Token
  imports Crypto_Base
begin

text \<open>
  Opaque random tokens: 32 random bytes whose base64url form goes to the user while only their
  SHA-256 digest is stored. The identity service uses them for email verification and refresh
  tokens (\<open>services/identity/src/crypto/token.rs\<close>, decoded again in \<open>verify_email.rs\<close>), the
  gateway for session cookies (\<open>services/gateway/src/session.rs\<close>). The locale is the contract
  both sides rely on: hashing the presented token finds the stored digest.

  \<open>sha256\<close> is the library's digest function, \<open>rnd\<close> what \<open>rand::fill\<close> yields (\<open>None\<close> on failure).
\<close>

section \<open>The contract\<close>

locale opaque_token =
  fixes lib_ok :: "'l \<Rightarrow> bool"
    and generate :: "'l \<Rightarrow> (bytes \<Rightarrow> bytes) \<Rightarrow> bytes option \<Rightarrow> 'e + (string \<times> bytes)"
    and hash_of :: "'l \<Rightarrow> (bytes \<Rightarrow> bytes) \<Rightarrow> string \<Rightarrow> 'f + bytes"
  assumes generate_digest: "generate L sha256 (Some raw) = Inr (c, d) \<Longrightarrow> d = sha256 raw"
    and generate_fails: "\<exists>e. generate L sha256 None = Inl e"
    and hash_generate: "lib_ok L \<Longrightarrow> generate L sha256 rnd = Inr (c, d) \<Longrightarrow> hash_of L sha256 c = Inr d"
begin

lemma generated_from_random: "generate L sha256 rnd = Inr (c, d) \<Longrightarrow> \<exists>raw. rnd = Some raw \<and> d = sha256 raw"
  using generate_fails [of L sha256] generate_digest [of L sha256] by (cases rnd) auto

lemma distinct_digests_distinct_tokens:
  assumes "lib_ok L" and "generate L sha256 r1 = Inr (c1, d1)" and "generate L sha256 r2 = Inr (c2, d2)"
    and "d1 \<noteq> d2"
  shows "c1 \<noteq> c2"
proof
  assume "c1 = c2"
  then have "(Inr d1 :: 'f + bytes) = Inr d2"
    using hash_generate [OF assms(1,2)] hash_generate [OF assms(1,3)] by simp
  with assms(4) show False by simp
qed

end

section \<open>Identity service tokens\<close>

definition generate_verification_token ::
    "base64_lib \<Rightarrow> (bytes \<Rightarrow> bytes) \<Rightarrow> bytes option \<Rightarrow> crypto_error + (string \<times> bytes)" where
  "generate_verification_token B sha256 rnd =
     try_r (ok_or RngFailure rnd) (\<lambda>raw_token.
     let token_string = b64url_encode B raw_token;
         token_hash_bytes = sha256 raw_token
     in Inr (token_string, token_hash_bytes))"

text \<open>The decoding and hashing at the head of \<open>verify_email::execute\<close>; \<open>()\<close> stands for its one
  error.\<close>

definition hash_verification_token ::
    "base64_lib \<Rightarrow> (bytes \<Rightarrow> bytes) \<Rightarrow> string \<Rightarrow> unit + bytes" where
  "hash_verification_token B sha256 raw_token =
     try_r (ok_or () (b64url_decode B raw_token)) (\<lambda>token_bytes. Inr (sha256 token_bytes))"

interpretation verification_token: opaque_token base64_ok generate_verification_token
  hash_verification_token
  by unfold_locales
    (auto simp: generate_verification_token_def hash_verification_token_def b64url_decode_encode)

section \<open>Gateway session tokens\<close>

datatype session_error =
    NewSession
  | Execution
  | Prepare
  | UseKeyspace
  | IntoRowsResult
  | MaybeFirstRow
  | JwtDecode string
  | TokenGeneration
  | InvalidSessionToken

definition generate_session_token ::
    "base64_lib \<Rightarrow> (bytes \<Rightarrow> bytes) \<Rightarrow> bytes option \<Rightarrow> session_error + (string \<times> bytes)" where
  "generate_session_token B sha256 rnd =
     try_r (ok_or TokenGeneration rnd) (\<lambda>raw.
     let cleartext = b64url_encode B raw;
         hash = sha256 raw
     in Inr (cleartext, hash))"

definition hash_session_token ::
    "base64_lib \<Rightarrow> (bytes \<Rightarrow> bytes) \<Rightarrow> string \<Rightarrow> session_error + bytes" where
  "hash_session_token B sha256 token =
     try_r (ok_or InvalidSessionToken (b64url_decode B token)) (\<lambda>raw. Inr (sha256 raw))"

interpretation session_token: opaque_token base64_ok generate_session_token hash_session_token
  by unfold_locales
    (auto simp: generate_session_token_def hash_session_token_def b64url_decode_encode)

end
