(* ===== verification/Password.thy ===== *)
theory Password
  imports Prelude
begin

text \<open>
  Password hashing, \<open>services/identity/src/crypto/password.rs\<close> and \<open>password_fips.rs\<close>. The cargo
  features \<open>argon2\<close> and \<open>fips\<close> are mutually exclusive: \<open>password_feature\<close>. Argon2, PBKDF2 and the
  PHC string format (crates \<open>argon2\<close>, \<open>aws_lc_rs\<close>, \<open>password_hash\<close>) are a record of functions
  with the contract \<open>password_lib_ok\<close>.
\<close>

section \<open>Types and libraries\<close>

datatype password_error = HashingFailed | VerificationFailed | InvalidFormat

datatype password_feature = Argon2_Feature | Fips_Feature

type_synonym u32 = "32 word"

text \<open>A parsed PHC string (\<open>password_hash::PasswordHash\<close>).\<close>

record phc =
  phc_algorithm :: string
  phc_version :: "u32 option"
  phc_params :: "(string \<times> string) list"
  phc_salt :: "string option"
  phc_hash :: "bytes option"

text \<open>The variants of \<open>password_hash::Error\<close> that the code returns.\<close>

datatype phc_error = OutputSize | ParamValueInvalid | SaltInvalid | PasswordMismatch

record argon2_config =
  a2_algorithm :: string
  a2_version :: u32
  a2_m_cost :: u32
  a2_t_cost :: u32
  a2_p_cost :: u32

record password_lib =
  phc_parse :: "string \<Rightarrow> phc option"
  phc_to_string :: "phc \<Rightarrow> string"
  decimal_string :: "u32 \<Rightarrow> string"
  parse_decimal :: "string \<Rightarrow> u32 option"
  output_new :: "bytes \<Rightarrow> bytes option"
  argon2_params_ok :: "u32 \<Rightarrow> u32 \<Rightarrow> u32 \<Rightarrow> bool"
  argon2_hash :: "argon2_config \<Rightarrow> bytes \<Rightarrow> string \<Rightarrow> phc option"
  argon2_verify :: "bytes \<Rightarrow> phc \<Rightarrow> bool"
  pbkdf2_derive :: "u32 \<Rightarrow> bytes \<Rightarrow> bytes \<Rightarrow> nat \<Rightarrow> bytes"
  pbkdf2_verify :: "u32 \<Rightarrow> bytes \<Rightarrow> bytes \<Rightarrow> bytes \<Rightarrow> bool"

section \<open>PBKDF2 for FIPS builds\<close>

definition ITERATIONS :: u32 where
  "ITERATIONS = 600000"

definition ALG_ID :: string where
  "ALG_ID = ''pbkdf2-sha256''"

text \<open>The hash a FIPS build produces from a salt and a derived key.\<close>

definition pbkdf2_phc :: "password_lib \<Rightarrow> string \<Rightarrow> bytes \<Rightarrow> phc" where
  "pbkdf2_phc L salt output = \<lparr>phc_algorithm = ALG_ID, phc_version = None,
     phc_params = [(''i'', decimal_string L ITERATIONS)],
     phc_salt = Some salt, phc_hash = Some output\<rparr>"

text \<open>
  What the packages promise: a hash that was produced is printed so that it parses back, a
  password verifies against its own Argon2 hash, the iteration count is printed so that it parses
  back, and \<open>pbkdf2::verify\<close> compares with the derived key.
\<close>

definition password_lib_ok :: "password_lib \<Rightarrow> bool" where
  "password_lib_ok L \<longleftrightarrow>
     (\<forall>cfg pw salt h. argon2_hash L cfg pw salt = Some h \<longrightarrow>
        phc_parse L (phc_to_string L h) = Some h \<and> argon2_verify L pw h) \<and>
     (\<forall>salt output. phc_parse L (phc_to_string L (pbkdf2_phc L salt output)) = Some (pbkdf2_phc L salt output)) \<and>
     parse_decimal L (decimal_string L ITERATIONS) = Some ITERATIONS \<and>
     (\<forall>x y. output_new L x = Some y \<longrightarrow> y = x) \<and>
     (\<forall>i salt pw expected. pbkdf2_verify L i salt pw expected \<longleftrightarrow>
        pbkdf2_derive L i salt pw (length expected) = expected) \<and>
     (\<forall>i salt pw n. length (pbkdf2_derive L i salt pw n) = n)"

lemma password_lib_okD:
  assumes "password_lib_ok L"
  shows argon2_round: "argon2_hash L cfg pw salt = Some h \<Longrightarrow> phc_parse L (phc_to_string L h) = Some h"
    and pbkdf2_round: "phc_parse L (phc_to_string L (pbkdf2_phc L salt output)) = Some (pbkdf2_phc L salt output)"
    and decimal_round: "parse_decimal L (decimal_string L ITERATIONS) = Some ITERATIONS"
    and output_id: "output_new L x = Some y \<Longrightarrow> y = x"
    and argon2_accepts: "argon2_hash L cfg pw salt = Some h \<Longrightarrow> argon2_verify L pw h"
    and pbkdf2_verify_iff: "pbkdf2_verify L i sb pw expected \<longleftrightarrow>
      pbkdf2_derive L i sb pw (length expected) = expected"
    and pbkdf2_length: "length (pbkdf2_derive L i sb pw len) = len"
  using assms unfolding password_lib_ok_def by blast+

definition pbkdf2_hash_password :: "password_lib \<Rightarrow> bytes \<Rightarrow> string \<Rightarrow> phc_error + phc" where
  "pbkdf2_hash_password L password salt =
     (let output_bytes = pbkdf2_derive L ITERATIONS (as_bytes salt) password 32
      in try_r (ok_or OutputSize (output_new L output_bytes)) (\<lambda>output.
         Inr (pbkdf2_phc L salt output)))"

definition pbkdf2_verify_password :: "password_lib \<Rightarrow> bytes \<Rightarrow> phc \<Rightarrow> phc_error + unit" where
  "pbkdf2_verify_password L password hash =
     try_r (ok_or ParamValueInvalid
       (case List.find (\<lambda>(key, _). key = ''i'') (phc_params hash) of
          None \<Rightarrow> None
        | Some (_, val) \<Rightarrow> parse_decimal L val)) (\<lambda>iterations.
     try_r (ok_or SaltInvalid (phc_salt hash)) (\<lambda>salt.
     try_r (ok_or OutputSize (phc_hash hash)) (\<lambda>expected_output.
     if iterations = 0 then Inl ParamValueInvalid
     else let computed = pbkdf2_derive L iterations (as_bytes salt) password (length expected_output)
          in if pbkdf2_verify L iterations (as_bytes salt) password expected_output then Inr ()
             else Inl PasswordMismatch)))"

section \<open>The feature switch\<close>

definition argon2id_config :: "argon2_config" where
  "argon2id_config = \<lparr>a2_algorithm = ''argon2id'', a2_version = 0x13,
     a2_m_cost = 19456, a2_t_cost = 2, a2_p_cost = 1\<rparr>"

text \<open>\<open>salt\<close> is what \<open>SaltString::generate\<close> yields.\<close>

definition hash_password ::
    "password_lib \<Rightarrow> password_feature \<Rightarrow> string \<Rightarrow> string \<Rightarrow> password_error + string" where
  "hash_password L feature salt password =
     (case feature of
        Argon2_Feature \<Rightarrow>
          if \<not> argon2_params_ok L 19456 2 1 then Inl HashingFailed
          else try_r (ok_or HashingFailed (argon2_hash L argon2id_config (as_bytes password) salt))
            (\<lambda>hash. Inr (phc_to_string L hash))
      | Fips_Feature \<Rightarrow>
          try_r (map_err (\<lambda>_. HashingFailed) (pbkdf2_hash_password L (as_bytes password) salt))
            (\<lambda>hash. Inr (phc_to_string L hash)))"

definition verify_password ::
    "password_lib \<Rightarrow> password_feature \<Rightarrow> string \<Rightarrow> string \<Rightarrow> password_error + unit" where
  "verify_password L feature password phc_hash_str =
     try_r (ok_or InvalidFormat (phc_parse L phc_hash_str)) (\<lambda>parsed.
     case feature of
       Argon2_Feature \<Rightarrow>
         if argon2_verify L (as_bytes password) parsed then Inr () else Inl VerificationFailed
     | Fips_Feature \<Rightarrow>
         map_err (\<lambda>_. VerificationFailed) (pbkdf2_verify_password L (as_bytes password) parsed))"

section \<open>Laws\<close>

lemma ITERATIONS_nonzero [simp]: "ITERATIONS \<noteq> 0"
  by (simp add: ITERATIONS_def)

lemma pbkdf2_hash_Inr_iff:
  "password_lib_ok L \<Longrightarrow> pbkdf2_hash_password L pw salt = Inr h \<longleftrightarrow>
     (let out = pbkdf2_derive L ITERATIONS (as_bytes salt) pw 32
      in output_new L out = Some out \<and> h = pbkdf2_phc L salt out)"
  by (auto simp: pbkdf2_hash_password_def Let_def dest: output_id)

lemma pbkdf2_verify_Inr_iff:
  assumes "password_lib_ok L"
  shows "pbkdf2_verify_password L pw h = Inr u \<longleftrightarrow>
    (\<exists>k v i salt out. List.find (\<lambda>(key, _). key = ''i'') (phc_params h) = Some (k, v) \<and>
       parse_decimal L v = Some i \<and> i \<noteq> 0 \<and> phc_salt h = Some salt \<and> phc_hash h = Some out \<and>
       pbkdf2_derive L i (as_bytes salt) pw (length out) = out)"
  by (auto simp: pbkdf2_verify_password_def pbkdf2_verify_iff [OF assms] split: option.splits if_splits)

lemma verify_hash:
  assumes "password_lib_ok L" and "hash_password L feature salt pw = Inr s"
  shows "verify_password L feature pw s = Inr ()"
proof (cases feature)
  case Argon2_Feature
  with assms show ?thesis
    by (auto simp: hash_password_def verify_password_def argon2_round argon2_accepts split: if_splits)
next
  case Fips_Feature
  let ?out = "pbkdf2_derive L ITERATIONS (as_bytes salt) (as_bytes pw) 32"
  from assms Fips_Feature have "s = phc_to_string L (pbkdf2_phc L salt ?out)"
    by (auto simp: hash_password_def pbkdf2_hash_Inr_iff Let_def)
  moreover have "pbkdf2_verify_password L (as_bytes pw) (pbkdf2_phc L salt ?out) = Inr ()"
    using assms(1) by (simp add: pbkdf2_verify_Inr_iff pbkdf2_phc_def decimal_round pbkdf2_length)
  ultimately show ?thesis
    using Fips_Feature assms(1) by (simp add: verify_password_def pbkdf2_round)
qed

end
