(* ===== verification/Identity_Core.thy ===== *)
theory Identity_Core
  imports Effects Jwt Kek Encryption Opaque_Token Password
begin

text \<open>
  What the operations of the identity service share, \<open>services/identity/src/services/mod.rs\<close>,
  \<open>get_jwks.rs\<close> and the insertion half of \<open>src/outbox/db.rs\<close>: stored users, verification tokens,
  outbox events and their message type, trace context and the signing-key store.

  \<open>'kp libs\<close> bundles the third-party libraries, the cargo feature, the server's \<open>LOWER\<close> and the
  build profile.
\<close>

section \<open>Libraries\<close>

record verification_mail =
  vm_verification_code :: string
  vm_verification_link :: string
  vm_expires_in_minutes :: int

record password_mail =
  pm_changed_at_ms :: int
  pm_change_ip :: string
  pm_change_location :: string

datatype mail_payload = EmailVerification verification_mail | PasswordChanged password_mail

record auth_email_message =
  em_idempotency_key :: string
  em_recipient_email :: string
  em_recipient_name :: string
  em_trace_id :: string
  em_span_id :: string
  em_produced_at_ms :: int
  em_payload :: "mail_payload option"

record 'kp libs =
  l_b64 :: base64_lib
  l_uuid :: uuid_lib
  l_sha256 :: "bytes \<Rightarrow> bytes"
  l_aead :: aead_lib
  l_ecdsa :: "'kp ecdsa_lib"
  l_json :: json_lib
  l_password :: password_lib
  l_feature :: password_feature
  l_lower :: "string \<Rightarrow> string"
  l_encode :: "auth_email_message \<Rightarrow> bytes"
  l_checks :: bool

text \<open>The rows the identity service works on are well formed.\<close>

abbreviation inv :: "'kp libs \<Rightarrow> db \<Rightarrow> bool" where
  "inv L \<equiv> db_inv (l_lower L)"

text \<open>A result observed as a value (\<open>match\<close> on a \<open>Result\<close>); a panic still unwinds.\<close>

definition attempt :: "('e, 'a) io \<Rightarrow> ('f, 'e + 'a) io" where
  "attempt m w =
     (case m w of
        (Inl (Err e), w') \<Rightarrow> (Inr (Inl e), w')
      | (Inl Panic, w') \<Rightarrow> (Inl Panic, w')
      | (Inr a, w') \<Rightarrow> (Inr (Inr a), w'))"

lemma attempt_Inr_iff:
  "attempt m w = (Inr r, w') \<longleftrightarrow>
     (case r of Inl e \<Rightarrow> m w = (Inl (Err e), w') | Inr a \<Rightarrow> m w = (Inr a, w'))"
  by (auto simp: attempt_def split: prod.splits sum.splits exit.splits)

lemma keeps_attempt [db_keeps]: "io_keeps I m \<Longrightarrow> io_keeps I (attempt m)"
  by (rule io_keepsI) (auto simp: attempt_def split: prod.splits sum.splits exit.splits dest: io_keepsD)

section \<open>Users\<close>

record user =
  usr_id :: uuid
  usr_username :: string
  usr_email :: string
  usr_given_name :: string
  usr_family_name :: string
  usr_password_hash :: string
  usr_email_verified :: bool
  usr_status :: user_status
  usr_created_at :: instant
  usr_updated_at :: instant

definition user_from_row :: "user_row \<Rightarrow> string + user" where
  "user_from_row row =
     try_r (user_status_from_str (u_status row)) (\<lambda>status.
     Inr \<lparr>usr_id = u_id row, usr_username = u_username row, usr_email = u_email row,
          usr_given_name = u_given_name row, usr_family_name = u_family_name row,
          usr_password_hash = u_password_hash row, usr_email_verified = u_email_verified row,
          usr_status = status, usr_created_at = u_created_at row, usr_updated_at = u_updated_at row\<rparr>)"

text \<open>\<open>expect("valid user status in database")\<close>.\<close>

definition expect_user :: "user_row option \<Rightarrow> ('e, user option) io" where
  "expect_user row =
     (case row of
        Some r \<Rightarrow> (case user_from_row r of
            Inr u \<Rightarrow> ret (Some u)
          | Inl _ \<Rightarrow> pureX (\<lambda>e. e) (Inl Panic))
      | None \<Rightarrow> ret None)"

definition get_user_by_id :: "env \<Rightarrow> client \<Rightarrow> uuid \<Rightarrow> (pg_error, user option) io" where
  "get_user_by_id V client i = andThen (exec V client (sql_user_by_id i)) expect_user"

definition get_user_by_email ::
    "'kp libs \<Rightarrow> env \<Rightarrow> client \<Rightarrow> string \<Rightarrow> (pg_error, user option) io" where
  "get_user_by_email L V client email =
     andThen (exec V client (sql_user_by_email (l_lower L) email)) expect_user"

section \<open>Tokens, events, trace context\<close>

definition insert_token :: "env \<Rightarrow> client \<Rightarrow> uuid \<Rightarrow> uuid \<Rightarrow> bytes \<Rightarrow> instant \<Rightarrow> (pg_error, unit) io" where
  "insert_token V client i user_id token_hash expires_at =
     andThen (exec V client (sql_insert_token i user_id token_hash expires_at)) (\<lambda>_. ret ())"

datatype outbox_error = Outbox_Db pg_error | Outbox_Pool | Kafka string | UnknownEventType string

definition insert_event ::
    "env \<Rightarrow> client \<Rightarrow> uuid \<Rightarrow> string \<Rightarrow> uuid \<Rightarrow> string \<Rightarrow> bytes \<Rightarrow> string option \<Rightarrow> string option
      \<Rightarrow> (outbox_error, unit) io" where
  "insert_event V client i aggregate_type aggregate_id event_type payload trace_id span_id =
     andThen (mapErr Outbox_Db (exec V client
       (sql_insert_event i aggregate_type aggregate_id event_type payload trace_id span_id)))
       (\<lambda>_. ret ())"

text \<open>\<open>e_trace\<close> is the current span's context where it is valid.\<close>

definition extract_trace_context :: "env \<Rightarrow> ('e, string option \<times> string option) io" where
  "extract_trace_context V =
     andThen (ask (e_trace V)) (\<lambda>span_context.
       case span_context of
         Some (trace_id, span_id) \<Rightarrow> ret (Some trace_id, Some span_id)
       | None \<Rightarrow> ret (None, None))"

definition unwrap_or_default :: "string option \<Rightarrow> string" where
  "unwrap_or_default s = (case s of Some x \<Rightarrow> x | None \<Rightarrow> [])"

section \<open>Signing keys\<close>

record 'kp active_signing_key =
  ask_kid :: string
  ask_algorithm :: algorithm
  ask_key_pair :: 'kp

definition load_signing_key :: "'kp libs \<Rightarrow> kek \<Rightarrow> signing_key_row \<Rightarrow> crypto_error exit + 'kp active_signing_key" where
  "load_signing_key L kek row =
     (let kid = sk_kid row
      in try_r (no_panic (algorithm_from_str (sk_algorithm row))) (\<lambda>algorithm.
         try_r (no_panic (encrypted_key_from_bytes (sk_encrypted_private_key row))) (\<lambda>encrypted.
         try_r (decrypt_private_key (l_aead L) (kek_bytes kek) encrypted (as_bytes kid)) (\<lambda>pkcs8_der.
         try_r (no_panic (key_pair_from_pkcs8 (l_ecdsa L) algorithm pkcs8_der)) (\<lambda>key_pair.
         Inr \<lparr>ask_kid = kid, ask_algorithm = algorithm, ask_key_pair = key_pair\<rparr>)))))"

definition get_active_signing_key ::
    "'kp libs \<Rightarrow> env \<Rightarrow> pool \<Rightarrow> kek \<Rightarrow> (crypto_error, 'kp active_signing_key) io" where
  "get_active_signing_key L V pool kek =
     andThen (pool_get V pool KeyNotFound) (\<lambda>client.
     andThen (mapErr (\<lambda>_. KeyNotFound) (exec V client sql_active_signing_key)) (\<lambda>found.
     andThen (pureR (\<lambda>e. e) (ok_or KeyNotFound found)) (\<lambda>row.
     pureX (\<lambda>e. e) (load_signing_key L kek row))))"

datatype ensure_key_error = Ensure_Pool | Ensure_Db pg_error | Ensure_Crypto crypto_error | Ensure_Json

definition ensure_signing_key :: "'kp libs \<Rightarrow> env \<Rightarrow> pool \<Rightarrow> kek \<Rightarrow> (ensure_key_error, unit) io" where
  "ensure_signing_key L V pool kek =
     andThen (pool_get V pool Ensure_Pool) (\<lambda>client.
     andThen (mapErr Ensure_Db (exec V client sql_count_active_keys)) (\<lambda>count.
     if count > 0 then ret ()
     else andThen (ask (e_pkcs8 V)) (\<lambda>generated.
       andThen (ask (e_uuid V)) (\<lambda>kid.
       andThen (pureX Ensure_Crypto (generate_key_pair (l_b64 L) (l_ecdsa L) generated
         (uuid_to_string (l_uuid L) kid) ES256)) (\<lambda>gen.
       andThen (ask (\<lambda>t. e_rand V t NONCE_LEN)) (\<lambda>rnd.
       andThen (pureR Ensure_Crypto (encrypt_private_key (l_aead L) rnd (kek_bytes kek)
         (gen_private_key_pkcs8 gen) (as_bytes (gen_kid gen)))) (\<lambda>encrypted.
       andThen (pureR (\<lambda>e. e) (ok_or Ensure_Json (jwk_to_value (l_json L) (gen_public_jwk gen)))) (\<lambda>public_jwk_json.
       andThen (mapErr Ensure_Db (exec V client (sql_insert_signing_key (gen_kid gen)
         (algorithm_as_str (gen_algorithm gen)) (encrypted_key_as_bytes encrypted) public_jwk_json)))
         (\<lambda>_. ret ())))))))))"

section \<open>Public keys\<close>

datatype get_jwks_error = Jwks_Db pg_error | Jwks_Pool | Jwks_Serialization

definition list_public_jwks :: "'kp libs \<Rightarrow> env \<Rightarrow> pool \<Rightarrow> (get_jwks_error, jwk list) io" where
  "list_public_jwks L V pool =
     andThen (pool_get V pool Jwks_Pool) (\<lambda>client.
     andThen (mapErr Jwks_Db (exec V client sql_public_jwks)) (\<lambda>rows.
     pureR (\<lambda>e. e) (collect (map (\<lambda>v. ok_or Jwks_Serialization (jwk_from_value (l_json L) v)) rows))))"

definition get_jwks :: "'kp libs \<Rightarrow> env \<Rightarrow> pool \<Rightarrow> (get_jwks_error, string) io" where
  "get_jwks L V pool =
     andThen (list_public_jwks L V pool) (\<lambda>public_keys.
     pureR (\<lambda>e. e) (ok_or Jwks_Serialization (jwk_set_to_string (l_json L) (build_jwk_set public_keys))))"

section \<open>Laws\<close>

lemma keeps_expect_user [db_keeps]: "io_keeps I (expect_user row)"
  by (auto simp: expect_user_def intro: db_keeps split: option.splits sum.splits)

lemma keeps_get_user [db_keeps]:
  assumes "env_keeps I V"
  shows "io_keeps I (get_user_by_id V c i)" and "io_keeps I (get_user_by_email L V c em)"
  unfolding get_user_by_id_def get_user_by_email_def by (intro db_keeps assms)+

lemma keeps_extract_trace_context [db_keeps]: "io_keeps I (extract_trace_context V)"
  unfolding extract_trace_context_def by (intro db_keeps)

text \<open>The operations keep whatever the statements keep.\<close>

locale account_invariant = account_statements "l_lower L" I
  for L :: "'kp libs" and I :: "db \<Rightarrow> bool"
begin

lemma keeps_insert_event [db_keeps]:
  assumes "env_keeps I V"
  shows "io_keeps I (insert_event V c j at ai ''auth_email'' p tr sp)"
  unfolding insert_event_def by (intro db_keeps assms)

lemma keeps_keys [db_keeps]:
  assumes "env_keeps I V"
  shows "io_keeps I (get_active_signing_key L V p k)"
    and "io_keeps I (list_public_jwks L V p)" and "io_keeps I (get_jwks L V p)"
  unfolding get_active_signing_key_def get_jwks_def list_public_jwks_def by (intro db_keeps assms)+

lemma keeps_ensure_signing_key [db_keeps]:
  assumes "env_keeps I V"
  shows "io_keeps I (ensure_signing_key L V p k)"
  unfolding ensure_signing_key_def by (intro db_keeps assms)

end

locale service_invariant = account_invariant L I + statement_invariant "l_lower L" I
  for L :: "'kp libs" and I :: "db \<Rightarrow> bool"
begin

lemma keeps_insert_token [db_keeps]:
  assumes "env_keeps I V"
  shows "io_keeps I (insert_token V c i u h e)"
  unfolding insert_token_def by (intro db_keeps assms)

end

interpretation constraints_kept: service_invariant L "inv L" for L
  by unfold_locales

end
