(* ===== verification/Outbox.thy ===== *)
theory Outbox
  imports Identity_Core
begin

text \<open>
  The outbox publisher (\<open>outbox/db.rs\<close>, \<open>outbox/publisher.rs\<close>): the background task that copies
  unpublished outbox rows to Kafka. Each replica of the service runs one. The task is a state
  machine whose state is the point where \<open>run\<close> awaits; one step of it is one awaited effect
  together with the code up to the next \<open>await\<close>. What the outside world decides in a step is its
  \<open>reply\<close>. The advisory lock, the Kafka log and the database are shared by all replicas.

  Kafka keeps, per topic, the records of partition 0 in the order they were appended.
\<close>

section \<open>Rows and records\<close>

record outbox_event =
  oe_id :: uuid
  oe_aggregate_type :: string
  oe_aggregate_id :: uuid
  oe_event_type :: string
  oe_payload :: bytes
  oe_trace_id :: "string option"
  oe_span_id :: "string option"
  oe_created_at :: instant

definition event_of_row :: "outbox_row \<Rightarrow> outbox_event" where
  "event_of_row r =
     \<lparr>oe_id = ob_id r, oe_aggregate_type = ob_aggregate_type r, oe_aggregate_id = ob_aggregate_id r,
      oe_event_type = ob_event_type r, oe_payload = ob_payload r, oe_trace_id = ob_trace_id r,
      oe_span_id = ob_span_id r, oe_created_at = ob_created_at r\<rparr>"

record kafka_record =
  k_key :: "bytes option"
  k_value :: "bytes option"
  k_headers :: "string \<Rightarrow> bytes option"
  k_timestamp :: instant

record kafka_config =
  kafka_brokers :: string
  kafka_poll_interval_ms :: u64
  kafka_batch_size :: int

definition default_kafka_config :: kafka_config where
  "default_kafka_config =
     \<lparr>kafka_brokers = ''localhost:9092'', kafka_poll_interval_ms = 5000, kafka_batch_size = 50\<rparr>"

definition broker_list :: "kafka_config \<Rightarrow> string list" where
  "broker_list config = map trim (split_on CHR '','' (kafka_brokers config))"

section \<open>Routing and trace headers\<close>

definition route_topic :: "string \<Rightarrow> outbox_error + string" where
  "route_topic event_type =
     (if event_type = ''auth_email'' then Inr ''email.auth'' else Inl (UnknownEventType event_type))"

definition build_traceparent :: "outbox_event \<Rightarrow> string option" where
  "build_traceparent event =
     (case (oe_trace_id event, oe_span_id event) of
        (Some tid, Some sid) \<Rightarrow>
          if tid \<noteq> [] \<and> sid \<noteq> [] then Some (''00-'' @ tid @ ''-'' @ sid @ ''-01'') else None
      | _ \<Rightarrow> None)"

text \<open>\<open>TraceId::from_hex\<close> and \<open>SpanId::from_hex\<close> belong to opentelemetry: parameters. The span
  context only links the publisher's tracing span to the originating one.\<close>

record span_context =
  sc_trace_id :: "128 word"
  sc_span_id :: u64
  sc_trace_flags :: byte
  sc_is_remote :: bool

definition build_span_context ::
    "(string \<Rightarrow> 128 word option) \<Rightarrow> (string \<Rightarrow> u64 option) \<Rightarrow> outbox_event \<Rightarrow> span_context option" where
  "build_span_context trace_from_hex span_from_hex event =
     (case oe_trace_id event of None \<Rightarrow> None
      | Some tid \<Rightarrow> (case trace_from_hex tid of None \<Rightarrow> None
      | Some trace_id \<Rightarrow> (case oe_span_id event of None \<Rightarrow> None
      | Some sid \<Rightarrow> (case span_from_hex sid of None \<Rightarrow> None
      | Some span_id \<Rightarrow> Some \<lparr>sc_trace_id = trace_id, sc_span_id = span_id, sc_trace_flags = 1,
          sc_is_remote = True\<rparr>))))"

definition hex_char :: "nat \<Rightarrow> char" where
  "hex_char n = ''0123456789abcdef'' ! n"

definition hex02 :: "byte \<Rightarrow> string" where
  "hex02 b = [hex_char (unat b div 16), hex_char (unat b mod 16)]"

text \<open>The publisher's own span where it is valid: displayed trace id, span id, and flags.\<close>

type_synonym own_span = "(string \<times> string \<times> byte) option"

definition trace_headers :: "own_span \<Rightarrow> outbox_event \<Rightarrow> string \<Rightarrow> bytes option" where
  "trace_headers span event =
     (case span of
        Some (tid, sid, flags) \<Rightarrow>
          [''traceparent'' \<mapsto> as_bytes (''00-'' @ tid @ ''-'' @ sid @ ''-'' @ hex02 flags)]
      | None \<Rightarrow>
          (case build_traceparent event of
             Some tp \<Rightarrow> [''traceparent'' \<mapsto> as_bytes tp]
           | None \<Rightarrow> Map.empty))"

definition kafka_record_of :: "uuid_lib \<Rightarrow> own_span \<Rightarrow> instant \<Rightarrow> outbox_event \<Rightarrow> kafka_record" where
  "kafka_record_of U span now event =
     \<lparr>k_key = Some (as_bytes (uuid_to_string U (oe_aggregate_id event))),
      k_value = Some (oe_payload event),
      k_headers = trace_headers span event,
      k_timestamp = now\<rparr>"

section \<open>Effects of one step\<close>

text \<open>
  \<open>rp_outcome\<close> is what happens to the awaited effect, \<open>rp_pool\<close> whether \<open>pool.get()\<close> succeeds,
  \<open>rp_now\<close> and \<open>rp_utc\<close> the clocks of the database and of the task. At the \<open>select!\<close>, \<open>rp_timer\<close>
  says whether the timer's branch is taken.
\<close>

record reply =
  rp_outcome :: outcome
  rp_pool :: bool
  rp_now :: instant
  rp_utc :: instant
  rp_span :: own_span
  rp_timer :: bool
  rp_kafka_error :: string

definition pg_effect :: "reply \<Rightarrow> 'a sql \<Rightarrow> db \<Rightarrow> (outbox_error + 'a) \<times> db" where
  "pg_effect rp s d =
     (case rp_outcome rp of
        Refused \<Rightarrow> (Inl (Outbox_Db Other_Pg_Error), d)
      | out \<Rightarrow>
         (case s (rp_now rp) d of
            Inl e \<Rightarrow> (Inl (Outbox_Db (if out = ReplyLost then Other_Pg_Error else e)), d)
          | Inr (a, d') \<Rightarrow>
             (if out = ReplyLost then Inl (Outbox_Db Other_Pg_Error) else Inr a, d')))"

definition fetch_unpublished :: "reply \<Rightarrow> int \<Rightarrow> db \<Rightarrow> (outbox_error + outbox_event list) \<times> db" where
  "fetch_unpublished rp batch_size d =
     (if \<not> rp_pool rp then (Inl Outbox_Pool, d)
      else (case pg_effect rp (sql_fetch_unpublished batch_size) d of
              (rows, d') \<Rightarrow> (try_r rows (\<lambda>rs. Inr (map event_of_row rs)), d')))"

definition mark_published :: "reply \<Rightarrow> uuid \<Rightarrow> db \<Rightarrow> (outbox_error + unit) \<times> db" where
  "mark_published rp i d =
     (if \<not> rp_pool rp then (Inl Outbox_Pool, d)
      else (case pg_effect rp (sql_mark_published i) d of
              (r, d') \<Rightarrow> (try_r r (\<lambda>_. Inr ()), d')))"

text \<open>
  \<open>pg_try_advisory_lock\<close> on the session \<open>me\<close>: granted where no other session holds the lock. The
  lock's key, \<open>OUTBOX_PUBLISHER_LOCK_ID\<close>, is used for nothing else.
\<close>

definition OUTBOX_PUBLISHER_LOCK_ID :: int where
  "OUTBOX_PUBLISHER_LOCK_ID = 0x6F7574626F787075"

definition pg_try_advisory_lock :: "nat \<Rightarrow> nat option \<Rightarrow> bool \<times> nat option" where
  "pg_try_advisory_lock me holder =
     (if holder = None \<or> holder = Some me then (True, Some me) else (False, holder))"

definition pg_session_closed :: "nat \<Rightarrow> nat option \<Rightarrow> nat option" where
  "pg_session_closed me holder = (if holder = Some me then None else holder)"

definition try_acquire_leader_lock ::
    "reply \<Rightarrow> bool \<Rightarrow> nat \<Rightarrow> nat option \<Rightarrow> (outbox_error + bool) \<times> nat option" where
  "try_acquire_leader_lock rp session_open me holder =
     (if \<not> session_open then (Inl (Outbox_Db Other_Pg_Error), holder)
      else (case rp_outcome rp of
              Delivered \<Rightarrow> (case pg_try_advisory_lock me holder of (b, h) \<Rightarrow> (Inr b, h))
            | Refused \<Rightarrow> (Inl (Outbox_Db Other_Pg_Error), holder)
            | ReplyLost \<Rightarrow>
                (Inl (Outbox_Db Other_Pg_Error), snd (pg_try_advisory_lock me holder))))"

section \<open>The task\<close>

text \<open>
  The \<open>await\<close> points of \<open>run\<close>. \<open>Publishing\<close> points carry the event in hand and those of the batch
  that are left.
\<close>

datatype phase =
    Building_Client
  | Taking_Connection
  | Waiting
  | Locking
  | Fetching
  | Connecting string outbox_event "outbox_event list"
  | Producing string outbox_event "outbox_event list"
  | Marking outbox_event "outbox_event list"
  | Stopped
  | Failed outbox_error

record publisher =
  pub_phase :: phase
  pub_is_leader :: bool
  pub_topics :: "string list"
  pub_cancelled :: bool
  pub_session_open :: bool

record shared =
  sh_db :: db
  sh_lock :: "nat option"
  sh_log :: "string \<Rightarrow> kafka_record list"

text \<open>\<open>spawn\<close>, and \<open>PublisherHandle::shutdown\<close>'s \<open>cancel\<close>.\<close>

definition spawn :: publisher where
  "spawn = \<lparr>pub_phase = Building_Client, pub_is_leader = False, pub_topics = [],
            pub_cancelled = False, pub_session_open = True\<rparr>"

definition cancel :: "publisher \<Rightarrow> publisher" where
  "cancel p = p\<lparr>pub_cancelled := True\<rparr>"

text \<open>The head of the loop over the batch: skip what has no topic, stop at the end.\<close>

fun next_event :: "string list \<Rightarrow> outbox_event list \<Rightarrow> phase" where
  "next_event topics [] = Waiting"
| "next_event topics (event # events) =
     (case route_topic (oe_event_type event) of
        Inl _ \<Rightarrow> next_event topics events
      | Inr topic \<Rightarrow>
          if topic \<in> set topics then Producing topic event events
          else Connecting topic event events)"

text \<open>The steps of one poll: the leader lock, the batch, and for each event the partition client of its
  topic, the record and the mark.\<close>

definition lead_step :: "nat \<Rightarrow> reply \<Rightarrow> publisher \<Rightarrow> shared \<Rightarrow> publisher \<times> shared" where
  "lead_step me rp p s =
     (case try_acquire_leader_lock rp (pub_session_open p) me (sh_lock s) of
        (r, holder) \<Rightarrow>
          (if r = Inr True then p\<lparr>pub_phase := Fetching, pub_is_leader := True\<rparr>
           else p\<lparr>pub_phase := Waiting, pub_is_leader := False\<rparr>,
           s\<lparr>sh_lock := holder\<rparr>))"

definition fetch_step :: "kafka_config \<Rightarrow> reply \<Rightarrow> publisher \<Rightarrow> shared \<Rightarrow> publisher \<times> shared" where
  "fetch_step config rp p s =
     (case fetch_unpublished rp (kafka_batch_size config) (sh_db s) of
        (Inl _, d) \<Rightarrow> (p\<lparr>pub_phase := Waiting\<rparr>, s\<lparr>sh_db := d\<rparr>)
      | (Inr events, d) \<Rightarrow>
          (p\<lparr>pub_phase := next_event (pub_topics p) events\<rparr>, s\<lparr>sh_db := d\<rparr>))"

definition connect_step ::
    "reply \<Rightarrow> string \<Rightarrow> outbox_event \<Rightarrow> outbox_event list \<Rightarrow> publisher \<Rightarrow> shared \<Rightarrow> publisher \<times> shared" where
  "connect_step rp topic event events p s =
     (if rp_outcome rp = Delivered
      then (p\<lparr>pub_phase := Producing topic event events, pub_topics := topic # pub_topics p\<rparr>, s)
      else (p\<lparr>pub_phase := Waiting\<rparr>, s))"

definition produce_step ::
    "uuid_lib \<Rightarrow> reply \<Rightarrow> string \<Rightarrow> outbox_event \<Rightarrow> outbox_event list \<Rightarrow> publisher \<Rightarrow> shared \<Rightarrow> publisher \<times> shared" where
  "produce_step U rp topic event events p s =
     (let rec = kafka_record_of U (rp_span rp) (rp_utc rp) event;
          s' = s\<lparr>sh_log := (sh_log s)(topic := sh_log s topic @ [rec])\<rparr>
      in case rp_outcome rp of
           Delivered \<Rightarrow> (p\<lparr>pub_phase := Marking event events\<rparr>, s')
         | Refused \<Rightarrow> (p\<lparr>pub_phase := Waiting\<rparr>, s)
         | ReplyLost \<Rightarrow> (p\<lparr>pub_phase := Waiting\<rparr>, s'))"

definition mark_step ::
    "reply \<Rightarrow> outbox_event \<Rightarrow> outbox_event list \<Rightarrow> publisher \<Rightarrow> shared \<Rightarrow> publisher \<times> shared" where
  "mark_step rp event events p s =
     (case mark_published rp (oe_id event) (sh_db s) of
        (_, d) \<Rightarrow> (p\<lparr>pub_phase := next_event (pub_topics p) events\<rparr>, s\<lparr>sh_db := d\<rparr>))"

definition publisher_step ::
    "uuid_lib \<Rightarrow> kafka_config \<Rightarrow> nat \<Rightarrow> reply \<Rightarrow> publisher \<Rightarrow> shared \<Rightarrow> publisher \<times> shared" where
  "publisher_step U config me rp p s =
     (case pub_phase p of
        Building_Client \<Rightarrow>
          (if rp_outcome rp = Delivered then (p\<lparr>pub_phase := Taking_Connection\<rparr>, s)
           else (p\<lparr>pub_phase := Failed (Kafka (rp_kafka_error rp))\<rparr>, s))
      | Taking_Connection \<Rightarrow>
          (if rp_pool rp then (p\<lparr>pub_phase := Waiting, pub_is_leader := False\<rparr>, s)
           else (p\<lparr>pub_phase := Failed Outbox_Pool\<rparr>, s))
      | Waiting \<Rightarrow>
          (if rp_timer rp then (p\<lparr>pub_phase := Locking\<rparr>, s)
           else if pub_cancelled p then (p\<lparr>pub_phase := Stopped\<rparr>, s)
           else (p, s))
      | Locking \<Rightarrow> lead_step me rp p s
      | Fetching \<Rightarrow> fetch_step config rp p s
      | Connecting topic event events \<Rightarrow> connect_step rp topic event events p s
      | Producing topic event events \<Rightarrow> produce_step U rp topic event events p s
      | Marking event events \<Rightarrow> mark_step rp event events p s
      | Stopped \<Rightarrow> (p, s)
      | Failed _ \<Rightarrow> (p, s))"

lemmas publisher_step_defs = publisher_step_def lead_step_def fetch_step_def connect_step_def
  produce_step_def mark_step_def

section \<open>All replicas\<close>

text \<open>
  The replicas, numbered, over the shared state. Between their steps the service commits
  transactions, connections are lost, and shutdown is requested. A transaction of the service
  only appends unpublished rows to the outbox.
\<close>

definition outbox_grows :: "db \<Rightarrow> db \<Rightarrow> bool" where
  "outbox_grows d d' \<longleftrightarrow>
     (\<exists>new. outbox d' = outbox d @ new \<and> (\<forall>r \<in> set new. ob_published_at r = None)) \<and>
     distinct (map ob_id (outbox d'))"

record system =
  sys_pubs :: "nat \<Rightarrow> publisher"
  sys_shared :: shared

datatype event = Step nat reply | Commit db | Session_Lost nat | Cancel nat

inductive sys_step :: "uuid_lib \<Rightarrow> kafka_config \<Rightarrow> system \<Rightarrow> event \<Rightarrow> system \<Rightarrow> bool"
  for U config where
  step: "publisher_step U config i rp (sys_pubs s i) (sys_shared s) = (p, sh) \<Longrightarrow>
    sys_step U config s (Step i rp) \<lparr>sys_pubs = (sys_pubs s)(i := p), sys_shared = sh\<rparr>"
| commit: "outbox_grows (sh_db (sys_shared s)) d \<Longrightarrow>
    sys_step U config s (Commit d) (s\<lparr>sys_shared := (sys_shared s)\<lparr>sh_db := d\<rparr>\<rparr>)"
| session_lost: "sys_step U config s (Session_Lost i)
    \<lparr>sys_pubs = (sys_pubs s)(i := (sys_pubs s i)\<lparr>pub_session_open := False\<rparr>),
     sys_shared = (sys_shared s)\<lparr>sh_lock := pg_session_closed i (sh_lock (sys_shared s))\<rparr>\<rparr>"
| cancel: "sys_step U config s (Cancel i) (s\<lparr>sys_pubs := (sys_pubs s)(i := cancel (sys_pubs s i))\<rparr>)"

inductive_cases sys_stepE [consumes 1, case_names step commit session_lost cancel]:
  "sys_step U config s ev s'"

inductive_simps sys_step_Step: "sys_step U config s (Step i rp) s'"

text \<open>Reachability by steps that satisfy \<open>P\<close>; \<open>any\<close> puts no restriction on them.\<close>

inductive reach ::
    "uuid_lib \<Rightarrow> kafka_config \<Rightarrow> (system \<Rightarrow> event \<Rightarrow> bool) \<Rightarrow> system \<Rightarrow> system \<Rightarrow> bool"
  for U config P s0 where
  start: "reach U config P s0 s0"
| more: "reach U config P s0 s \<Longrightarrow> P s ev \<Longrightarrow> sys_step U config s ev s' \<Longrightarrow> reach U config P s0 s'"

definition any :: "system \<Rightarrow> event \<Rightarrow> bool" where
  "any s ev \<longleftrightarrow> True"

definition started :: "db \<Rightarrow> (string \<Rightarrow> kafka_record list) \<Rightarrow> system" where
  "started d log = \<lparr>sys_pubs = (\<lambda>_. spawn), sys_shared = \<lparr>sh_db = d, sh_lock = None, sh_log = log\<rparr>\<rparr>"

end
