(* ===== verification/Outbox_Laws.thy ===== *)
theory Outbox_Laws
  imports Outbox
begin

text \<open>
  Lemmas on the publisher: the leader lock as an interface, what one step does to the shared state,
  the invariant behind at-least-once delivery, the invariant behind exactly-once delivery in the
  absence of faults, and the effect of one undisturbed batch.
\<close>

section \<open>The leader lock\<close>

locale leader_lock =
  fixes acquire :: "nat \<Rightarrow> 'l \<Rightarrow> bool \<times> 'l"
    and close :: "nat \<Rightarrow> 'l \<Rightarrow> 'l"
    and holds :: "nat \<Rightarrow> 'l \<Rightarrow> bool"
  assumes granted: "acquire i l = (True, l') \<Longrightarrow> holds i l'"
    and exclusive: "holds i l \<Longrightarrow> holds j l \<Longrightarrow> i = j"
    and acquire_keeps: "holds j l \<Longrightarrow> holds j (snd (acquire i l))"
    and close_keeps: "holds j l \<Longrightarrow> j \<noteq> i \<Longrightarrow> holds j (close i l)"
begin

lemma refused_while_held: "holds j l \<Longrightarrow> j \<noteq> i \<Longrightarrow> \<not> fst (acquire i l)"
  using granted [of i l "snd (acquire i l)"] acquire_keeps [of j l i] exclusive
  by (cases "acquire i l") auto

lemma holder_granted_again: "holds i l \<Longrightarrow> holds i (snd (acquire j (snd (acquire i l))))"
  by (intro acquire_keeps)

text \<open>A holder keeps the lock whatever the other sessions do.\<close>

lemma held_through:
  assumes "holds j l" and "\<forall>i \<in> set closed. i \<noteq> j"
  shows "holds j (fold close closed (fold (\<lambda>i l. snd (acquire i l)) asked l))"
proof -
  have asked: "holds j l \<Longrightarrow> holds j (fold (\<lambda>i l. snd (acquire i l)) asked l)" for l
    by (induction asked arbitrary: l) (simp_all add: acquire_keeps)
  have "holds j l \<Longrightarrow> holds j (fold close closed l)" for l
    using assms(2) by (induction closed arbitrary: l) (simp_all add: close_keeps)
  then show ?thesis using asked [OF assms(1)] by blast
qed

end

interpretation advisory_lock: leader_lock pg_try_advisory_lock pg_session_closed "\<lambda>i l. l = Some i"
  by unfold_locales (auto simp: pg_try_advisory_lock_def pg_session_closed_def split: if_splits)

section \<open>Effects\<close>

definition set_published :: "uuid \<Rightarrow> instant \<Rightarrow> db \<Rightarrow> db" where
  "set_published i now d =
     d\<lparr>outbox := update_where (\<lambda>r. ob_id r = i) (\<lambda>r. r\<lparr>ob_published_at := Some now\<rparr>) (outbox d)\<rparr>"

lemma ids_update_where [simp]:
  "map ob_id (update_where P (\<lambda>r. r\<lparr>ob_published_at := x\<rparr>) rs) = map ob_id rs"
  by (simp add: update_where_def)

lemma event_of_row_published [simp]: "event_of_row (r\<lparr>ob_published_at := x\<rparr>) = event_of_row r"
  by (simp add: event_of_row_def)

lemma event_of_row_id [simp]: "oe_id (event_of_row r) = ob_id r"
  by (simp add: event_of_row_def)

lemma events_set_published [simp]:
  "map event_of_row (outbox (set_published i now d)) = map event_of_row (outbox d)"
  by (simp add: set_published_def update_where_def)

lemma event_set_published [simp]:
  "event_of_row ` set (outbox (set_published i now d)) = event_of_row ` set (outbox d)"
  by (metis events_set_published list.set_map)

lemma ids_set_published [simp]: "map ob_id (outbox (set_published i now d)) = map ob_id (outbox d)"
  by (simp add: set_published_def)

lemma sql_mark_published_eq:
  "distinct (map ob_id (outbox d)) \<Longrightarrow>
     sql_mark_published i now d = Inr (affected (\<lambda>r. ob_id r = i) (outbox d), set_published i now d)"
  by (simp add: sql_mark_published_def Let_def write_checked_def outbox_violation_def
      set_published_def)

definition mark_arrives :: "reply \<Rightarrow> bool" where
  "mark_arrives rp \<longleftrightarrow> rp_pool rp \<and> rp_outcome rp \<noteq> Refused"

lemma mark_published_db:
  assumes "distinct (map ob_id (outbox d))"
  shows "snd (mark_published rp i d) = (if mark_arrives rp then set_published i (rp_now rp) d else d)"
  using assms
  by (cases "rp_outcome rp")
    (simp_all add: mark_published_def pg_effect_def sql_mark_published_eq mark_arrives_def)

lemma mark_published_Inr_iff:
  assumes "distinct (map ob_id (outbox d))"
  shows "fst (mark_published rp i d) = Inr () \<longleftrightarrow> rp_pool rp \<and> rp_outcome rp = Delivered"
  using assms
  by (cases "rp_outcome rp") (simp_all add: mark_published_def pg_effect_def sql_mark_published_eq)

definition pending :: "db \<Rightarrow> outbox_row list" where
  "pending d = sort_key ob_created_at (filter (\<lambda>r. ob_published_at r = None) (outbox d))"

lemma sql_fetch_eq:
  "sql_fetch_unpublished n now d =
     (if n < 0 then Inl Other_Pg_Error else Inr (take (nat n) (pending d), d))"
  by (simp add: sql_fetch_unpublished_def pending_def)

lemma fetch_unpublished_db [simp]: "snd (fetch_unpublished rp n d) = d"
  by (cases "rp_outcome rp")
    (simp_all add: fetch_unpublished_def pg_effect_def sql_fetch_eq)

lemma fetch_unpublished_Inr_iff:
  "fst (fetch_unpublished rp n d) = Inr es \<longleftrightarrow>
     rp_pool rp \<and> rp_outcome rp = Delivered \<and> 0 \<le> n \<and>
     es = map event_of_row (take (nat n) (pending d))"
  by (cases "rp_outcome rp")
    (auto simp: fetch_unpublished_def pg_effect_def sql_fetch_eq)

lemma set_pending: "set (pending d) = {r \<in> set (outbox d). ob_published_at r = None}"
  by (simp add: pending_def)

lemma distinct_pending:
  assumes "distinct (map ob_id (outbox d))"
  shows "distinct (map ob_id (pending d))"
proof -
  have "distinct (filter (\<lambda>r. ob_published_at r = None) (outbox d))"
    using assms by (simp add: distinct_map)
  then show ?thesis
    using assms unfolding distinct_map set_pending
    by (auto simp: pending_def intro: inj_on_subset)
qed

lemma try_lock_cases:
  assumes "try_acquire_leader_lock rp op me h = (r, h')"
  obtains "h' = h" and "r \<noteq> Inr True"
  | "op" and "h' = snd (pg_try_advisory_lock me h)" and
    "r = Inr True \<Longrightarrow> rp_outcome rp = Delivered \<and> pg_try_advisory_lock me h = (True, h')"
  using assms
  by (cases "rp_outcome rp")
    (auto simp: try_acquire_leader_lock_def split: if_splits prod.splits)

section \<open>What a publisher has in hand\<close>

fun in_hand :: "phase \<Rightarrow> outbox_event list" where
  "in_hand (Connecting t e es) = e # es"
| "in_hand (Producing t e es) = e # es"
| "in_hand (Marking e es) = e # es"
| "in_hand _ = []"

lemma in_hand_next_event: "\<exists>dropped. es = dropped @ in_hand (next_event ts es)"
proof (induction es)
  case (Cons e es)
  then obtain dropped where "es = dropped @ in_hand (next_event ts es)" by blast
  then have skip: "e # es = (e # dropped) @ in_hand (next_event ts es)" by simp
  have "in_hand (next_event ts (e # es)) \<in> {in_hand (next_event ts es), e # es}"
    by (cases "route_topic (oe_event_type e)") auto
  then show ?case
    using skip by (metis append_Nil empty_iff insert_iff)
qed simp

lemma in_hand_next_event_subset: "set (in_hand (next_event ts es)) \<subseteq> set es"
  using in_hand_next_event [of es ts] by (metis set_append Un_upper2)

lemma next_event_distinct: "distinct (map f es) \<Longrightarrow> distinct (map f (in_hand (next_event ts es)))"
  using in_hand_next_event [of es ts] by (metis distinct_append map_append)

fun phase_routed :: "phase \<Rightarrow> bool" where
  "phase_routed (Connecting t e es) \<longleftrightarrow> route_topic (oe_event_type e) = Inr t"
| "phase_routed (Producing t e es) \<longleftrightarrow> route_topic (oe_event_type e) = Inr t"
| "phase_routed (Marking e es) \<longleftrightarrow> (\<exists>t. route_topic (oe_event_type e) = Inr t)"
| "phase_routed _ \<longleftrightarrow> True"

lemma next_event_routed: "phase_routed (next_event ts es)"
  by (induction es) (auto split: sum.split)

lemma next_event_not_marking [simp]:
  "next_event ts es \<noteq> Marking e es'" "next_event ts es \<noteq> Fetching"
  by (induction es) (auto split: sum.split)

section \<open>At least once\<close>

definition delivers :: "uuid_lib \<Rightarrow> outbox_event \<Rightarrow> kafka_record \<Rightarrow> bool" where
  "delivers U e rec \<longleftrightarrow>
     k_key rec = Some (as_bytes (uuid_to_string U (oe_aggregate_id e))) \<and>
     k_value rec = Some (oe_payload e)"

definition logged :: "uuid_lib \<Rightarrow> (string \<Rightarrow> kafka_record list) \<Rightarrow> outbox_event \<Rightarrow> bool" where
  "logged U log e \<longleftrightarrow>
     (\<exists>t. route_topic (oe_event_type e) = Inr t \<and> (\<exists>rec \<in> set (log t). delivers U e rec))"

lemma delivers_own [simp]: "delivers U e (kafka_record_of U span now e)"
  by (simp add: delivers_def kafka_record_of_def)

definition published_logged :: "uuid_lib \<Rightarrow> shared \<Rightarrow> bool" where
  "published_logged U s \<longleftrightarrow>
     (\<forall>r \<in> set (outbox (sh_db s)). ob_published_at r \<noteq> None \<longrightarrow> logged U (sh_log s) (event_of_row r))"

fun phase_ok :: "uuid_lib \<Rightarrow> shared \<Rightarrow> phase \<Rightarrow> bool" where
  "phase_ok U s ph \<longleftrightarrow>
     set (in_hand ph) \<subseteq> event_of_row ` set (outbox (sh_db s)) \<and> phase_routed ph \<and>
     (\<forall>e es. ph = Marking e es \<longrightarrow> logged U (sh_log s) e)"

declare phase_ok.simps [simp del]

definition shared_ok :: "uuid_lib \<Rightarrow> shared \<Rightarrow> bool" where
  "shared_ok U s \<longleftrightarrow> distinct (map ob_id (outbox (sh_db s))) \<and> published_logged U s"

text \<open>The order in which shared states evolve.\<close>

definition grows :: "shared \<Rightarrow> shared \<Rightarrow> bool" where
  "grows s s' \<longleftrightarrow>
     event_of_row ` set (outbox (sh_db s)) \<subseteq> event_of_row ` set (outbox (sh_db s')) \<and>
     (\<forall>t. set (sh_log s t) \<subseteq> set (sh_log s' t))"

lemma grows_refl [simp]: "grows s s"
  by (simp add: grows_def)

lemma logged_mono: "(\<And>t. set (log t) \<subseteq> set (log' t)) \<Longrightarrow> logged U log e \<Longrightarrow> logged U log' e"
  by (auto simp: logged_def)

lemma phase_ok_mono: "grows s s' \<Longrightarrow> phase_ok U s ph \<Longrightarrow> phase_ok U s' ph"
  using logged_mono [of "sh_log s" "sh_log s'"] by (auto simp: phase_ok.simps grows_def)

lemma phase_ok_idle: "in_hand ph = [] \<Longrightarrow> phase_routed ph \<Longrightarrow> phase_ok U s ph"
  by (auto simp: phase_ok.simps)

lemma phase_ok_next_event:
  "set es \<subseteq> event_of_row ` set (outbox (sh_db s)) \<Longrightarrow> phase_ok U s (next_event ts es)"
  using in_hand_next_event_subset [of ts es] by (auto simp: phase_ok.simps next_event_routed)

text \<open>Marking a logged event keeps every published row logged.\<close>

lemma shared_ok_set_published:
  assumes "shared_ok U s" and "e \<in> event_of_row ` set (outbox (sh_db s))" and "logged U (sh_log s) e"
  shows "shared_ok U (s\<lparr>sh_db := set_published (oe_id e) now (sh_db s)\<rparr>)"
proof -
  have dist: "distinct (map ob_id (outbox (sh_db s)))" and pub: "published_logged U s"
    using assms(1) by (simp_all add: shared_ok_def)
  obtain r0 where r0: "r0 \<in> set (outbox (sh_db s))" "e = event_of_row r0" using assms(2) by blast
  have same: "r \<in> set (outbox (sh_db s)) \<Longrightarrow> ob_id r = oe_id e \<Longrightarrow> event_of_row r = e" for r
    using dist r0 by (auto simp: distinct_map dest: inj_onD)
  have "published_logged U (s\<lparr>sh_db := set_published (oe_id e) now (sh_db s)\<rparr>)"
    using pub same assms(3) by (auto simp: published_logged_def set_published_def update_where_def)
  with dist show ?thesis by (simp add: shared_ok_def)
qed

lemma shared_ok_log:
  assumes "shared_ok U s" and "\<And>t. set (sh_log s t) \<subseteq> set (sh_log s' t)" and "sh_db s' = sh_db s"
  shows "shared_ok U s'"
  using assms(1,3) logged_mono [OF assms(2)] by (auto simp: shared_ok_def published_logged_def)

lemma publisher_step_ok:
  assumes step: "publisher_step U c i rp p s = (p', s')"
    and sh: "shared_ok U s" and ph: "phase_ok U s (pub_phase p)"
  shows "grows s s' \<and> shared_ok U s' \<and> phase_ok U s' (pub_phase p')"
proof (cases "pub_phase p")
  case Locking
  obtain r h where r: "try_acquire_leader_lock rp (pub_session_open p) i (sh_lock s) = (r, h)"
    by fastforce
  have "grows s (s\<lparr>sh_lock := h\<rparr>)" by (simp add: grows_def)
  moreover have "shared_ok U (s\<lparr>sh_lock := h\<rparr>)" using sh by (simp add: shared_ok_def published_logged_def)
  ultimately show ?thesis
    using step r Locking by (auto simp: publisher_step_defs intro: phase_ok_idle)
next
  case Fetching
  obtain r d where r: "fetch_unpublished rp (kafka_batch_size c) (sh_db s) = (r, d)" by fastforce
  then have d: "d = sh_db s" using fetch_unpublished_db [of rp "kafka_batch_size c" "sh_db s"] by simp
  show ?thesis
  proof (cases r)
    case (Inl e)
    with step r d Fetching sh show ?thesis by (auto simp: publisher_step_defs intro: phase_ok_idle)
  next
    case (Inr es)
    with r have "fst (fetch_unpublished rp (kafka_batch_size c) (sh_db s)) = Inr es" by simp
    then have "set es \<subseteq> event_of_row ` set (outbox (sh_db s))"
      by (auto simp: fetch_unpublished_Inr_iff set_pending dest: in_set_takeD)
    then show ?thesis
      using step r d Fetching sh Inr by (auto simp: publisher_step_defs intro: phase_ok_next_event)
  qed
next
  case (Producing t e es)
  let ?s = "s\<lparr>sh_log := (sh_log s)(t := sh_log s t @ [kafka_record_of U (rp_span rp) (rp_utc rp) e])\<rparr>"
  have g: "grows s ?s" by (auto simp: grows_def)
  have sh': "shared_ok U ?s" by (rule shared_ok_log [OF sh]) auto
  have "phase_ok U ?s (Producing t e es)" using phase_ok_mono [OF g] ph Producing by simp
  then have "phase_ok U ?s (Marking e es)"
    by (auto simp: phase_ok.simps logged_def intro: exI [of _ "kafka_record_of U x y e" for x y])
  then show ?thesis
    using step Producing g sh sh'
    by (cases "rp_outcome rp") (auto simp: publisher_step_defs Let_def intro: phase_ok_idle)
next
  case (Marking e es)
  have dist: "distinct (map ob_id (outbox (sh_db s)))" using sh by (simp add: shared_ok_def)
  have e: "e \<in> event_of_row ` set (outbox (sh_db s))" "logged U (sh_log s) e"
    "set es \<subseteq> event_of_row ` set (outbox (sh_db s))"
    using ph Marking by (auto simp: phase_ok.simps)
  let ?s = "s\<lparr>sh_db := set_published (oe_id e) (rp_now rp) (sh_db s)\<rparr>"
  have rows: "event_of_row ` set (outbox (sh_db ?s)) = event_of_row ` set (outbox (sh_db s))"
    by simp
  have g: "grows s ?s" using rows by (simp add: grows_def)
  have sh': "shared_ok U ?s" by (rule shared_ok_set_published [OF sh e(1,2)])
  have next': "phase_ok U x (next_event (pub_topics p) es)" if "x = s \<or> x = ?s" for x
    by (rule phase_ok_next_event) (use that e(3) rows in auto)
  have "s' = s \<or> s' = ?s" "pub_phase p' = next_event (pub_topics p) es"
    using step Marking mark_published_db [OF dist, of rp "oe_id e"]
    by (auto simp: publisher_step_defs split: prod.splits if_splits)
  then show ?thesis using g sh sh' next' by auto
next
  case (Connecting t e es)
  then have "phase_ok U s (Producing t e es)" using ph by (simp add: phase_ok.simps)
  then show ?thesis
    using step sh Connecting by (auto simp: publisher_step_defs phase_ok_idle split: if_splits)
qed (use step sh in \<open>auto simp: publisher_step_defs phase_ok_idle split: if_splits\<close>)

definition sys_ok :: "uuid_lib \<Rightarrow> system \<Rightarrow> bool" where
  "sys_ok U s \<longleftrightarrow>
     shared_ok U (sys_shared s) \<and> (\<forall>i. phase_ok U (sys_shared s) (pub_phase (sys_pubs s i)))"

lemma sys_ok_step:
  assumes "sys_step U c s ev s'" and "sys_ok U s"
  shows "sys_ok U s'"
  using assms
proof (cases rule: sys_stepE)
  case (step i rp p sh)
  have "grows (sys_shared s) sh \<and> shared_ok U sh \<and> phase_ok U sh (pub_phase p)"
    by (rule publisher_step_ok) (use step assms(2) in \<open>auto simp: sys_ok_def\<close>)
  then show ?thesis
    using step assms(2) by (auto simp: sys_ok_def intro: phase_ok_mono)
next
  case (commit d)
  let ?s = "(sys_shared s)\<lparr>sh_db := d\<rparr>"
  from commit obtain new where new: "outbox d = outbox (sh_db (sys_shared s)) @ new"
    "\<forall>r \<in> set new. ob_published_at r = None" "distinct (map ob_id (outbox d))"
    by (auto simp: outbox_grows_def)
  then have "grows (sys_shared s) ?s" "shared_ok U ?s"
    using assms(2) by (auto simp: grows_def shared_ok_def sys_ok_def published_logged_def)
  then show ?thesis
    using commit assms(2) by (auto simp: sys_ok_def intro: phase_ok_mono)
next
  case (session_lost i)
  let ?s = "(sys_shared s)\<lparr>sh_lock := pg_session_closed i (sh_lock (sys_shared s))\<rparr>"
  have "grows (sys_shared s) ?s" "shared_ok U ?s"
    using assms(2) by (auto simp: grows_def shared_ok_def sys_ok_def published_logged_def)
  then show ?thesis
    using session_lost assms(2) by (auto simp: sys_ok_def intro: phase_ok_mono)
next
  case (cancel i)
  then show ?thesis using assms(2) by (auto simp: sys_ok_def Outbox.cancel_def)
qed

lemma started_ok:
  "distinct (map ob_id (outbox d)) \<Longrightarrow> published_logged U (sys_shared (started d log)) \<Longrightarrow>
     sys_ok U (started d log)"
  by (auto simp: sys_ok_def started_def shared_ok_def spawn_def phase_ok.simps)

lemma reach_ok: "reach U c P s0 s \<Longrightarrow> sys_ok U s0 \<Longrightarrow> sys_ok U s"
  by (induction rule: reach.induct) (auto intro: sys_ok_step)

section \<open>One leader\<close>

fun working :: "phase \<Rightarrow> bool" where
  "working Fetching \<longleftrightarrow> True"
| "working (Connecting t e es) \<longleftrightarrow> True"
| "working (Producing t e es) \<longleftrightarrow> True"
| "working (Marking e es) \<longleftrightarrow> True"
| "working _ \<longleftrightarrow> False"

definition lock_ok :: "system \<Rightarrow> bool" where
  "lock_ok s \<longleftrightarrow>
     (\<forall>i. working (pub_phase (sys_pubs s i)) \<and> pub_session_open (sys_pubs s i) \<longrightarrow>
        sh_lock (sys_shared s) = Some i)"

text \<open>A step never takes the lock from another session, and starts work only with the lock.\<close>

lemma publisher_step_lock:
  assumes "publisher_step U c i rp p s = (p', s')"
  shows "pub_session_open p' = pub_session_open p"
    and "sh_lock s = Some j \<Longrightarrow> sh_lock s' = Some j"
    and "working (pub_phase p') \<Longrightarrow> (working (pub_phase p) \<Longrightarrow> sh_lock s = Some i) \<Longrightarrow>
      sh_lock s' = Some i"
    and "sh_lock s' = sh_lock s \<or> sh_lock s' = Some i"
proof -
  obtain r h where r: "try_acquire_leader_lock rp (pub_session_open p) i (sh_lock s) = (r, h)"
    by fastforce
  have h: "r = Inr True \<Longrightarrow> h = Some i" "sh_lock s = Some j \<Longrightarrow> h = Some j"
    using r by (auto elim!: try_lock_cases dest: advisory_lock.granted
        intro: advisory_lock.acquire_keeps)
  have h': "h = sh_lock s \<or> h = Some i"
    using r by (auto elim!: try_lock_cases simp: pg_try_advisory_lock_def split: if_splits)
  have "pub_session_open p' = pub_session_open p \<and>
      (sh_lock s = Some j \<longrightarrow> sh_lock s' = Some j) \<and>
      (working (pub_phase p') \<longrightarrow> (working (pub_phase p) \<longrightarrow> sh_lock s = Some i) \<longrightarrow>
        sh_lock s' = Some i) \<and>
      (sh_lock s' = sh_lock s \<or> sh_lock s' = Some i)"
    using assms r h h'
    by (cases "pub_phase p")
      (auto simp: publisher_step_defs Let_def split: if_splits prod.splits sum.splits outcome.splits)
  then show "pub_session_open p' = pub_session_open p"
    and "sh_lock s = Some j \<Longrightarrow> sh_lock s' = Some j"
    and "working (pub_phase p') \<Longrightarrow> (working (pub_phase p) \<Longrightarrow> sh_lock s = Some i) \<Longrightarrow>
      sh_lock s' = Some i"
    and "sh_lock s' = sh_lock s \<or> sh_lock s' = Some i"
    by blast+
qed

lemma lock_ok_step:
  assumes "sys_step U c s ev s'" and "lock_ok s"
  shows "lock_ok s'"
  using assms
proof (cases rule: sys_stepE)
  case (step i rp p sh)
  note lock = publisher_step_lock [OF step(3)]
  have "sh_lock sh = Some j"
    if "working (pub_phase (sys_pubs s' j))" and "pub_session_open (sys_pubs s' j)" for j
  proof (cases "j = i")
    case True
    then show ?thesis using lock(1,3) that step(2) assms(2) by (auto simp: lock_ok_def)
  next
    case False
    then show ?thesis using lock(2) that step(2) assms(2) by (auto simp: lock_ok_def)
  qed
  then show ?thesis using step(2) by (simp add: lock_ok_def)
next
  case (cancel i)
  then show ?thesis using assms(2) by (auto simp: lock_ok_def Outbox.cancel_def)
qed (use assms(2) in \<open>auto simp: lock_ok_def intro: advisory_lock.close_keeps\<close>)

end
