(* ===== verification/Outbox_Exact.thy ===== *)
theory Outbox_Exact
  imports Outbox_Laws "HOL-Library.Multiset"
begin

text \<open>
  Exactly-once delivery while nothing fails between the append to the log and the mark: the
  balance between the log, the published rows and the one event that may be in between. Then the
  effect of one batch that is not disturbed.
\<close>

section \<open>The balance\<close>

definition kv_of :: "uuid_lib \<Rightarrow> outbox_event \<Rightarrow> bytes option \<times> bytes option" where
  "kv_of U e = (Some (as_bytes (uuid_to_string U (oe_aggregate_id e))), Some (oe_payload e))"

definition kv :: "kafka_record \<Rightarrow> bytes option \<times> bytes option" where
  "kv rec = (k_key rec, k_value rec)"

lemma kv_kafka_record_of [simp]: "kv (kafka_record_of U span now e) = kv_of U e"
  by (simp add: kv_def kv_of_def kafka_record_of_def)

lemma delivers_iff: "delivers U e rec \<longleftrightarrow> kv rec = kv_of U e"
  by (simp add: delivers_def kv_def kv_of_def)

definition routed_to :: "string \<Rightarrow> outbox_event \<Rightarrow> bool" where
  "routed_to t e \<longleftrightarrow> route_topic (oe_event_type e) = Inr t"

text \<open>Keys and values in the log of a topic, and those of the published rows with that topic.\<close>

definition log_kvs :: "string \<Rightarrow> shared \<Rightarrow> (bytes option \<times> bytes option) multiset" where
  "log_kvs t s = image_mset kv (mset (sh_log s t))"

definition published_kvs ::
    "uuid_lib \<Rightarrow> string \<Rightarrow> db \<Rightarrow> (bytes option \<times> bytes option) multiset" where
  "published_kvs U t d =
     image_mset (kv_of U) (mset (filter (routed_to t)
       (map event_of_row (filter (\<lambda>r. ob_published_at r \<noteq> None) (outbox d)))))"

fun flight :: "uuid_lib \<Rightarrow> string \<Rightarrow> phase \<Rightarrow> (bytes option \<times> bytes option) multiset" where
  "flight U t (Marking e es) = (if routed_to t e then {#kv_of U e#} else {#})"
| "flight U t _ = {#}"

definition fresh :: "db \<Rightarrow> outbox_event \<Rightarrow> bool" where
  "fresh d e \<longleftrightarrow> (\<exists>r \<in> set (outbox d). ob_published_at r = None \<and> event_of_row r = e)"

lemma flight_idle: "\<not> working ph \<Longrightarrow> flight U t ph = {#}"
  by (cases ph) simp_all

lemma flight_next_event [simp]: "flight U t (next_event ts es) = {#}"
  by (induction es) (auto split: sum.split)

lemma in_hand_idle: "\<not> working ph \<Longrightarrow> in_hand ph = []"
  by (cases ph) simp_all

lemma published_kvs_set_published:
  assumes "distinct (map ob_id (outbox d))" and "fresh d e"
  shows "published_kvs U t (set_published (oe_id e) now d) =
    published_kvs U t d + (if routed_to t e then {#kv_of U e#} else {#})"
proof -
  obtain r xs ys where r: "outbox d = xs @ r # ys" "ob_published_at r = None" "e = event_of_row r"
    using assms(2) by (auto simp: fresh_def dest: split_list)
  let ?P = "\<lambda>x. ob_id x = oe_id e" and ?f = "ob_published_at_update (\<lambda>_. Some now)"
  have "update_where ?P ?f xs = xs" "update_where ?P ?f ys = ys"
    using assms(1) r by (auto intro!: update_where_none simp: image_iff)
  then have "update_where ?P ?f (outbox d) = xs @ ?f r # ys"
    using r by (simp add: update_where_def)
  then show ?thesis
    using r by (simp add: published_kvs_def set_published_def)
qed

lemma fresh_set_published: "fresh d e \<Longrightarrow> oe_id e \<noteq> i \<Longrightarrow> fresh (set_published i now d) e"
  by (auto simp: fresh_def set_published_def update_where_def)

section \<open>A step without faults\<close>

definition fault_free :: "system \<Rightarrow> event \<Rightarrow> bool" where
  "fault_free s ev =
     (case ev of
        Step i rp \<Rightarrow>
          (case pub_phase (sys_pubs s i) of
             Producing _ _ _ \<Rightarrow> rp_outcome rp \<noteq> ReplyLost
           | Marking _ _ \<Rightarrow> mark_arrives rp
           | _ \<Rightarrow> True)
      | Session_Lost _ \<Rightarrow> False
      | _ \<Rightarrow> True)"

definition hand_ok :: "shared \<Rightarrow> phase \<Rightarrow> bool" where
  "hand_ok s ph \<longleftrightarrow> (\<forall>e \<in> set (in_hand ph). fresh (sh_db s) e) \<and> distinct (map oe_id (in_hand ph))"

lemma hand_ok_idle: "in_hand ph = [] \<Longrightarrow> hand_ok s ph"
  by (simp add: hand_ok_def)

lemma hand_ok_next_event:
  assumes "\<forall>e \<in> set es. fresh (sh_db s) e" and "distinct (map oe_id es)"
  shows "hand_ok s (next_event ts es)"
  using assms in_hand_next_event_subset [of ts es] next_event_distinct [of oe_id es ts]
  by (auto simp: hand_ok_def)

lemma fetched_hand_ok:
  assumes "fst (fetch_unpublished rp n d) = Inr es" and "distinct (map ob_id (outbox d))"
  shows "(\<forall>e \<in> set es. fresh d e) \<and> distinct (map oe_id es)"
proof -
  have es: "es = map event_of_row (take (nat n) (pending d))"
    using assms(1) by (simp add: fetch_unpublished_Inr_iff)
  have "distinct (map ob_id (take (nat n) (pending d)))"
    using distinct_pending [OF assms(2)] by (simp add: take_map distinct_take flip: take_map)
  then show ?thesis
    by (auto simp: es fresh_def comp_def dest!: in_set_takeD simp: set_pending)
qed

lemma publisher_step_exact:
  assumes step: "publisher_step U c i rp p s = (p', s')"
    and dist: "distinct (map ob_id (outbox (sh_db s)))"
    and hand: "hand_ok s (pub_phase p)" and routed: "phase_routed (pub_phase p)"
    and ok: "\<And>t e es. pub_phase p = Producing t e es \<Longrightarrow> rp_outcome rp \<noteq> ReplyLost"
      "\<And>e es. pub_phase p = Marking e es \<Longrightarrow> mark_arrives rp"
  shows "hand_ok s' (pub_phase p') \<and>
    log_kvs t s' + published_kvs U t (sh_db s) + flight U t (pub_phase p) =
    log_kvs t s + published_kvs U t (sh_db s') + flight U t (pub_phase p')"
proof (cases "pub_phase p")
  case Locking
  with step show ?thesis
    by (auto simp: publisher_step_defs hand_ok_idle log_kvs_def split: prod.splits)
next
  case Fetching
  obtain r d where r: "fetch_unpublished rp (kafka_batch_size c) (sh_db s) = (r, d)" by fastforce
  then have d: "d = sh_db s" using fetch_unpublished_db [of rp "kafka_batch_size c" "sh_db s"] by simp
  show ?thesis
  proof (cases r)
    case (Inl e)
    with step r d Fetching show ?thesis by (auto simp: publisher_step_defs hand_ok_idle)
  next
    case (Inr es)
    with r have "(\<forall>e \<in> set es. fresh (sh_db s) e) \<and> distinct (map oe_id es)"
      by (intro fetched_hand_ok [of rp "kafka_batch_size c"] dist) simp
    then show ?thesis
      using step r d Fetching Inr by (auto simp: publisher_step_defs intro: hand_ok_next_event)
  qed
next
  case (Connecting t e es)
  with step hand show ?thesis by (auto simp: publisher_step_defs hand_ok_def split: if_splits)
next
  case (Producing u e es)
  then have "routed_to t e \<longleftrightarrow> t = u" using routed by (auto simp: routed_to_def)
  with Producing step hand ok(1) show ?thesis
    by (cases "rp_outcome rp")
      (auto simp: publisher_step_defs Let_def hand_ok_def log_kvs_def)
next
  case (Marking e es)
  let ?d = "set_published (oe_id e) (rp_now rp) (sh_db s)"
  have e: "fresh (sh_db s) e" "\<forall>e' \<in> set es. fresh (sh_db s) e' \<and> oe_id e' \<noteq> oe_id e"
    "distinct (map oe_id es)"
    using hand Marking by (auto simp: hand_ok_def image_iff)
  have s': "s' = s\<lparr>sh_db := ?d\<rparr>" "pub_phase p' = next_event (pub_topics p) es"
    using step Marking ok(2) mark_published_db [OF dist, of rp "oe_id e"]
    by (auto simp: publisher_step_defs split: prod.splits)
  have "hand_ok s' (pub_phase p')"
    unfolding s' by (rule hand_ok_next_event) (use e in \<open>auto intro: fresh_set_published\<close>)
  then show ?thesis
    using Marking s' by (simp add: published_kvs_set_published [OF dist e(1)] log_kvs_def)
qed (use step in \<open>auto simp: publisher_step_defs hand_ok_idle split: if_splits\<close>)

section \<open>All replicas\<close>

definition in_flight ::
    "uuid_lib \<Rightarrow> string \<Rightarrow> system \<Rightarrow> (bytes option \<times> bytes option) multiset" where
  "in_flight U t s =
     (case sh_lock (sys_shared s) of None \<Rightarrow> {#} | Some i \<Rightarrow> flight U t (pub_phase (sys_pubs s i)))"

definition exact :: "uuid_lib \<Rightarrow> system \<Rightarrow> system \<Rightarrow> bool" where
  "exact U s0 s \<longleftrightarrow>
     sys_ok U s \<and> lock_ok s \<and> (\<forall>i. pub_session_open (sys_pubs s i)) \<and>
     (\<forall>i. hand_ok (sys_shared s) (pub_phase (sys_pubs s i))) \<and>
     (\<forall>t. log_kvs t (sys_shared s) + published_kvs U t (sh_db (sys_shared s0)) =
        log_kvs t (sys_shared s0) + published_kvs U t (sh_db (sys_shared s)) + in_flight U t s)"

lemma balance_step:
  fixes l l' :: "'a multiset"
  assumes "l + p0 = l0 + p + f" and "l' + p + g = l + p' + g'" and "f + g' = f' + g"
  shows "l' + p0 = l0 + p' + f'"
proof -
  have "(l' + p + g) + (l + p0) + (f + g') = (l + p' + g') + (l0 + p + f) + (f' + g)"
    by (simp only: assms)
  then have "(l' + p0) + (p + g + l + f + g') = (l0 + p' + f') + (p + g + l + f + g')"
    by (simp only: ac_simps)
  then show ?thesis by (simp only: add_right_cancel)
qed

lemma exact_Step:
  assumes st: "publisher_step U c i rp (sys_pubs s i) (sys_shared s) = (p, sh)"
    and ex: "exact U s0 s" and ff: "fault_free s (Step i rp)"
    and s': "s' = \<lparr>sys_pubs = (sys_pubs s)(i := p), sys_shared = sh\<rparr>"
    and next_ok: "sys_ok U s'" "lock_ok s'"
  shows "exact U s0 s'"
proof -
  note lock = publisher_step_lock [OF st]
  let ?ph = "\<lambda>j. pub_phase (sys_pubs s j)"
  have open': "pub_session_open (sys_pubs s' j)" for j using ex lock(1) s' by (simp add: exact_def)
  have holder: "working (?ph j) \<Longrightarrow> sh_lock (sys_shared s) = Some j" for j
    using ex by (simp add: exact_def lock_ok_def)
  have holder': "working (pub_phase p) \<Longrightarrow> sh_lock sh = Some i"
    using next_ok(2) open' [of i] s' by (auto simp: lock_ok_def)
  have step_ok: "hand_ok sh (pub_phase p) \<and>
      log_kvs t sh + published_kvs U t (sh_db (sys_shared s)) + flight U t (?ph i) =
      log_kvs t (sys_shared s) + published_kvs U t (sh_db sh) + flight U t (pub_phase p)" for t
    by (rule publisher_step_exact [OF st])
      (use ex ff in \<open>auto simp: exact_def sys_ok_def shared_ok_def phase_ok.simps fault_free_def\<close>)
  have hands: "hand_ok sh (pub_phase (sys_pubs s' j))" for j
  proof (cases "j = i \<or> \<not> working (?ph j)")
    case True
    then show ?thesis using step_ok s' by (auto intro: hand_ok_idle in_hand_idle)
  next
    case False
    then have "\<not> working (?ph i)" "j \<noteq> i" using holder [of i] holder [of j] by auto
    moreover have "sh_lock sh = Some j" using False holder lock(2) by blast
    then have "\<not> working (pub_phase p)" using holder' \<open>j \<noteq> i\<close> by auto
    ultimately have "sh_db sh = sh_db (sys_shared s)"
      using st by (cases "?ph i") (auto simp: publisher_step_defs split: if_splits prod.splits)
    then show ?thesis using ex \<open>j \<noteq> i\<close> s' by (auto simp: exact_def hand_ok_def)
  qed
  have moved: "in_flight U t s + flight U t (pub_phase p) = in_flight U t s' + flight U t (?ph i)" for t
  proof (cases "sh_lock (sys_shared s)")
    case None
    then have "flight U t (?ph i) = {#}" using holder by (intro flight_idle) auto
    moreover have "sh_lock sh = Some i \<or> flight U t (pub_phase p) = {#}"
      using holder' by (auto intro: flight_idle)
    moreover have "sh_lock sh = Some j \<Longrightarrow> j = i" for j using lock(4) None by simp
    ultimately show ?thesis using None s' by (auto simp: in_flight_def split: option.splits)
  next
    case (Some j)
    then have j: "sh_lock sh = Some j" by (rule lock(2))
    show ?thesis
    proof (cases "j = i")
      case True
      then show ?thesis using Some j s' by (simp add: in_flight_def)
    next
      case False
      then have "flight U t (?ph i) = {#}" "flight U t (pub_phase p) = {#}"
        using holder holder' Some j by (auto intro!: flight_idle)
      then show ?thesis using False Some j s' by (simp add: in_flight_def)
    qed
  qed
  have "log_kvs t sh + published_kvs U t (sh_db (sys_shared s0)) =
      log_kvs t (sys_shared s0) + published_kvs U t (sh_db sh) + in_flight U t s'" for t
    by (rule balance_step [OF _ conjunct2 [OF step_ok] moved]) (use ex in \<open>simp add: exact_def\<close>)
  then show ?thesis
    using next_ok open' hands s' by (simp add: exact_def)
qed

lemma published_kvs_grows:
  assumes "outbox_grows d d'"
  shows "published_kvs U t d' = published_kvs U t d"
proof -
  obtain new where new: "outbox d' = outbox d @ new" "\<forall>r \<in> set new. ob_published_at r = None"
    using assms by (auto simp: outbox_grows_def)
  then have "filter (\<lambda>r. ob_published_at r \<noteq> None) new = []" by (simp add: filter_empty_conv)
  then show ?thesis by (simp add: published_kvs_def new(1))
qed

lemma hand_ok_grows: "outbox_grows (sh_db s) d \<Longrightarrow> hand_ok s ph \<Longrightarrow> hand_ok (s\<lparr>sh_db := d\<rparr>) ph"
  by (fastforce simp: outbox_grows_def hand_ok_def fresh_def)

lemma in_flight_db [simp]:
  "in_flight U t (s\<lparr>sys_shared := (sys_shared s)\<lparr>sh_db := d\<rparr>\<rparr>) = in_flight U t s"
  by (simp add: in_flight_def split: option.split)

lemma exact_step:
  assumes st: "sys_step U c s ev s'" and ex: "exact U s0 s" and ff: "fault_free s ev"
  shows "exact U s0 s'"
proof -
  have ok: "sys_ok U s'" "lock_ok s'"
    using sys_ok_step [OF st] lock_ok_step [OF st] ex by (simp_all add: exact_def)
  from st show ?thesis
  proof (cases rule: sys_stepE)
    case (step i rp p sh)
    from exact_Step [OF step(3) ex _ step(2) ok] ff step(1) show ?thesis by simp
  next
    case (commit d)
    then show ?thesis
      using ex ok
      by (auto simp: exact_def published_kvs_grows log_kvs_def intro: hand_ok_grows)
  next
    case (session_lost i)
    with ff show ?thesis by (simp add: fault_free_def)
  next
    case (cancel i)
    then show ?thesis
      using ex ok by (auto simp: exact_def Outbox.cancel_def in_flight_def split: option.splits)
  qed
qed

lemma reach_exact: "reach U c fault_free s0 s \<Longrightarrow> exact U s0 s0 \<Longrightarrow> exact U s0 s"
  by (induction rule: reach.induct) (auto intro: exact_step)

lemma started_lock_ok: "lock_ok (started d log)"
  by (simp add: lock_ok_def started_def spawn_def)

lemma started_exact:
  assumes "distinct (map ob_id (outbox d))" and "published_logged U (sys_shared (started d log))"
  shows "exact U (started d log) (started d log)"
  using started_ok [OF assms] started_lock_ok
  by (simp add: exact_def started_def spawn_def hand_ok_def in_flight_def)

lemma flight_none: "\<forall>e es. ph \<noteq> Marking e es \<Longrightarrow> flight U t ph = {#}"
  by (cases ph) simp_all

lemma in_flight_none: "(\<And>i e es. pub_phase (sys_pubs s i) \<noteq> Marking e es) \<Longrightarrow> in_flight U t s = {#}"
  by (auto simp: in_flight_def flight_none split: option.split)

section \<open>One undisturbed batch\<close>

text \<open>Steps of one publisher alone, one per reply.\<close>

fun run_publisher ::
    "uuid_lib \<Rightarrow> kafka_config \<Rightarrow> nat \<Rightarrow> reply list \<Rightarrow> publisher \<times> shared \<Rightarrow> publisher \<times> shared" where
  "run_publisher U c me [] ps = ps"
| "run_publisher U c me (rp # rps) (p, s) = run_publisher U c me rps (publisher_step U c me rp p s)"

lemma run_publisher_append:
  "run_publisher U c me (rps @ rps') ps = run_publisher U c me rps' (run_publisher U c me rps ps)"
  by (induction U c me rps ps rule: run_publisher.induct) simp_all

definition routable :: "outbox_event \<Rightarrow> bool" where
  "routable e \<longleftrightarrow> oe_event_type e = ''auth_email''"

definition all_well :: "reply \<Rightarrow> bool" where
  "all_well rp \<longleftrightarrow> rp_outcome rp = Delivered \<and> rp_pool rp \<and> rp_timer rp"

lemma next_event_routable:
  assumes "''email.auth'' \<in> set ts"
  shows "next_event ts es = (case filter routable es of [] \<Rightarrow> Waiting
    | e # _ \<Rightarrow> Producing ''email.auth'' e (tl (dropWhile (\<lambda>x. \<not> routable x) es)))"
  using assms by (induction es) (auto simp: route_topic_def routable_def split: list.split)

lemma tl_dropWhile_filter: "filter P (tl (dropWhile (\<lambda>x. \<not> P x) es)) = tl (filter P es)"
  by (induction es) auto

text \<open>The rows of a list of events marked one after the other.\<close>

fun mark_all :: "(outbox_event \<times> instant) list \<Rightarrow> db \<Rightarrow> db" where
  "mark_all [] d = d"
| "mark_all ((e, now) # es) d = mark_all es (set_published (oe_id e) now d)"

lemma batch_run:
  assumes "''email.auth'' \<in> set (pub_topics p)" and "pub_phase p = next_event (pub_topics p) es"
    and "distinct (map ob_id (outbox (sh_db s)))"
    and "\<forall>rp \<in> set rps. all_well rp" and "length rps = 2 * length (filter routable es)"
  shows "\<exists>times log. run_publisher U c me rps (p, s) =
      (p\<lparr>pub_phase := Waiting\<rparr>,
       s\<lparr>sh_db := mark_all (zip (filter routable es) times) (sh_db s),
         sh_log := (sh_log s)(''email.auth'' := sh_log s ''email.auth'' @ log)\<rparr>) \<and>
     length times = length (filter routable es) \<and> map kv log = map (kv_of U) (filter routable es)"
  using assms
proof (induction "filter routable es" arbitrary: es p s rps)
  case Nil
  then have "pub_phase p = Waiting" by (simp add: next_event_routable)
  then have "p = p\<lparr>pub_phase := Waiting\<rparr>" by simp
  with Nil show ?case by (intro exI [of _ "[]"]) simp
next
  case (Cons e es')
  note fr = Cons.hyps(2) [symmetric]
  let ?rest = "tl (dropWhile (\<lambda>x. \<not> routable x) es)"
  have rest: "filter routable ?rest = es'" using fr by (simp add: tl_dropWhile_filter)
  have ph: "pub_phase p = Producing ''email.auth'' e ?rest"
    using Cons.prems(1,2) fr by (simp add: next_event_routable)
  obtain r1 r2 rps' where rps: "rps = r1 # r2 # rps'" "length rps' = 2 * length es'"
    using Cons.prems(5) fr by (auto simp: length_Suc_conv)
  have wells: "all_well r1" "all_well r2" "\<forall>rp \<in> set rps'. all_well rp" using Cons.prems(4) rps(1) by auto
  let ?k = "kafka_record_of U (rp_span r1) (rp_utc r1) e"
  let ?d = "set_published (oe_id e) (rp_now r2) (sh_db s)"
  let ?s1 = "s\<lparr>sh_log := (sh_log s)(''email.auth'' := sh_log s ''email.auth'' @ [?k])\<rparr>"
  let ?p2 = "p\<lparr>pub_phase := next_event (pub_topics p) ?rest\<rparr>"
  let ?s2 = "?s1\<lparr>sh_db := ?d\<rparr>"
  have "snd (mark_published r2 (oe_id e) (sh_db s)) = ?d"
    using mark_published_db [OF Cons.prems(3), of r2 "oe_id e"] wells(2)
    by (simp add: mark_arrives_def all_well_def)
  then have "publisher_step U c me r2 (p\<lparr>pub_phase := Marking e ?rest\<rparr>) ?s1 = (?p2, ?s2)"
    by (auto simp: publisher_step_defs split: prod.splits)
  then have "run_publisher U c me rps (p, s) = run_publisher U c me rps' (?p2, ?s2)"
    using wells(1) by (simp add: rps publisher_step_def [of U c me r1] produce_step_def ph Let_def all_well_def)
  moreover obtain times log where
    "run_publisher U c me rps' (?p2, ?s2) =
      (?p2\<lparr>pub_phase := Waiting\<rparr>,
       ?s2\<lparr>sh_db := mark_all (zip es' times) (sh_db ?s2),
         sh_log := (sh_log ?s2)(''email.auth'' := sh_log ?s2 ''email.auth'' @ log)\<rparr>)"
    "length times = length es'" "map kv log = map (kv_of U) es'"
    using Cons.hyps(1) [of ?rest ?p2 ?s2 rps'] rest Cons.prems(1,3) wells(3) rps(2) by auto
  ultimately show ?case
    unfolding fr by (intro exI [of _ "rp_now r2 # times"] exI [of _ "?k # log"]) simp
qed

end
