(* ===== verification/Validation.thy ===== *)
theory Validation
  imports Prelude
begin

text \<open>
  Input validation, \<open>services/identity/src/services/validation.rs\<close>. \<open>str::len()\<close> counts bytes; the
  error is the message the callers match on.
\<close>

section \<open>Validators\<close>

definition username_message :: string where
  "username_message = ''must be 1-64 characters, alphanumeric, underscore, or hyphen''"

definition validate_username :: "string \<Rightarrow> string + unit" where
  "validate_username username =
     (if username = [] \<or> length username > 64 then Inl username_message
      else if \<not> list_all (\<lambda>c. is_ascii_alphanumeric c \<or> c = CHR ''_'' \<or> c = CHR ''-'') username
      then Inl username_message
      else Inr ())"

definition validate_password :: "string \<Rightarrow> string + unit" where
  "validate_password password =
     (if length password < 8 then Inl ''must be at least 8 characters''
      else if length password > 128 then Inl ''must be at most 128 characters''
      else Inr ())"

definition validate_email :: "string \<Rightarrow> string + unit" where
  "validate_email email =
     (if length email < 3 \<or> length email > 254 \<or> \<not> str_contains ''@'' email
      then Inl ''invalid email address''
      else Inr ())"

section \<open>Laws\<close>

text \<open>The words a username is made of, and what each validator accepts.\<close>

definition username_char :: "char \<Rightarrow> bool" where
  "username_char c \<longleftrightarrow> is_ascii_alphanumeric c \<or> c = CHR ''_'' \<or> c = CHR ''-''"

lemma validate_username_iff:
  "validate_username u = Inr x \<longleftrightarrow> 1 \<le> length u \<and> length u \<le> 64 \<and> (\<forall>c \<in> set u. username_char c)"
  by (cases u) (auto simp: validate_username_def list_all_iff username_char_def)

lemma str_contains_single: "str_contains [c] s \<longleftrightarrow> c \<in> set s"
  by (induction s) auto

lemma validate_email_iff:
  "validate_email e = Inr x \<longleftrightarrow> 3 \<le> length e \<and> length e \<le> 254 \<and> CHR ''@'' \<in> set e"
  by (auto simp: validate_email_def str_contains_single)

lemma validate_password_iff: "validate_password p = Inr x \<longleftrightarrow> 8 \<le> length p \<and> length p \<le> 128"
  by (auto simp: validate_password_def)

text \<open>\<open>sign_up\<close> tells the two password errors apart by searching the message.\<close>

lemma validate_password_cases:
  "validate_password p = Inl m \<Longrightarrow> str_contains ''at least'' m \<longleftrightarrow> length p < 8"
proof -
  have "str_contains ''at least'' ''must be at least 8 characters''"
    and "\<not> str_contains ''at least'' ''must be at most 128 characters''"
    by code_simp+
  then show "validate_password p = Inl m \<Longrightarrow> str_contains ''at least'' m \<longleftrightarrow> length p < 8"
    by (auto simp: validate_password_def split: if_splits)
qed

end
