(* ===== verification/Registration.thy ===== *)
theory Registration
  imports Identity_Core Validation
begin

text \<open>
  Registration of the identity service: \<open>services/identity/src/services/sign_up.rs\<close>,
  \<open>verify_email.rs\<close> and \<open>resend_verification.rs\<close>.
\<close>

section \<open>Sign-up\<close>

definition TOKEN_EXPIRES_MINUTES :: int where
  "TOKEN_EXPIRES_MINUTES = 60"

datatype sign_up_error =
    SU_Db pg_error
  | SU_Pool
  | SU_Password password_error
  | SU_Crypto crypto_error
  | SU_Outbox outbox_error
  | UsernameTaken
  | EmailTaken
  | PasswordRequired
  | PasswordTooShort
  | PasswordTooLong
  | InvalidUsername
  | InvalidEmail

text \<open>The mail that carries a verification token.\<close>

definition verification_event ::
    "'kp libs \<Rightarrow> string \<Rightarrow> uuid \<Rightarrow> string \<Rightarrow> string \<Rightarrow> string option \<Rightarrow> string option \<Rightarrow> instant \<Rightarrow> string
      \<Rightarrow> auth_email_message" where
  "verification_event L web_base_url outbox_id email name trace_id span_id produced_at token_string =
     \<lparr>em_idempotency_key = uuid_to_string (l_uuid L) outbox_id,
      em_recipient_email = email,
      em_recipient_name = name,
      em_trace_id = unwrap_or_default trace_id,
      em_span_id = unwrap_or_default span_id,
      em_produced_at_ms = timestamp_millis produced_at,
      em_payload = Some (EmailVerification
        \<lparr>vm_verification_code = token_string,
         vm_verification_link = web_base_url @ ''/verify-email?token='' @ token_string,
         vm_expires_in_minutes = TOKEN_EXPIRES_MINUTES\<rparr>)\<rparr>"

fun insert_user_error :: "pg_error \<Rightarrow> sign_up_error" where
  "insert_user_error (Constraint c) =
     (if c = ''idx_users_username'' then UsernameTaken
      else if c = ''idx_users_email'' then EmailTaken
      else SU_Db (Constraint c))"
| "insert_user_error Other_Pg_Error = SU_Db Other_Pg_Error"

definition insert_user ::
    "'kp libs \<Rightarrow> env \<Rightarrow> client \<Rightarrow> uuid \<Rightarrow> string \<Rightarrow> string \<Rightarrow> string \<Rightarrow> string \<Rightarrow> string
      \<Rightarrow> (sign_up_error, unit) io" where
  "insert_user L V client i username email given_name family_name password_hash =
     andThen (mapErr insert_user_error (exec V client
       (sql_insert_user (l_lower L) i username email given_name family_name password_hash)))
       (\<lambda>_. ret ())"

definition sign_up_validate :: "string \<Rightarrow> string \<Rightarrow> string option \<Rightarrow> sign_up_error + string" where
  "sign_up_validate username email password0 =
     try_r (map_err (\<lambda>_. InvalidUsername) (validate_username username)) (\<lambda>_.
     try_r (map_err (\<lambda>_. InvalidEmail) (validate_email email)) (\<lambda>_.
     try_r (ok_or PasswordRequired password0) (\<lambda>password.
     try_r (map_err (\<lambda>e. if str_contains ''at least'' e then PasswordTooShort else PasswordTooLong)
       (validate_password password)) (\<lambda>_.
     Inr password))))"

definition hash_password_blocking ::
    "'kp libs \<Rightarrow> env \<Rightarrow> (password_error \<Rightarrow> 'e) \<Rightarrow> string \<Rightarrow> ('e, string) io" where
  "hash_password_blocking L V password_err password =
     spawn_blocking V (password_err HashingFailed)
       (andThen (ask (e_salt V)) (\<lambda>salt.
        pureR password_err (hash_password (l_password L) (l_feature L) salt password)))"

text \<open>Everything \<open>sign_up\<close> computes before it opens the transaction.\<close>

record registration =
  rg_user_id :: uuid
  rg_token_id :: uuid
  rg_outbox_id :: uuid
  rg_password_hash :: string
  rg_token_hash :: bytes
  rg_expires_at :: instant
  rg_payload :: bytes
  rg_trace_id :: "string option"
  rg_span_id :: "string option"

definition sign_up_prepare ::
    "'kp libs \<Rightarrow> env \<Rightarrow> string \<Rightarrow> string \<Rightarrow> string \<Rightarrow> string \<Rightarrow> string option \<Rightarrow> string
      \<Rightarrow> (sign_up_error, registration) io" where
  "sign_up_prepare L V username email given_name family_name password0 web_base_url =
     andThen (pureR (\<lambda>e. e) (sign_up_validate username email password0)) (\<lambda>password.
     andThen (hash_password_blocking L V SU_Password password) (\<lambda>password_hash.
     andThen (ask (e_uuid V)) (\<lambda>user_id.
     andThen (ask (e_uuid V)) (\<lambda>token_id.
     andThen (ask (e_uuid V)) (\<lambda>outbox_id.
     andThen (ask (\<lambda>t. e_rand V t 32)) (\<lambda>rnd.
     andThen (pureR SU_Crypto (generate_verification_token (l_b64 L) (l_sha256 L) rnd))
       (\<lambda>(token_string, token_hash_bytes).
     andThen (ask (e_utc V)) (\<lambda>now.
     andThen (extract_trace_context V) (\<lambda>(trace_id, span_id).
     andThen (ask (e_utc V)) (\<lambda>produced_at.
     let event = verification_event L web_base_url outbox_id email (given_name @ '' '' @ family_name)
           trace_id span_id produced_at token_string in
     andThen (pool_get V Primary SU_Pool) (\<lambda>client.
     ret \<lparr>rg_user_id = user_id, rg_token_id = token_id, rg_outbox_id = outbox_id,
          rg_password_hash = password_hash, rg_token_hash = token_hash_bytes,
          rg_expires_at = now + minutes TOKEN_EXPIRES_MINUTES, rg_payload = l_encode L event,
          rg_trace_id = trace_id, rg_span_id = span_id\<rparr>)))))))))))"

definition sign_up ::
    "'kp libs \<Rightarrow> env \<Rightarrow> string \<Rightarrow> string \<Rightarrow> string \<Rightarrow> string \<Rightarrow> string option \<Rightarrow> string
      \<Rightarrow> (sign_up_error, unit) io" where
  "sign_up L V username email given_name family_name password0 web_base_url =
     andThen (sign_up_prepare L V username email given_name family_name password0 web_base_url) (\<lambda>rg.
     transaction V SU_Db (\<lambda>tx.
       andThen (insert_user L V tx (rg_user_id rg) username email given_name family_name
         (rg_password_hash rg)) (\<lambda>_.
       andThen (mapErr SU_Db (insert_token V tx (rg_token_id rg) (rg_user_id rg) (rg_token_hash rg)
         (rg_expires_at rg))) (\<lambda>_.
       mapErr SU_Outbox (insert_event V tx (rg_outbox_id rg) ''user'' (rg_user_id rg) ''auth_email''
         (rg_payload rg) (rg_trace_id rg) (rg_span_id rg))))))"

section \<open>Email verification\<close>

datatype verify_email_error =
    VE_Db pg_error
  | VE_Pool
  | VE_InvalidToken
  | AlreadyConsumed
  | VE_UserNotFound
  | AlreadyVerified

definition get_token_by_hash :: "env \<Rightarrow> client \<Rightarrow> bytes \<Rightarrow> (verify_email_error, token_row option) io" where
  "get_token_by_hash V client token_hash = mapErr VE_Db (exec V client (sql_token_by_hash token_hash))"

definition consume_token :: "env \<Rightarrow> client \<Rightarrow> uuid \<Rightarrow> (verify_email_error, unit) io" where
  "consume_token V client token_id =
     andThen (mapErr VE_Db (exec V client (sql_consume_token token_id))) (\<lambda>rows_affected.
     if rows_affected = 0 then throw AlreadyConsumed else ret ())"

definition mark_email_verified :: "'kp libs \<Rightarrow> env \<Rightarrow> client \<Rightarrow> uuid \<Rightarrow> (verify_email_error, unit) io" where
  "mark_email_verified L V client user_id =
     andThen (mapErr VE_Db (exec V client
       (sql_mark_email_verified (l_lower L) (user_status_as_str Active) user_id))) (\<lambda>rows_affected.
     if rows_affected = 0 then throw VE_UserNotFound else ret ())"

definition verify_email :: "'kp libs \<Rightarrow> env \<Rightarrow> string \<Rightarrow> (verify_email_error, unit) io" where
  "verify_email L V raw_token =
     andThen (pureR (\<lambda>_. VE_InvalidToken) (hash_verification_token (l_b64 L) (l_sha256 L) raw_token))
       (\<lambda>token_hash_bytes.
     andThen (pool_get V Primary VE_Pool) (\<lambda>client.
     transaction V VE_Db (\<lambda>tx.
       andThen (get_token_by_hash V tx token_hash_bytes) (\<lambda>found.
       andThen (pureR (\<lambda>e. e) (ok_or VE_InvalidToken found)) (\<lambda>token_row.
       andThen (ask (e_utc V)) (\<lambda>now.
       if t_expires_at token_row < now then throw VE_InvalidToken
       else andThen (consume_token V tx (t_id token_row)) (\<lambda>_.
            mark_email_verified L V tx (t_user_id token_row))))))))"

section \<open>Resending the verification mail\<close>

definition MAX_TOKENS_PER_HOUR :: int where
  "MAX_TOKENS_PER_HOUR = 3"

datatype resend_error = RV_Db pg_error | RV_Pool | RV_Crypto crypto_error | RV_Outbox outbox_error | RateLimited

definition count_recent_tokens :: "env \<Rightarrow> client \<Rightarrow> uuid \<Rightarrow> (pg_error, int) io" where
  "count_recent_tokens V client user_id = exec V client (sql_count_recent_tokens user_id)"

text \<open>What is computed between the rate limit and the transaction.\<close>

record resending =
  rs_token_id :: uuid
  rs_outbox_id :: uuid
  rs_token_hash :: bytes
  rs_expires_at :: instant
  rs_payload :: bytes
  rs_trace_id :: "string option"
  rs_span_id :: "string option"

definition resend_prepare :: "'kp libs \<Rightarrow> env \<Rightarrow> user \<Rightarrow> string \<Rightarrow> (resend_error, resending) io" where
  "resend_prepare L V user web_base_url =
     andThen (ask (e_uuid V)) (\<lambda>token_id.
     andThen (ask (e_uuid V)) (\<lambda>outbox_id.
     andThen (ask (\<lambda>t. e_rand V t 32)) (\<lambda>rnd.
     andThen (pureR RV_Crypto (generate_verification_token (l_b64 L) (l_sha256 L) rnd))
       (\<lambda>(token_string, token_hash_bytes).
     andThen (ask (e_utc V)) (\<lambda>now.
     andThen (extract_trace_context V) (\<lambda>(trace_id, span_id).
     andThen (ask (e_utc V)) (\<lambda>produced_at.
     let event = verification_event L web_base_url outbox_id (usr_email user)
           (usr_given_name user @ '' '' @ usr_family_name user)
           trace_id span_id produced_at token_string in
     ret \<lparr>rs_token_id = token_id, rs_outbox_id = outbox_id, rs_token_hash = token_hash_bytes,
          rs_expires_at = now + minutes TOKEN_EXPIRES_MINUTES, rs_payload = l_encode L event,
          rs_trace_id = trace_id, rs_span_id = span_id\<rparr>)))))))"

definition resend_to_user ::
    "'kp libs \<Rightarrow> env \<Rightarrow> client \<Rightarrow> user \<Rightarrow> string \<Rightarrow> (resend_error, unit) io" where
  "resend_to_user L V client user web_base_url =
     andThen (mapErr RV_Db (count_recent_tokens V client (usr_id user))) (\<lambda>recent_count.
     if recent_count \<ge> MAX_TOKENS_PER_HOUR then throw RateLimited
     else
     andThen (resend_prepare L V user web_base_url) (\<lambda>rs.
     transaction V RV_Db (\<lambda>tx.
       andThen (mapErr RV_Db (insert_token V tx (rs_token_id rs) (usr_id user) (rs_token_hash rs)
         (rs_expires_at rs))) (\<lambda>_.
       mapErr RV_Outbox (insert_event V tx (rs_outbox_id rs) ''user'' (usr_id user) ''auth_email''
         (rs_payload rs) (rs_trace_id rs) (rs_span_id rs))))))"

definition resend_verification ::
    "'kp libs \<Rightarrow> env \<Rightarrow> string \<Rightarrow> string \<Rightarrow> (resend_error, unit) io" where
  "resend_verification L V email web_base_url =
     andThen (pool_get V Primary RV_Pool) (\<lambda>client.
     andThen (attempt (get_user_by_email L V client email)) (\<lambda>looked_up.
     case looked_up of
       Inl _ \<Rightarrow> ret ()
     | Inr found \<Rightarrow>
        (case found of
           None \<Rightarrow> ret ()
         | Some user \<Rightarrow>
             if usr_status user \<noteq> PendingVerification then ret ()
             else resend_to_user L V client user web_base_url)))"

section \<open>The invariant\<close>

context service_invariant
begin

lemma keeps_sign_up [db_keeps]:
  assumes "env_keeps I V"
  shows "io_keeps I (sign_up L V un em gn fn pw url)"
  unfolding sign_up_def sign_up_prepare_def hash_password_blocking_def insert_user_def
  by (intro db_keeps assms)

lemma keeps_verify_email [db_keeps]:
  assumes "env_keeps I V"
  shows "io_keeps I (verify_email L V tok)"
  unfolding verify_email_def get_token_by_hash_def consume_token_def mark_email_verified_def
  by (intro db_keeps assms valid_status_as_str)

lemma keeps_resend_verification [db_keeps]:
  assumes "env_keeps I V"
  shows "io_keeps I (resend_verification L V em url)"
  unfolding resend_verification_def resend_to_user_def resend_prepare_def count_recent_tokens_def
  by (intro db_keeps assms)

end

end
