(* ===== verification/Login_Auth.thy ===== *)
theory Login_Auth
  imports Identity_Core
begin

text \<open>
  Sessions of the identity service: \<open>services/identity/src/services/login.rs\<close>, \<open>auth.rs\<close> and
  \<open>user_info.rs\<close>. A \<open>tonic\<close> request is its message with the \<open>authorization\<close> metadata entry:
  absent, present but not readable as a string, or a string.
\<close>

section \<open>gRPC statuses\<close>

datatype grpc_code =
    InvalidArgument
  | NotFoundCode
  | AlreadyExists
  | PermissionDenied
  | ResourceExhausted
  | Internal
  | Unavailable
  | Unauthenticated
  | UnknownCode
  | OkCode
  | Cancelled
  | DeadlineExceeded
  | FailedPrecondition
  | Aborted
  | OutOfRange
  | Unimplemented
  | DataLoss

record status =
  st_code :: grpc_code
  st_message :: string

definition mk_status :: "grpc_code \<Rightarrow> string \<Rightarrow> status" where
  "mk_status c m = \<lparr>st_code = c, st_message = m\<rparr>"

record 'm request =
  rq_authorization :: "string option option"
  rq_message :: 'm

section \<open>Login\<close>

definition ACCESS_TOKEN_LIFETIME_SECS :: int where
  "ACCESS_TOKEN_LIFETIME_SECS = 900"

definition ID_TOKEN_LIFETIME_SECS :: int where
  "ID_TOKEN_LIFETIME_SECS = 900"

definition REFRESH_TOKEN_LIFETIME_DAYS :: int where
  "REFRESH_TOKEN_LIFETIME_DAYS = 7"

definition ISSUER :: string where
  "ISSUER = ''https://home.ryanseipp.com''"

definition API_AUDIENCE :: string where
  "API_AUDIENCE = ''https://api.home.ryanseipp.com''"

datatype login_error =
    LI_Db pg_error
  | LI_Pool
  | InvalidCredentials
  | AccountNotActive
  | LI_Crypto crypto_error
  | LI_Password password_error
  | NoSigningKey

record login_result =
  lr_access_token :: string
  lr_refresh_token :: string
  lr_id_token :: string
  lr_expires_at :: instant

text \<open>The \<open>as u64\<close> cast of a signed timestamp.\<close>

definition secs_u64 :: "instant \<Rightarrow> u64" where
  "secs_u64 t = word_of_int (timestamp t)"

definition access_claims :: "'kp libs \<Rightarrow> user \<Rightarrow> instant \<Rightarrow> uuid \<Rightarrow> claims" where
  "access_claims L user now jti =
     default_claims\<lparr>cl_iss := Some ISSUER,
       cl_sub := Some (uuid_to_string (l_uuid L) (usr_id user)),
       cl_aud := Some (Single API_AUDIENCE),
       cl_exp := Some (secs_u64 (now + seconds ACCESS_TOKEN_LIFETIME_SECS)),
       cl_nbf := Some (secs_u64 now),
       cl_iat := Some (secs_u64 now),
       cl_jti := Some (uuid_to_string (l_uuid L) jti)\<rparr>"

definition id_claims :: "'kp libs \<Rightarrow> user \<Rightarrow> instant \<Rightarrow> uuid \<Rightarrow> claims" where
  "id_claims L user now jti =
     default_claims\<lparr>cl_iss := Some ISSUER,
       cl_sub := Some (uuid_to_string (l_uuid L) (usr_id user)),
       cl_aud := Some (Single API_AUDIENCE),
       cl_exp := Some (secs_u64 (now + seconds ID_TOKEN_LIFETIME_SECS)),
       cl_nbf := Some (secs_u64 now),
       cl_iat := Some (secs_u64 now),
       cl_jti := Some (uuid_to_string (l_uuid L) jti),
       cl_name := Some (usr_given_name user @ '' '' @ usr_family_name user),
       cl_given_name := Some (usr_given_name user),
       cl_family_name := Some (usr_family_name user),
       cl_email := Some (usr_email user),
       cl_email_verified := Some (usr_email_verified user),
       cl_preferred_username := Some (usr_username user)\<rparr>"

definition insert_refresh_token ::
    "env \<Rightarrow> pool \<Rightarrow> uuid \<Rightarrow> uuid \<Rightarrow> bytes \<Rightarrow> instant \<Rightarrow> (login_error, unit) io" where
  "insert_refresh_token V pool i user_id token_hash expires_at =
     andThen (pool_get V pool LI_Pool) (\<lambda>client.
     andThen (mapErr LI_Db (exec V client (sql_insert_refresh_token i user_id token_hash expires_at)))
       (\<lambda>_. ret ()))"

text \<open>\<open>task::spawn_blocking(verify_password)\<close> with its two \<open>map_err\<close>s.\<close>

definition verify_password_blocking ::
    "'kp libs \<Rightarrow> env \<Rightarrow> (password_error \<Rightarrow> 'e) \<Rightarrow> 'e \<Rightarrow> string \<Rightarrow> string \<Rightarrow> ('e, unit) io" where
  "verify_password_blocking L V password_err mismatch password password_hash =
     spawn_blocking V (password_err VerificationFailed)
       (pureR (\<lambda>_. mismatch) (verify_password (l_password L) (l_feature L) password password_hash))"

definition issue_tokens ::
    "'kp libs \<Rightarrow> env \<Rightarrow> user \<Rightarrow> 'kp active_signing_key \<Rightarrow> (login_error, login_result) io" where
  "issue_tokens L V user signing_key =
     andThen (ask (e_utc V)) (\<lambda>now.
     let access_exp = now + seconds ACCESS_TOKEN_LIFETIME_SECS;
         refresh_exp = now + days REFRESH_TOKEN_LIFETIME_DAYS in
     andThen (ask (e_uuid V)) (\<lambda>jti1.
     andThen (ask (e_sign_rand V)) (\<lambda>rnd1.
     andThen (pureR LI_Crypto (sign_jwt (l_b64 L) (l_ecdsa L) (l_json L) rnd1
       (ask_algorithm signing_key) (ask_kid signing_key) (access_claims L user now jti1)
       (ask_key_pair signing_key))) (\<lambda>access_jwt.
     andThen (ask (e_uuid V)) (\<lambda>jti2.
     andThen (ask (e_sign_rand V)) (\<lambda>rnd2.
     andThen (pureR LI_Crypto (sign_jwt (l_b64 L) (l_ecdsa L) (l_json L) rnd2
       (ask_algorithm signing_key) (ask_kid signing_key) (id_claims L user now jti2)
       (ask_key_pair signing_key))) (\<lambda>id_jwt.
     andThen (ask (\<lambda>t. e_rand V t 32)) (\<lambda>rnd.
     andThen (pureR LI_Crypto (generate_verification_token (l_b64 L) (l_sha256 L) rnd))
       (\<lambda>(refresh_token_string, refresh_token_hash).
     andThen (ask (e_uuid V)) (\<lambda>refresh_token_id.
     andThen (insert_refresh_token V Primary refresh_token_id (usr_id user) refresh_token_hash
       refresh_exp) (\<lambda>_.
     ret \<lparr>lr_access_token = jwt_token access_jwt, lr_refresh_token = refresh_token_string,
          lr_id_token = jwt_token id_jwt, lr_expires_at = access_exp\<rparr>)))))))))))"

definition login :: "'kp libs \<Rightarrow> env \<Rightarrow> string \<Rightarrow> string \<Rightarrow> kek \<Rightarrow> (login_error, login_result) io" where
  "login L V email password kek =
     andThen (pool_get V Primary LI_Pool) (\<lambda>client.
     andThen (mapErr LI_Db (get_user_by_email L V client email)) (\<lambda>found.
     andThen (pureR (\<lambda>e. e) (ok_or InvalidCredentials found)) (\<lambda>user.
     andThen (verify_password_blocking L V LI_Password InvalidCredentials password
       (usr_password_hash user)) (\<lambda>_.
     if usr_status user \<noteq> Active then throw AccountNotActive
     else
     andThen (mapErr (\<lambda>_. NoSigningKey) (get_active_signing_key L V Primary kek)) (\<lambda>signing_key.
     issue_tokens L V user signing_key)))))"

section \<open>Authentication\<close>

definition extract_bearer_token :: "'m request \<Rightarrow> status + string" where
  "extract_bearer_token request =
     try_r (ok_or (mk_status Unauthenticated ''missing authorization header'') (rq_authorization request)) (\<lambda>v.
     try_r (ok_or (mk_status Unauthenticated ''invalid authorization header'') v) (\<lambda>value.
     ok_or (mk_status Unauthenticated ''invalid authorization scheme'') (strip_prefix ''Bearer '' value)))"

definition decode_jwt_header :: "'kp libs \<Rightarrow> string \<Rightarrow> status + jwt_header" where
  "decode_jwt_header L token =
     (let header_b64 = hd (split_on CHR ''.'' token)
      in try_r (ok_or (mk_status Unauthenticated ''malformed token'') (b64url_decode (l_b64 L) header_b64))
        (\<lambda>header_bytes.
         ok_or (mk_status Unauthenticated ''malformed token'') (header_from_slice (l_json L) header_bytes)))"

definition auth_options :: "u64 \<Rightarrow> verification_options" where
  "auth_options now = \<lparr>allowed_algorithms = [ES256, ES384], opt_issuer = Some ISSUER,
     opt_audience = Some API_AUDIENCE, current_time = now, leeway = 30\<rparr>"

definition authenticate :: "'kp libs \<Rightarrow> env \<Rightarrow> 'm request \<Rightarrow> pool \<Rightarrow> (status, uuid) io" where
  "authenticate L V request pool =
     andThen (pureR (\<lambda>e. e) (extract_bearer_token request)) (\<lambda>token.
     andThen (pureR (\<lambda>e. e) (decode_jwt_header L token)) (\<lambda>header.
     andThen (mapErr (\<lambda>_. mk_status Internal ''failed to load signing keys'') (list_public_jwks L V pool)) (\<lambda>jwks.
     andThen (pureR (\<lambda>e. e) (ok_or (mk_status Unauthenticated ''unknown signing key'')
       (List.find (\<lambda>k. jwk_kid k = hdr_kid header) jwks))) (\<lambda>jwk.
     andThen (ask (e_unix_time V)) (\<lambda>clock.
     andThen (pureR (\<lambda>e. e) (ok_or (mk_status Internal ''clock error'') clock)) (\<lambda>now.
     andThen (pureX (\<lambda>_. mk_status Unauthenticated ''invalid token'')
       (verify_jwt (l_checks L) (l_b64 L) (l_ecdsa L) (l_json L) token jwk (auth_options now))) (\<lambda>claims.
     andThen (pureR (\<lambda>e. e) (ok_or (mk_status Unauthenticated ''missing sub claim'') (cl_sub claims))) (\<lambda>sub.
     pureR (\<lambda>e. e) (ok_or (mk_status Unauthenticated ''invalid sub claim'')
       (uuid_parse (l_uuid L) sub))))))))))"

section \<open>User info\<close>

datatype user_info_error = UI_Db pg_error | UI_Pool | UI_NotFound

definition user_info :: "env \<Rightarrow> pool \<Rightarrow> uuid \<Rightarrow> (user_info_error, user) io" where
  "user_info V pool user_id =
     andThen (pool_get V pool UI_Pool) (\<lambda>client.
     andThen (mapErr UI_Db (get_user_by_id V client user_id)) (\<lambda>found.
     pureR (\<lambda>e. e) (ok_or UI_NotFound found)))"

section \<open>Laws\<close>

context account_invariant
begin

lemma keeps_login [db_keeps]:
  assumes "env_keeps I V"
  shows "io_keeps I (login L V em pw k)"
  unfolding login_def issue_tokens_def insert_refresh_token_def verify_password_blocking_def Let_def
  by (intro db_keeps assms)

lemma keeps_authenticate [db_keeps]:
  assumes "env_keeps I V"
  shows "io_keeps I (authenticate L V rq p)"
  unfolding authenticate_def by (intro db_keeps assms)

lemma keeps_user_info [db_keeps]:
  assumes "env_keeps I V"
  shows "io_keeps I (user_info V p i)"
  unfolding user_info_def by (intro db_keeps assms)

end

lemma bearer_iff:
  "extract_bearer_token rq = Inr t \<longleftrightarrow> rq_authorization rq = Some (Some (''Bearer '' @ t))"
  by (auto simp: extract_bearer_token_def strip_prefix_Some_iff)

end
