(* ===== verification/Account.thy ===== *)
theory Account
  imports Registration Login_Auth
begin

text \<open>
  Account changes of the identity service: \<open>services/identity/src/services/update_password.rs\<close>
  and \<open>update_profile.rs\<close>.
\<close>

section \<open>Password change\<close>

datatype update_password_error =
    UPW_Db pg_error
  | UPW_Pool
  | UPW_Password password_error
  | UPW_Outbox outbox_error
  | UPW_NotFound
  | InvalidCurrentPassword
  | InvalidNewPassword string

definition password_changed_event ::
    "'kp libs \<Rightarrow> uuid \<Rightarrow> user \<Rightarrow> string option \<Rightarrow> string option \<Rightarrow> instant \<Rightarrow> instant \<Rightarrow> auth_email_message" where
  "password_changed_event L outbox_id user trace_id span_id produced_at changed_at =
     \<lparr>em_idempotency_key = uuid_to_string (l_uuid L) outbox_id,
      em_recipient_email = usr_email user,
      em_recipient_name = usr_given_name user @ '' '' @ usr_family_name user,
      em_trace_id = unwrap_or_default trace_id,
      em_span_id = unwrap_or_default span_id,
      em_produced_at_ms = timestamp_millis produced_at,
      em_payload = Some (PasswordChanged
        \<lparr>pm_changed_at_ms = timestamp_millis changed_at, pm_change_ip = [], pm_change_location = []\<rparr>)\<rparr>"

definition update_password ::
    "'kp libs \<Rightarrow> env \<Rightarrow> uuid \<Rightarrow> string \<Rightarrow> string \<Rightarrow> (update_password_error, unit) io" where
  "update_password L V user_id current_password new_password =
     andThen (pureR InvalidNewPassword (validate_password new_password)) (\<lambda>_.
     andThen (pool_get V Primary UPW_Pool) (\<lambda>client.
     andThen (mapErr UPW_Db (get_user_by_id V client user_id)) (\<lambda>found.
     andThen (pureR (\<lambda>e. e) (ok_or UPW_NotFound found)) (\<lambda>user.
     andThen (verify_password_blocking L V UPW_Password InvalidCurrentPassword current_password
       (usr_password_hash user)) (\<lambda>_.
     andThen (hash_password_blocking L V UPW_Password new_password) (\<lambda>new_hash.
     andThen (extract_trace_context V) (\<lambda>(trace_id, span_id).
     andThen (ask (e_uuid V)) (\<lambda>outbox_id.
     andThen (ask (e_utc V)) (\<lambda>produced_at.
     andThen (ask (e_utc V)) (\<lambda>changed_at.
     let event = password_changed_event L outbox_id user trace_id span_id produced_at changed_at;
         payload = l_encode L event in
     andThen (pool_get V Primary UPW_Pool) (\<lambda>client2.
     transaction V UPW_Db (\<lambda>tx.
       andThen (mapErr UPW_Db (exec V tx (sql_update_password (l_lower L) user_id new_hash))) (\<lambda>_.
       mapErr UPW_Outbox (insert_event V tx outbox_id ''user'' user_id ''auth_email'' payload
         trace_id span_id))))))))))))))"

section \<open>Profile change\<close>

datatype update_profile_error =
    UPR_Db pg_error
  | UPR_Pool
  | NoFieldsProvided
  | UPR_InvalidUsername string
  | UPR_UsernameTaken

fun update_profile_db_error :: "pg_error \<Rightarrow> update_profile_error" where
  "update_profile_db_error (Constraint c) =
     (if c = ''idx_users_username'' then UPR_UsernameTaken else UPR_Db (Constraint c))"
| "update_profile_db_error Other_Pg_Error = UPR_Db Other_Pg_Error"

definition update_profile ::
    "'kp libs \<Rightarrow> env \<Rightarrow> uuid \<Rightarrow> string option \<Rightarrow> string option \<Rightarrow> string option
      \<Rightarrow> (update_profile_error, unit) io" where
  "update_profile L V user_id given_name family_name username =
     (if given_name = None \<and> family_name = None \<and> username = None then throw NoFieldsProvided
      else
      andThen (case username of
          Some u \<Rightarrow> pureR UPR_InvalidUsername (validate_username u)
        | None \<Rightarrow> ret ()) (\<lambda>_.
      andThen (pool_get V Primary UPR_Pool) (\<lambda>client.
      andThen (mapErr update_profile_db_error (exec V client
        (sql_update_profile (l_lower L) user_id given_name family_name username))) (\<lambda>_.
      ret ()))))"

section \<open>The invariant\<close>

context account_invariant
begin

lemma keeps_update_password [db_keeps]:
  assumes "env_keeps I V"
  shows "io_keeps I (update_password L V i cur new)"
  unfolding update_password_def verify_password_blocking_def hash_password_blocking_def Let_def
  by (intro db_keeps assms)

lemma keeps_update_profile [db_keeps]:
  assumes "env_keeps I V"
  shows "io_keeps I (update_profile L V i gn fn un)"
  unfolding update_profile_def by (intro db_keeps assms)

end

end
