(* ===== verification/Identity_Service.thy ===== *)
theory Identity_Service
  imports Account
begin

text \<open>
  The gRPC surface of the identity service, \<open>IdentityServiceImpl\<close> in
  \<open>services/identity/src/services/mod.rs\<close>: each handler runs its operation and maps the error to
  a status. \<open>serve\<close> dispatches a request to its handler, as the generated server does.
\<close>

section \<open>Messages\<close>

record sign_up_request =
  sur_username :: string
  sur_email :: string
  sur_given_name :: string
  sur_family_name :: string
  sur_password :: "string option"

record login_request =
  lrq_email :: string
  lrq_password :: string

record update_profile_request =
  upr_given_name :: "string option"
  upr_family_name :: "string option"
  upr_username :: "string option"

record update_password_request =
  upw_current_password :: string
  upw_new_password :: string

record proto_timestamp =
  ts_seconds :: int
  ts_nanos :: int

record login_response =
  lrs_access_token :: string
  lrs_refresh_token :: string
  lrs_id_token :: string
  lrs_expires_at :: "proto_timestamp option"

record user_info_response =
  uir_sub :: string
  uir_name :: string
  uir_given_name :: string
  uir_family_name :: string
  uir_username :: string
  uir_email :: string
  uir_email_verified :: bool
  uir_updated_at :: "proto_timestamp option"

datatype identity_request =
    SignUp "sign_up_request request"
  | Login "login_request request"
  | UserInfo "unit request"
  | VerifyEmail "string request"
  | ResendVerification "string request"
  | GetJwks "unit request"
  | UpdateProfile "update_profile_request request"
  | UpdatePassword "update_password_request request"

datatype identity_response =
    SignedUp
  | LoggedIn login_response
  | UserInfoIs user_info_response
  | EmailVerified
  | VerificationResent
  | Jwks string
  | ProfileUpdated
  | PasswordUpdated

section \<open>The service\<close>

text \<open>
  \<open>DatabasePool\<close>: the reader is the writer unless a replica is configured. The operations that
  write are always given \<open>writer()\<close>, which is the pool \<open>Primary\<close>.
\<close>

record 'p database_pool =
  dp_writer :: 'p
  dp_reader :: 'p

definition database_pool_from_pool :: "'p \<Rightarrow> 'p database_pool" where
  "database_pool_from_pool p = \<lparr>dp_writer = p, dp_reader = p\<rparr>"

definition database_pool_connect ::
    "('c \<Rightarrow> 'e + 'p) \<Rightarrow> 'c \<Rightarrow> 'c option \<Rightarrow> 'e + 'p database_pool" where
  "database_pool_connect build_pool db db_read =
     try_r (build_pool db) (\<lambda>writer.
     try_r (case db_read of Some read_cfg \<Rightarrow> build_pool read_cfg | None \<Rightarrow> Inr writer) (\<lambda>reader.
     Inr \<lparr>dp_writer = writer, dp_reader = reader\<rparr>))"

record identity_service =
  is_db :: "pool database_pool"
  is_web_base_url :: string
  is_kek :: kek

section \<open>Error mapping\<close>

fun sign_up_status :: "sign_up_error \<Rightarrow> status" where
  "sign_up_status UsernameTaken = mk_status AlreadyExists ''username already taken''"
| "sign_up_status EmailTaken = mk_status AlreadyExists ''email already taken''"
| "sign_up_status PasswordRequired = mk_status InvalidArgument ''password is required''"
| "sign_up_status PasswordTooShort = mk_status InvalidArgument ''password must be at least 8 characters''"
| "sign_up_status PasswordTooLong = mk_status InvalidArgument ''password must be at most 128 characters''"
| "sign_up_status InvalidUsername = mk_status InvalidArgument
     ''invalid username: must be 1-64 characters, alphanumeric, underscore, or hyphen''"
| "sign_up_status InvalidEmail = mk_status InvalidArgument ''invalid email address''"
| "sign_up_status _ = mk_status Internal ''internal error''"

fun login_status :: "login_error \<Rightarrow> status" where
  "login_status InvalidCredentials = mk_status Unauthenticated ''invalid credentials''"
| "login_status AccountNotActive = mk_status PermissionDenied ''account not active''"
| "login_status _ = mk_status Internal ''internal error''"

fun user_info_status :: "user_info_error \<Rightarrow> status" where
  "user_info_status UI_NotFound = mk_status NotFoundCode ''user not found''"
| "user_info_status _ = mk_status Internal ''internal error''"

fun verify_email_status :: "verify_email_error \<Rightarrow> status" where
  "verify_email_status VE_InvalidToken = mk_status NotFoundCode ''invalid or expired verification token''"
| "verify_email_status AlreadyConsumed = mk_status AlreadyExists ''token already consumed''"
| "verify_email_status VE_UserNotFound = mk_status NotFoundCode ''user not found''"
| "verify_email_status AlreadyVerified = mk_status AlreadyExists ''email already verified''"
| "verify_email_status _ = mk_status Internal ''internal error''"

fun resend_status :: "resend_error \<Rightarrow> status" where
  "resend_status RateLimited = mk_status ResourceExhausted ''too many verification requests, try again later''"
| "resend_status _ = mk_status Internal ''internal error''"

fun get_jwks_status :: "get_jwks_error \<Rightarrow> status" where
  "get_jwks_status (Jwks_Db _) = mk_status Internal ''database error''"
| "get_jwks_status Jwks_Pool = mk_status Internal ''pool error''"
| "get_jwks_status Jwks_Serialization = mk_status Internal ''serialization failed''"

fun update_profile_status :: "update_profile_error \<Rightarrow> status" where
  "update_profile_status NoFieldsProvided = mk_status InvalidArgument ''no fields provided''"
| "update_profile_status (UPR_InvalidUsername m) = mk_status InvalidArgument (''invalid username: '' @ m)"
| "update_profile_status UPR_UsernameTaken = mk_status AlreadyExists ''username already taken''"
| "update_profile_status _ = mk_status Internal ''internal error''"

fun update_password_status :: "update_password_error \<Rightarrow> status" where
  "update_password_status InvalidCurrentPassword = mk_status Unauthenticated ''invalid current password''"
| "update_password_status (InvalidNewPassword m) = mk_status InvalidArgument (''invalid new password: '' @ m)"
| "update_password_status UPW_NotFound = mk_status NotFoundCode ''user not found''"
| "update_password_status _ = mk_status Internal ''internal error''"

section \<open>Handlers\<close>

text \<open>The \<open>as i32\<close> cast of the nanoseconds.\<close>

definition proto_timestamp_of :: "instant \<Rightarrow> proto_timestamp" where
  "proto_timestamp_of t = \<lparr>ts_seconds = timestamp t,
     ts_nanos = sint (word_of_int (subsec_nanos t) :: 32 word)\<rparr>"

definition handle_sign_up ::
    "'kp libs \<Rightarrow> env \<Rightarrow> identity_service \<Rightarrow> sign_up_request request \<Rightarrow> (status, identity_response) io" where
  "handle_sign_up L V S request =
     (let req = rq_message request
      in andThen (mapErr sign_up_status (sign_up L V (sur_username req) (sur_email req)
           (sur_given_name req) (sur_family_name req) (sur_password req) (is_web_base_url S)))
           (\<lambda>_. ret SignedUp))"

definition handle_login ::
    "'kp libs \<Rightarrow> env \<Rightarrow> identity_service \<Rightarrow> login_request request \<Rightarrow> (status, identity_response) io" where
  "handle_login L V S request =
     (let req = rq_message request
      in andThen (mapErr login_status (login L V (lrq_email req) (lrq_password req) (is_kek S))) (\<lambda>result.
         ret (LoggedIn \<lparr>lrs_access_token = lr_access_token result,
           lrs_refresh_token = lr_refresh_token result, lrs_id_token = lr_id_token result,
           lrs_expires_at = Some (proto_timestamp_of (lr_expires_at result))\<rparr>)))"

definition handle_user_info ::
    "'kp libs \<Rightarrow> env \<Rightarrow> identity_service \<Rightarrow> unit request \<Rightarrow> (status, identity_response) io" where
  "handle_user_info L V S request =
     andThen (authenticate L V request (dp_reader (is_db S))) (\<lambda>user_id.
     andThen (mapErr user_info_status (user_info V (dp_reader (is_db S)) user_id)) (\<lambda>user.
     ret (UserInfoIs \<lparr>uir_sub = uuid_to_string (l_uuid L) (usr_id user),
       uir_name = usr_given_name user @ '' '' @ usr_family_name user,
       uir_given_name = usr_given_name user, uir_family_name = usr_family_name user,
       uir_username = usr_username user, uir_email = usr_email user,
       uir_email_verified = usr_email_verified user,
       uir_updated_at = Some (proto_timestamp_of (usr_updated_at user))\<rparr>)))"

definition handle_verify_email ::
    "'kp libs \<Rightarrow> env \<Rightarrow> identity_service \<Rightarrow> string request \<Rightarrow> (status, identity_response) io" where
  "handle_verify_email L V S request =
     andThen (mapErr verify_email_status (verify_email L V (rq_message request))) (\<lambda>_. ret EmailVerified)"

definition handle_resend_verification ::
    "'kp libs \<Rightarrow> env \<Rightarrow> identity_service \<Rightarrow> string request \<Rightarrow> (status, identity_response) io" where
  "handle_resend_verification L V S request =
     andThen (mapErr resend_status (resend_verification L V (rq_message request) (is_web_base_url S)))
       (\<lambda>_. ret VerificationResent)"

definition handle_get_jwks ::
    "'kp libs \<Rightarrow> env \<Rightarrow> identity_service \<Rightarrow> unit request \<Rightarrow> (status, identity_response) io" where
  "handle_get_jwks L V S request =
     andThen (mapErr get_jwks_status (get_jwks L V (dp_reader (is_db S)))) (\<lambda>json. ret (Jwks json))"

definition handle_update_profile ::
    "'kp libs \<Rightarrow> env \<Rightarrow> identity_service \<Rightarrow> update_profile_request request \<Rightarrow> (status, identity_response) io" where
  "handle_update_profile L V S request =
     andThen (authenticate L V request (dp_reader (is_db S))) (\<lambda>user_id.
     let req = rq_message request
     in andThen (mapErr update_profile_status (update_profile L V user_id (upr_given_name req)
          (upr_family_name req) (upr_username req))) (\<lambda>_. ret ProfileUpdated))"

definition handle_update_password ::
    "'kp libs \<Rightarrow> env \<Rightarrow> identity_service \<Rightarrow> update_password_request request \<Rightarrow> (status, identity_response) io" where
  "handle_update_password L V S request =
     andThen (authenticate L V request (dp_reader (is_db S))) (\<lambda>user_id.
     let req = rq_message request
     in andThen (mapErr update_password_status (update_password L V user_id
          (upw_current_password req) (upw_new_password req))) (\<lambda>_. ret PasswordUpdated))"

fun serve :: "'kp libs \<Rightarrow> env \<Rightarrow> identity_service \<Rightarrow> identity_request \<Rightarrow> (status, identity_response) io" where
  "serve L V S (SignUp r) = handle_sign_up L V S r"
| "serve L V S (Login r) = handle_login L V S r"
| "serve L V S (UserInfo r) = handle_user_info L V S r"
| "serve L V S (VerifyEmail r) = handle_verify_email L V S r"
| "serve L V S (ResendVerification r) = handle_resend_verification L V S r"
| "serve L V S (GetJwks r) = handle_get_jwks L V S r"
| "serve L V S (UpdateProfile r) = handle_update_profile L V S r"
| "serve L V S (UpdatePassword r) = handle_update_password L V S r"

section \<open>Servers that keep an invariant\<close>

text \<open>Requests served one after the other; a panicking handler only ends its own request.\<close>

fun serve_all :: "('rq \<Rightarrow> ('e, 'a) io) \<Rightarrow> 'rq list \<Rightarrow> world \<Rightarrow> ('e exit + 'a) list \<times> world" where
  "serve_all h [] w = ([], w)"
| "serve_all h (rq # rqs) w =
     (case h rq w of (r, w1) \<Rightarrow> (case serve_all h rqs w1 of (rs, w2) \<Rightarrow> (r # rs, w2)))"

locale invariant_server =
  fixes env_ok :: "'l \<Rightarrow> 's \<Rightarrow> env \<Rightarrow> bool"
    and I :: "'l \<Rightarrow> 's \<Rightarrow> db \<Rightarrow> bool"
    and handle :: "'l \<Rightarrow> env \<Rightarrow> 's \<Rightarrow> 'rq \<Rightarrow> ('e, 'a) io"
  assumes handle_keeps: "env_ok L S V \<Longrightarrow> io_keeps (I L S) (handle L V S rq)"
begin

lemma serve_all_keeps:
  assumes "env_ok L S V" and "I L S (w_db w)" and "serve_all (handle L V S) rqs w = (rs, w')"
  shows "I L S (w_db w')"
  using assms(2,3)
proof (induction rqs arbitrary: w rs)
  case (Cons rq rqs)
  obtain r w1 where r: "handle L V S rq w = (r, w1)" by (cases "handle L V S rq w")
  obtain rs' w2 where rs': "serve_all (handle L V S) rqs w1 = (rs', w2)"
    by (cases "serve_all (handle L V S) rqs w1")
  from Cons.prems r rs' have "w' = w2" by simp
  moreover have "I L S (w_db w1)"
    using io_keepsD [OF handle_keeps [OF assms(1)] Cons.prems(1) r] .
  ultimately show ?case using Cons.IH rs' by blast
qed simp

end

context account_invariant
begin

text \<open>What is left to show of the service are the three operations of registration.\<close>

lemma serve_keeps_with:
  assumes "env_keeps I V"
    and "\<And>un em gn fn pw. io_keeps I (sign_up L V un em gn fn pw (is_web_base_url S))"
    and "\<And>tok. io_keeps I (verify_email L V tok)"
    and "\<And>em. io_keeps I (resend_verification L V em (is_web_base_url S))"
  shows "io_keeps I (serve L V S rq)"
  by (cases rq; simp only: serve.simps handle_sign_up_def handle_login_def handle_user_info_def
      handle_verify_email_def handle_resend_verification_def handle_get_jwks_def
      handle_update_profile_def handle_update_password_def Let_def; intro db_keeps assms)

end

context service_invariant
begin

lemma serve_keeps:
  assumes "env_keeps I V"
  shows "io_keeps I (serve L V S rq)"
  by (intro serve_keeps_with db_keeps assms)

end

interpretation identity_server: invariant_server "\<lambda>L S. env_keeps (inv L)" "\<lambda>L S. inv L" serve
  by unfold_locales (rule constraints_kept.serve_keeps)

end
