(* ===== verification/Sample_Libs.thy ===== *)
theory Sample_Libs
  imports Kek Encryption Jwt
begin

text \<open>
  Small executable libraries that satisfy the contracts of the third-party packages: hexadecimal
  for base64, a cipher and a signature scheme whose tags are copies of the key, and a JSON codec
  that looks values up in a table. The witnesses evaluate the definitions on them; no law of the
  development depends on this theory.
\<close>

section \<open>base64 and UUIDs\<close>

definition hex_decode_opt :: "string \<Rightarrow> bytes option" where
  "hex_decode_opt s = (case decode_hex s of Inl e \<Rightarrow> None | Inr b \<Rightarrow> Some b)"

definition hex64 :: base64_lib where
  "hex64 = \<lparr>b64url_encode = hex_encode, b64url_decode = hex_decode_opt, b64_decode = hex_decode_opt\<rparr>"

lemma unat_of_char_byte: "unat (of_char c :: byte) = of_char c"
proof -
  have "(of_char c :: byte) = of_nat (of_char c)" by (simp only: of_nat_of_char)
  then show ?thesis by (simp add: unat_of_nat)
qed

lemma lower_digit_b64url_char: "is_lower_digit (of_char c) \<Longrightarrow> b64url_char c"
  by (auto simp: is_lower_digit_def b64url_char_def is_ascii_alphanumeric_def Let_def
      word_le_nat_alt unat_of_char_byte)

lemma hex64_ok: "base64_ok hex64"
  by (auto simp: base64_ok_def hex64_def hex_decode_opt_def decode_hex_encode list_all_iff
      intro!: lower_digit_b64url_char dest: hex_encode_chars)

definition sample_uuid :: uuid_lib where
  "sample_uuid = \<lparr>uuid_to_string = (\<lambda>u. replicate (unat u) CHR ''u''),
     uuid_parse = (\<lambda>s. Some (of_nat (length s)))\<rparr>"

lemma sample_uuid_ok: "uuid_ok sample_uuid"
  by (simp add: uuid_ok_def sample_uuid_def)

section \<open>Cipher\<close>

definition sample_aead :: aead_lib where
  "sample_aead = \<lparr>unbound_key_ok = (\<lambda>k. True),
     gcm_seal = (\<lambda>k n a p. Some (p @ take 16 k)),
     gcm_open = (\<lambda>k n a c. let m = length c - 16
        in if 16 \<le> length c \<and> drop m c = take 16 k then Some (take m c) else None)\<rparr>"

lemma sample_aead_ok: "aead_ok sample_aead"
proof -
  have "gcm_open sample_aead k n a c = Some p \<longleftrightarrow> c = p @ take 16 k" if "length k = 32" for k n a c p
  proof
    assume "gcm_open sample_aead k n a c = Some p"
    then show "c = p @ take 16 k"
      by (auto simp: sample_aead_def Let_def split: if_splits) (metis append_take_drop_id)
  next
    assume "c = p @ take 16 k"
    then show "gcm_open sample_aead k n a c = Some p"
      using that by (simp add: sample_aead_def Let_def)
  qed
  then show ?thesis
    by (auto simp: aead_ok_def sample_aead_def)
qed

section \<open>Signatures\<close>

definition sample_ecdsa :: "bytes ecdsa_lib" where
  "sample_ecdsa = \<lparr>key_from_pkcs8 = (\<lambda>alg der.
       let n = (case alg of ECDSA_P256_SHA256_FIXED_SIGNING \<Rightarrow> 32 | _ \<Rightarrow> 48)
       in if length der = 1 + 2 * n \<and> der ! 0 = 4 then Some der else None),
     public_key = (\<lambda>kp. kp),
     ecdsa_sign = (\<lambda>kp rnd msg. Some (take 4 kp)),
     ecdsa_verify = (\<lambda>alg pub msg sg. sg = take 4 pub)\<rparr>"

lemma sample_ecdsa_ok: "ecdsa_ok sample_ecdsa"
proof -
  have "length kp = 1 + 2 * coordinate_size alg \<and> kp ! 0 = 4"
    if "key_from_pkcs8 sample_ecdsa (signing_algorithm alg) der = Some kp" for alg der kp
    using that by (cases alg) (simp_all add: sample_ecdsa_def Let_def split: if_splits)
  moreover have "ecdsa_verify sample_ecdsa v (public_key sample_ecdsa kp) msg sg"
    if "ecdsa_sign sample_ecdsa kp rnd msg = Some sg" for v kp rnd msg sg
    using that by (simp add: sample_ecdsa_def)
  moreover have "public_key sample_ecdsa kp = kp" for kp
    by (simp add: sample_ecdsa_def)
  ultimately show ?thesis
    unfolding ecdsa_ok_def by metis
qed

definition sample_der :: bytes where
  "sample_der = 4 # replicate 64 7"

section \<open>JSON\<close>

fun position :: "'a \<Rightarrow> 'a list \<Rightarrow> nat option" where
  "position x [] = None"
| "position x (y # ys) = (if x = y then Some 0 else map_option Suc (position x ys))"

lemma position_nth: "position x ys = Some i \<Longrightarrow> i < length ys \<and> ys ! i = x"
  by (induction ys arbitrary: i) (auto split: if_splits)

definition table_to :: "'a list \<Rightarrow> 'a \<Rightarrow> bytes option" where
  "table_to xs x = (case position x xs of Some i \<Rightarrow> Some (replicate i 1) | None \<Rightarrow> None)"

definition table_from :: "'a list \<Rightarrow> bytes \<Rightarrow> 'a option" where
  "table_from xs bs = (if length bs < length xs then Some (xs ! length bs) else None)"

lemma table_from_to: "table_to xs x = Some b \<Longrightarrow> table_from xs b = Some x"
  using position_nth by (fastforce simp: table_to_def table_from_def split: option.splits)

definition table_json :: "jwt_header list \<Rightarrow> claims list \<Rightarrow> jwk list \<Rightarrow> json_lib" where
  "table_json hs cs ks = \<lparr>header_to_vec = table_to hs, header_from_slice = table_from hs,
     claims_to_vec = table_to cs, claims_from_slice = table_from cs,
     jwk_to_value = table_to ks, jwk_from_value = table_from ks,
     jwk_set_to_string = (\<lambda>s. Some (concat (map jwk_kid (jwk_keys s))))\<rparr>"

lemma table_json_ok: "json_ok (table_json hs cs ks)"
  by (simp add: json_ok_def table_json_def table_from_to)

text \<open>A total byte format for headers and claims (without custom entries): strings as marked
  characters, optional values behind a flag, numbers as their bits.\<close>

fun put_string :: "string \<Rightarrow> bytes" where
  "put_string [] = [0]"
| "put_string (c # s) = 1 # of_char c # put_string s"

fun get_string :: "bytes \<Rightarrow> string \<times> bytes" where
  "get_string (n # b # r) = (if n = 0 then ([], b # r) else apfst ((#) (char_of (unat b))) (get_string r))"
| "get_string r = ([], [])"

definition put_opt :: "('a \<Rightarrow> bytes) \<Rightarrow> 'a option \<Rightarrow> bytes" where
  "put_opt put x = (case x of None \<Rightarrow> [0] | Some a \<Rightarrow> 1 # put a)"

definition get_opt :: "(bytes \<Rightarrow> 'a \<times> bytes) \<Rightarrow> bytes \<Rightarrow> 'a option \<times> bytes" where
  "get_opt get r = (case r of [] \<Rightarrow> (None, []) | n # r' \<Rightarrow> if n = 0 then (None, r') else apfst Some (get r'))"

definition put_u64 :: "u64 \<Rightarrow> bytes" where
  "put_u64 w = map (\<lambda>i. of_bool (bit w i)) [0..<64]"

definition get_u64 :: "bytes \<Rightarrow> u64 \<times> bytes" where
  "get_u64 r = (horner_sum of_bool 2 (map (\<lambda>b. b = 1) (take 64 r)), drop 64 r)"

definition put_bool :: "bool \<Rightarrow> bytes" where
  "put_bool b = [of_bool b]"

definition get_bool :: "bytes \<Rightarrow> bool \<times> bytes" where
  "get_bool r = (case r of [] \<Rightarrow> (False, []) | n # r' \<Rightarrow> (n = 1, r'))"

primrec get_many :: "nat \<Rightarrow> bytes \<Rightarrow> string list \<times> bytes" where
  "get_many 0 r = ([], r)"
| "get_many (Suc n) r = (case get_string r of (s, r') \<Rightarrow> apfst ((#) s) (get_many n r'))"

fun put_audience :: "audience \<Rightarrow> bytes" where
  "put_audience (Single s) = 0 # put_string s"
| "put_audience (Multiple ss) = 1 # replicate (length ss) 1 @ 0 # concat (map put_string ss)"

definition get_audience :: "bytes \<Rightarrow> audience \<times> bytes" where
  "get_audience r = (case r of [] \<Rightarrow> (Single [], [])
     | n # r' \<Rightarrow> if n = 0 then apfst Single (get_string r')
         else let k = length (takeWhile (\<lambda>b. b = 1) r') in apfst Multiple (get_many k (drop (Suc k) r')))"

lemma get_put [simp]:
  "get_string (put_string s @ r) = (s, r)"
  "get_u64 (put_u64 w @ r) = (w, r)" "get_bool (put_bool b @ r) = (b, r)"
proof -
  show "get_string (put_string s @ r) = (s, r)"
  proof (induction s)
    case Nil
    show ?case by (cases r) simp_all
  next
    case (Cons c s)
    then show ?case by (simp add: unat_of_char_byte)
  qed
  have "map (\<lambda>b. b = 1) (put_u64 w) = map (bit w) [0..<64]" by (simp add: put_u64_def del: upt_rec_numeral)
  moreover have "length (put_u64 w) = 64" by (simp add: put_u64_def del: upt_rec_numeral)
  ultimately show "get_u64 (put_u64 w @ r) = (w, r)"
    by (simp add: get_u64_def horner_sum_bit_eq_take_bit take_bit_word_eq_self del: upt_rec_numeral)
  show "get_bool (put_bool b @ r) = (b, r)" by (simp add: get_bool_def put_bool_def)
qed

lemma get_put_opt [simp]:
  "(\<And>a. get (put a @ r) = (a, r)) \<Longrightarrow> get_opt get (put_opt put x @ r) = (x, r)"
  by (cases x) (simp_all add: get_opt_def put_opt_def)

lemma get_put_many [simp]: "get_many (length ss) (concat (map put_string ss) @ r) = (ss, r)"
  by (induction ss) simp_all

lemma get_put_audience [simp]: "get_audience (put_audience a @ r) = (a, r)"
proof (cases a)
  case (Multiple ss)
  have "takeWhile (\<lambda>b. b = 1) (replicate k 1 @ (0::byte) # q) = replicate k 1" for k q
    by (induction k) simp_all
  with Multiple show ?thesis by (simp add: get_audience_def Let_def)
qed (simp add: get_audience_def)

definition put_header :: "jwt_header \<Rightarrow> bytes" where
  "put_header h = put_string (hdr_alg h) @ put_string (hdr_typ h) @ put_string (hdr_kid h)"

definition get_header :: "bytes \<Rightarrow> jwt_header" where
  "get_header r = (case get_string r of (alg, r) \<Rightarrow> case get_string r of (typ, r) \<Rightarrow>
     \<lparr>hdr_alg = alg, hdr_typ = typ, hdr_kid = fst (get_string r)\<rparr>)"

definition put_claims :: "claims \<Rightarrow> bytes" where
  "put_claims c = put_opt put_string (cl_iss c) @ put_opt put_string (cl_sub c) @ put_opt put_audience (cl_aud c) @
     put_opt put_u64 (cl_exp c) @ put_opt put_u64 (cl_nbf c) @ put_opt put_u64 (cl_iat c) @
     put_opt put_string (cl_jti c) @ put_opt put_string (cl_name c) @ put_opt put_string (cl_given_name c) @
     put_opt put_string (cl_family_name c) @ put_opt put_string (cl_email c) @
     put_opt put_bool (cl_email_verified c) @ put_opt put_string (cl_preferred_username c)"

definition get_claims :: "bytes \<Rightarrow> claims" where
  "get_claims r = (case get_opt get_string r of (iss, r) \<Rightarrow> case get_opt get_string r of (sub, r) \<Rightarrow>
     case get_opt get_audience r of (aud, r) \<Rightarrow> case get_opt get_u64 r of (e, r) \<Rightarrow>
     case get_opt get_u64 r of (nbf, r) \<Rightarrow> case get_opt get_u64 r of (iat, r) \<Rightarrow>
     case get_opt get_string r of (jti, r) \<Rightarrow> case get_opt get_string r of (name, r) \<Rightarrow>
     case get_opt get_string r of (given, r) \<Rightarrow> case get_opt get_string r of (family, r) \<Rightarrow>
     case get_opt get_string r of (email, r) \<Rightarrow> case get_opt get_bool r of (verified, r) \<Rightarrow>
     \<lparr>cl_iss = iss, cl_sub = sub, cl_aud = aud, cl_exp = e, cl_nbf = nbf, cl_iat = iat, cl_jti = jti,
      cl_name = name, cl_given_name = given, cl_family_name = family, cl_email = email,
      cl_email_verified = verified, cl_preferred_username = fst (get_opt get_string r), cl_custom = []\<rparr>)"

lemma get_put_header: "get_header (put_header h) = h"
  using get_put(1) [of "hdr_kid h" "[]"] by (simp add: get_header_def put_header_def)

lemma get_put_claims: "get_claims (put_claims c) = c\<lparr>cl_custom := []\<rparr>"
  using get_put_opt [OF get_put(1), of "cl_preferred_username c" "[]"]
  by (cases c) (simp add: get_claims_def put_claims_def)

definition byte_json :: "jwk list \<Rightarrow> json_lib" where
  "byte_json ks = (table_json [] [] ks)\<lparr>
     header_to_vec := \<lambda>h. Some (put_header h), header_from_slice := \<lambda>b. Some (get_header b),
     claims_to_vec := \<lambda>c. Some (put_claims c), claims_from_slice := \<lambda>b. Some (get_claims b)\<rparr>"

lemma byte_json_ok: "json_ok (byte_json ks)"
  using table_json_ok [of "[]" "[]" ks]
  by (auto simp: json_ok_def byte_json_def get_put_header get_put_claims)

end
