(* ===== verification/Registration_Laws.thy ===== *)
theory Registration_Laws
  imports Registration
begin

text \<open>
  What registration does to the database: the rows a completed sign-up, verification or resend
  leaves behind, and that nothing else changes.
\<close>

section \<open>Preparation steps\<close>

lemma hash_password_blocking_Inr_iff:
  "hash_password_blocking L V f pw w = (Inr h, w') \<longleftrightarrow>
     e_join V (w_tick w) \<and>
     hash_password (l_password L) (l_feature L) (e_salt V (Suc (w_tick w))) pw = Inr h \<and>
     w' = w\<lparr>w_tick := Suc (Suc (w_tick w))\<rparr>"
  by (auto simp: hash_password_blocking_def io_Inr_iff)

lemma quiet_hash_password_blocking: "quiet (hash_password_blocking L V f pw)"
  unfolding hash_password_blocking_def by (intro quiet_intros)

lemma extract_trace_context_Inr_iff:
  "extract_trace_context V w = (Inr c, w') \<longleftrightarrow>
     c = (map_option fst (e_trace V (w_tick w)), map_option snd (e_trace V (w_tick w))) \<and>
     w' = w\<lparr>w_tick := Suc (w_tick w)\<rparr>"
  by (auto simp: extract_trace_context_def io_Inr_iff split: option.splits prod.splits)

lemma quiet_extract_trace_context: "quiet (extract_trace_context V)"
  unfolding extract_trace_context_def by (intro quiet_intros)

lemma quiet_sign_up_prepare: "quiet (sign_up_prepare L V un em gn fn pw url)"
  unfolding sign_up_prepare_def
  by (intro quiet_intros quiet_hash_password_blocking quiet_extract_trace_context)

lemma quiet_resend_prepare: "quiet (resend_prepare L V u url)"
  unfolding resend_prepare_def by (intro quiet_intros quiet_extract_trace_context)

text \<open>The mail and the stored digest stem from one token.\<close>

definition mails_token ::
    "'kp libs \<Rightarrow> string \<Rightarrow> uuid \<Rightarrow> string \<Rightarrow> string \<Rightarrow> bytes \<Rightarrow> bytes \<Rightarrow> bool" where
  "mails_token L url outbox_id email name token_hash payload \<longleftrightarrow>
     (\<exists>rnd tok tr sp at. generate_verification_token (l_b64 L) (l_sha256 L) rnd = Inr (tok, token_hash) \<and>
        payload = l_encode L (verification_event L url outbox_id email name tr sp at tok))"

lemma sign_up_prepare_Inr:
  assumes "sign_up_prepare L V un em gn fn pw0 url w = (Inr rg, w')"
  shows "w_db w' = w_db w"
    and "\<exists>pw salt. sign_up_validate un em pw0 = Inr pw \<and>
      hash_password (l_password L) (l_feature L) salt pw = Inr (rg_password_hash rg)"
    and "mails_token L url (rg_outbox_id rg) em (gn @ '' '' @ fn) (rg_token_hash rg) (rg_payload rg)"
    and "\<exists>t. rg_expires_at rg = e_utc V t + minutes 60"
proof -
  show "w_db w' = w_db w"
    using quietD [OF quiet_sign_up_prepare assms] .
  show "\<exists>pw salt. sign_up_validate un em pw0 = Inr pw \<and>
      hash_password (l_password L) (l_feature L) salt pw = Inr (rg_password_hash rg)"
    using assms by (auto simp: sign_up_prepare_def io_Inr_iff Let_def hash_password_blocking_Inr_iff
        extract_trace_context_Inr_iff split: prod.splits)
  show "mails_token L url (rg_outbox_id rg) em (gn @ '' '' @ fn) (rg_token_hash rg) (rg_payload rg)"
    unfolding mails_token_def
    using assms by (fastforce simp: sign_up_prepare_def io_Inr_iff Let_def hash_password_blocking_Inr_iff
        extract_trace_context_Inr_iff split: prod.splits)
  show "\<exists>t. rg_expires_at rg = e_utc V t + minutes 60"
    using assms by (auto simp: sign_up_prepare_def io_Inr_iff Let_def hash_password_blocking_Inr_iff
        extract_trace_context_Inr_iff TOKEN_EXPIRES_MINUTES_def split: prod.splits)
qed

lemma resend_prepare_Inr:
  assumes "resend_prepare L V u url w = (Inr rs, w')"
  shows "w_db w' = w_db w"
    and "mails_token L url (rs_outbox_id rs) (usr_email u) (usr_given_name u @ '' '' @ usr_family_name u)
      (rs_token_hash rs) (rs_payload rs)"
    and "\<exists>t. rs_expires_at rs = e_utc V t + minutes 60"
proof -
  show "w_db w' = w_db w"
    using quietD [OF quiet_resend_prepare assms] .
  show "mails_token L url (rs_outbox_id rs) (usr_email u) (usr_given_name u @ '' '' @ usr_family_name u)
      (rs_token_hash rs) (rs_payload rs)"
    unfolding mails_token_def
    using assms by (fastforce simp: resend_prepare_def io_Inr_iff Let_def
        extract_trace_context_Inr_iff split: prod.splits)
  show "\<exists>t. rs_expires_at rs = e_utc V t + minutes 60"
    using assms by (auto simp: resend_prepare_def io_Inr_iff Let_def
        extract_trace_context_Inr_iff TOKEN_EXPIRES_MINUTES_def split: prod.splits)
qed

section \<open>Sign-up\<close>

text \<open>The rows of a registration.\<close>

definition new_user :: "uuid \<Rightarrow> string \<Rightarrow> string \<Rightarrow> string \<Rightarrow> string \<Rightarrow> string \<Rightarrow> instant \<Rightarrow> user_row" where
  "new_user i un em gn fn ph now = \<lparr>u_id = i, u_username = un, u_email = em, u_given_name = gn,
     u_family_name = fn, u_password_hash = ph, u_email_verified = False,
     u_status = user_status_as_str PendingVerification, u_created_at = now, u_updated_at = now,
     u_deleted_at = None\<rparr>"

definition new_token :: "uuid \<Rightarrow> uuid \<Rightarrow> bytes \<Rightarrow> instant \<Rightarrow> instant \<Rightarrow> token_row" where
  "new_token i uid h expires now = \<lparr>t_id = i, t_user_id = uid, t_token_hash = h,
     t_expires_at = expires, t_consumed_at = None, t_created_at = now\<rparr>"

definition new_event :: "uuid \<Rightarrow> uuid \<Rightarrow> bytes \<Rightarrow> string option \<Rightarrow> string option \<Rightarrow> instant \<Rightarrow> outbox_row" where
  "new_event i uid payload tr sp now = \<lparr>ob_id = i, ob_aggregate_type = ''user'',
     ob_aggregate_id = uid, ob_event_type = ''auth_email'', ob_payload = payload,
     ob_trace_id = tr, ob_span_id = sp, ob_created_at = now, ob_published_at = None\<rparr>"

definition add_rows :: "user_row list \<Rightarrow> token_row list \<Rightarrow> outbox_row list \<Rightarrow> db \<Rightarrow> db" where
  "add_rows us ts os d = d\<lparr>users := users d @ us, tokens := tokens d @ ts, outbox := outbox d @ os\<rparr>"

lemma insert_token_tx_Inr_iff:
  "insert_token V (Tx now) i uid h e w = (Inr x, w') \<longleftrightarrow>
     e_stmt V (w_tick w) = Delivered \<and>
     tokens_violation (users (w_db w)) (tokens (w_db w) @ [new_token i uid h e now]) = None \<and>
     w' = \<lparr>w_db = add_rows [] [new_token i uid h e now] [] (w_db w), w_tick = Suc (w_tick w)\<rparr>"
  by (auto simp: insert_token_def io_Inr_iff exec_Inr_iff sql_insert_token_def Let_def add_rows_def
      new_token_def)

lemma insert_event_tx_Inr_iff:
  "insert_event V (Tx now) i ''user'' uid ''auth_email'' p tr sp w = (Inr x, w') \<longleftrightarrow>
     e_stmt V (w_tick w) = Delivered \<and>
     outbox_violation (outbox (w_db w) @ [new_event i uid p tr sp now]) = None \<and>
     w' = \<lparr>w_db = add_rows [] [] [new_event i uid p tr sp now] (w_db w), w_tick = Suc (w_tick w)\<rparr>"
  by (auto simp: insert_event_def io_Inr_iff exec_Inr_iff sql_insert_event_def Let_def add_rows_def
      new_event_def)

lemma insert_user_tx_Inr_iff:
  "insert_user L V (Tx now) i un em gn fn ph w = (Inr x, w') \<longleftrightarrow>
     e_stmt V (w_tick w) = Delivered \<and>
     users_violation (l_lower L) (users (w_db w) @ [new_user i un em gn fn ph now]) = None \<and>
     w' = \<lparr>w_db = add_rows [new_user i un em gn fn ph now] [] [] (w_db w), w_tick = Suc (w_tick w)\<rparr>"
  by (auto simp: insert_user_def io_Inr_iff exec_Inr_iff sql_insert_user_def Let_def add_rows_def
      new_user_def)

lemma add_rows_add_rows: "add_rows us ts os (add_rows us' ts' os' d) = add_rows (us' @ us) (ts' @ ts) (os' @ os) d"
  by (simp add: add_rows_def)

lemma add_rows_simps [simp]:
  "users (add_rows us ts os d) = users d @ us"
  "tokens (add_rows us ts os d) = tokens d @ ts"
  "outbox (add_rows us ts os d) = outbox d @ os"
  "refresh_tokens (add_rows us ts os d) = refresh_tokens d"
  "signing_keys (add_rows us ts os d) = signing_keys d"
  by (simp_all add: add_rows_def)

text \<open>\<open>d'\<close> is \<open>d\<close> with the rows of a registration of these inputs.\<close>

definition registered ::
    "'kp libs \<Rightarrow> env \<Rightarrow> string \<Rightarrow> string \<Rightarrow> string \<Rightarrow> string \<Rightarrow> string option \<Rightarrow> string \<Rightarrow> db \<Rightarrow> db \<Rightarrow> bool" where
  "registered L V un em gn fn pw0 url d d' \<longleftrightarrow>
     (\<exists>uid ph tid h oid payload tr sp t now pw salt.
        sign_up_validate un em pw0 = Inr pw \<and>
        hash_password (l_password L) (l_feature L) salt pw = Inr ph \<and>
        mails_token L url oid em (gn @ '' '' @ fn) h payload \<and>
        users_violation (l_lower L) (users d @ [new_user uid un em gn fn ph now]) = None \<and>
        d' = add_rows [new_user uid un em gn fn ph now] [new_token tid uid h (e_utc V t + minutes 60) now]
               [new_event oid uid payload tr sp now] d)"

lemma sign_up_result:
  assumes "sign_up L V un em gn fn pw0 url w = (r, w')"
  shows "(\<exists>x. r = Inl x) \<and> w_db w' = w_db w \<or>
    (\<exists>t. (\<exists>x. r = Inl x) \<and> w_db w' = e_others V t (w_db w) \<or>
      (r = Inr () \<or> r = Inl (Err (SU_Db Other_Pg_Error))) \<and>
      registered L V un em gn fn pw0 url (e_others V t (w_db w)) (w_db w'))"
  using assms unfolding sign_up_def
proof (cases rule: quiet_step [OF _ quiet_sign_up_prepare, consumes 1, case_names stop go])
  case (go rg w2)
  note prep = sign_up_prepare_Inr [OF go(1)]
  let ?body = "\<lambda>tx. andThen (insert_user L V tx (rg_user_id rg) un em gn fn (rg_password_hash rg)) (\<lambda>_.
    andThen (mapErr SU_Db (insert_token V tx (rg_token_id rg) (rg_user_id rg) (rg_token_hash rg) (rg_expires_at rg))) (\<lambda>_.
    mapErr SU_Outbox (insert_event V tx (rg_outbox_id rg) ''user'' (rg_user_id rg) ''auth_email''
      (rg_payload rg) (rg_trace_id rg) (rg_span_id rg))))"
  let ?d0 = "e_others V (w_tick w2) (w_db w)"
  have body: "registered L V un em gn fn pw0 url ?d0 (w_db w1)"
    if "?body (Tx now) \<lparr>w_db = ?d0, w_tick = tk\<rparr> = (Inr x, w1)" for now tk x w1
    using that prep(2-4) unfolding registered_def
    by (fastforce simp: io_Inr_iff insert_user_tx_Inr_iff insert_token_tx_Inr_iff
        insert_event_tx_Inr_iff add_rows_add_rows)
  show ?thesis
  proof (cases r)
    case (Inl x)
    with go(3) have "transaction V SU_Db ?body w2 = (Inl x, w')" by simp
    from transaction_Inl [OF this] body go(2) Inl show ?thesis by fastforce
  next
    case (Inr u)
    with go(3) have "transaction V SU_Db ?body w2 = (Inr u, w')" by simp
    then have "registered L V un em gn fn pw0 url ?d0 (w_db w')"
      using body go(2) by (auto simp: transaction_Inr_iff)
    with Inr show ?thesis by auto
  qed
qed auto

section \<open>Email verification\<close>

text \<open>\<open>calm V\<close>: connections and statements succeed and no other client interferes.\<close>

definition calm :: "env \<Rightarrow> bool" where
  "calm V \<longleftrightarrow> (\<forall>t. e_pool V t \<and> e_stmt V t = Delivered \<and> e_join V t \<and>
     (\<forall>d. e_others V t d = d \<and> e_replica V t d = d))"

lemma calmD:
  assumes "calm V"
  shows "e_pool V t" "e_stmt V t = Delivered" "e_join V t" "e_others V t d = d" "e_replica V t d = d"
  using assms by (auto simp: calm_def)

lemma calm_keeps: "calm V \<Longrightarrow> env_keeps I V"
  by (simp add: calm_def env_keeps_def)

definition consume_row :: "instant \<Rightarrow> token_row \<Rightarrow> token_row" where
  "consume_row now t = t\<lparr>t_consumed_at := Some now\<rparr>"

definition activate_row :: "instant \<Rightarrow> user_row \<Rightarrow> user_row" where
  "activate_row now u = u\<lparr>u_email_verified := True, u_status := user_status_as_str Active, u_updated_at := now\<rparr>"

text \<open>The database after the token \<open>tk\<close> was used.\<close>

definition verified :: "token_row \<Rightarrow> instant \<Rightarrow> db \<Rightarrow> db" where
  "verified tk now d = d\<lparr>
     tokens := map (\<lambda>t. if t = tk then consume_row now t else t) (tokens d),
     users := map (\<lambda>u. if u_id u = t_user_id tk \<and> live u then activate_row now u else u) (users d)\<rparr>"

text \<open>The token can be used at \<open>utc\<close>.\<close>

definition usable :: "token_row \<Rightarrow> bytes \<Rightarrow> instant \<Rightarrow> db \<Rightarrow> bool" where
  "usable tk h utc d \<longleftrightarrow> tk \<in> set (tokens d) \<and> t_consumed_at tk = None \<and> t_token_hash tk = h \<and>
     utc \<le> t_expires_at tk \<and> (\<exists>u \<in> set (users d). live u \<and> u_id u = t_user_id tk)"

lemma distinct_map_inj: "distinct (map f xs) \<Longrightarrow> x \<in> set xs \<Longrightarrow> y \<in> set xs \<Longrightarrow> f x = f y \<longleftrightarrow> x = y"
  by (metis distinct_map inj_on_eq_iff)

lemma consume_by_id:
  assumes "db_inv low d" and "tk \<in> set (tokens d)" and "t_consumed_at tk = None"
  shows "update_where (\<lambda>t. t_id t = t_id tk \<and> t_consumed_at t = None) (\<lambda>t. t\<lparr>t_consumed_at := Some now\<rparr>) (tokens d)
      = map (\<lambda>t. if t = tk then consume_row now t else t) (tokens d)"
    and "affected (\<lambda>t. t_id t = t_id tk \<and> t_consumed_at t = None) (tokens d) \<noteq> 0"
proof -
  have "t_id t = t_id tk \<and> t_consumed_at t = None \<longleftrightarrow> t = tk" if "t \<in> set (tokens d)" for t
    using distinct_map_inj [OF db_inv_unique(4) [OF assms(1)] that assms(2)] assms(3) by auto
  then show "update_where (\<lambda>t. t_id t = t_id tk \<and> t_consumed_at t = None) (\<lambda>t. t\<lparr>t_consumed_at := Some now\<rparr>) (tokens d)
      = map (\<lambda>t. if t = tk then consume_row now t else t) (tokens d)"
    by (simp add: update_where_def consume_row_def)
  show "affected (\<lambda>t. t_id t = t_id tk \<and> t_consumed_at t = None) (tokens d) \<noteq> 0"
    using assms(2,3) by (auto simp: affected_zero_iff)
qed

lemma tokens_violation_consume:
  assumes "tokens_violation us ts = None"
  shows "tokens_violation us (map (\<lambda>t. if P t then consume_row now t else t) ts) = None"
proof -
  let ?ts = "map (\<lambda>t. if P t then consume_row now t else t) ts"
  have "map t_id ?ts = map t_id ts" by (simp add: consume_row_def)
  moreover have "t_user_id ` set ?ts = t_user_id ` set ts" by (induction ts) (auto simp: consume_row_def)
  moreover have "map t_token_hash (filter (\<lambda>t. t_consumed_at t = None) ?ts) =
      map t_token_hash (filter (\<lambda>t. \<not> P t) (filter (\<lambda>t. t_consumed_at t = None) ts))"
    by (induction ts) (auto simp: consume_row_def)
  moreover have "distinct (map t_id ts)" "t_user_id ` set ts \<subseteq> u_id ` set us"
    "distinct (map t_token_hash (filter (\<lambda>t. t_consumed_at t = None) ts))"
    using assms by (auto simp: tokens_violation_def split: if_splits)
  ultimately show ?thesis
    unfolding tokens_violation_def
    using distinct_map_filter [of t_token_hash "filter (\<lambda>t. t_consumed_at t = None) ts"]
    by (simp only: not_True_eq_False if_False simp_thms)
qed

lemma users_violation_update:
  assumes "\<And>u. u_id (f u) = u_id u" "\<And>u. u_username (f u) = u_username u"
    "\<And>u. u_email (f u) = u_email u" "\<And>u. u_deleted_at (f u) = u_deleted_at u"
  shows "users_violation low (update_where P f us) = users_violation low us"
proof -
  have "map u_id (update_where P f us) = map u_id us"
    using assms by (simp add: map_update_where)
  moreover have "map (low \<circ> u_username) (filter live (update_where P f us)) = map (low \<circ> u_username) (filter live us)"
    by (induction us) (auto simp: update_where_def live_def assms)
  moreover have "map (low \<circ> u_email) (filter live (update_where P f us)) = map (low \<circ> u_email) (filter live us)"
    by (induction us) (auto simp: update_where_def live_def assms)
  ultimately show ?thesis by (simp add: users_violation_def)
qed

lemma consume_token_tx:
  assumes "db_inv low (w_db w)" and "tk \<in> set (tokens (w_db w))" and "t_consumed_at tk = None"
  shows "consume_token V (Tx now) (t_id tk) w = (Inr (), w') \<longleftrightarrow>
    e_stmt V (w_tick w) = Delivered \<and>
    w' = \<lparr>w_db = (w_db w)\<lparr>tokens := map (\<lambda>t. if t = tk then consume_row now t else t) (tokens (w_db w))\<rparr>,
          w_tick = Suc (w_tick w)\<rparr>"
proof -
  have "tokens_violation (users (w_db w)) (tokens (w_db w)) = None"
    using assms(1) by (simp add: db_inv_def)
  then show ?thesis
    using consume_by_id [OF assms] tokens_violation_consume
    by (auto simp: consume_token_def io_Inr_iff exec_Inr_iff sql_consume_token_def Let_def split: if_splits)
qed

lemma mark_email_verified_tx:
  assumes "users_violation (l_lower L) (users (w_db w)) = None"
  shows "mark_email_verified L V (Tx now) uid w = (Inr (), w') \<longleftrightarrow>
    e_stmt V (w_tick w) = Delivered \<and> (\<exists>u \<in> set (users (w_db w)). live u \<and> u_id u = uid) \<and>
    w' = \<lparr>w_db = (w_db w)\<lparr>users := map (\<lambda>u. if u_id u = uid \<and> live u then activate_row now u else u)
           (users (w_db w))\<rparr>, w_tick = Suc (w_tick w)\<rparr>"
proof -
  have "users_violation (l_lower L) (update_where (\<lambda>u. u_id u = uid \<and> live u)
      (\<lambda>u. u\<lparr>u_email_verified := True, u_status := s, u_updated_at := now\<rparr>) (users (w_db w))) = None" for s
    using assms by (subst users_violation_update) auto
  moreover have "affected (\<lambda>u. u_id u = uid \<and> live u) (users (w_db w)) = 0 \<longleftrightarrow>
      \<not> (\<exists>u \<in> set (users (w_db w)). live u \<and> u_id u = uid)"
    by (auto simp: affected_zero_iff)
  ultimately show ?thesis
    by (auto simp: mark_email_verified_def io_Inr_iff exec_Inr_iff sql_mark_email_verified_def Let_def
        update_where_def activate_row_def split: if_splits)
qed

text \<open>The body of the transaction, where it ends well.\<close>

lemma verify_body_Inr_iff:
  assumes I: "inv L d"
  shows "(andThen (get_token_by_hash V (Tx now) h) (\<lambda>found.
       andThen (pureR (\<lambda>e. e) (ok_or VE_InvalidToken found)) (\<lambda>token_row.
       andThen (ask (e_utc V)) (\<lambda>utc.
       if t_expires_at token_row < utc then throw VE_InvalidToken
       else andThen (consume_token V (Tx now) (t_id token_row)) (\<lambda>_.
            mark_email_verified L V (Tx now) (t_user_id token_row)))))) \<lparr>w_db = d, w_tick = k\<rparr> = (Inr (), w2) \<longleftrightarrow>
      (\<forall>i \<in> {0, 2, 3}. e_stmt V (k + i) = Delivered) \<and>
      (\<exists>tk. usable tk h (e_utc V (k + 1)) d \<and> w2 = \<lparr>w_db = verified tk now d, w_tick = k + 4\<rparr>)"
proof -
  from I have uv: "users_violation (l_lower L) (users d) = None" by (simp add: db_inv_def)
  have lookup: "exec V (Tx now) (sql_token_by_hash h) \<lparr>w_db = d, w_tick = k\<rparr> = (Inr (Some tk), w1) \<longleftrightarrow>
      e_stmt V k = Delivered \<and> tk \<in> set (tokens d) \<and> t_consumed_at tk = None \<and> t_token_hash tk = h \<and>
      w1 = \<lparr>w_db = d, w_tick = Suc k\<rparr>" for tk w1
    by (auto simp: exec_Inr_iff sql_token_by_hash_iff [OF I])
  have steps: "andThen (consume_token V (Tx now) (t_id tk)) (\<lambda>_. mark_email_verified L V (Tx now) (t_user_id tk))
        \<lparr>w_db = d, w_tick = k\<rparr> = (Inr (), w2) \<longleftrightarrow>
      e_stmt V k = Delivered \<and> e_stmt V (Suc k) = Delivered \<and>
      (\<exists>u \<in> set (users d). live u \<and> u_id u = t_user_id tk) \<and>
      w2 = \<lparr>w_db = verified tk now d, w_tick = Suc (Suc k)\<rparr>"
    if "tk \<in> set (tokens d)" "t_consumed_at tk = None" for tk k
    using consume_token_tx [of "l_lower L" "\<lparr>w_db = d, w_tick = k\<rparr>" tk V now] that I uv
    by (auto simp: andThen_Inr_iff mark_email_verified_tx verified_def)
  have "andThen (get_token_by_hash V (Tx now) h)
        (\<lambda>found. andThen (pureR (\<lambda>e. e) (ok_or VE_InvalidToken found)) g) \<lparr>w_db = d, w_tick = k\<rparr> = (Inr (), w2) \<longleftrightarrow>
      (\<exists>tk w1. exec V (Tx now) (sql_token_by_hash h) \<lparr>w_db = d, w_tick = k\<rparr> = (Inr (Some tk), w1) \<and>
         g tk w1 = (Inr (), w2))" for g :: "token_row \<Rightarrow> (verify_email_error, unit) io"
    by (auto simp: get_token_by_hash_def andThen_Inr_iff mapErr_Inr_iff pureR_Inr_iff)
  moreover have "(if b then throw e else m) w1 = (Inr (), w2) \<longleftrightarrow> \<not> b \<and> m w1 = (Inr (), w2)"
    for b and e :: verify_email_error and m w1
    by (simp add: throw_def)
  ultimately show ?thesis
    by (auto simp: andThen_Inr_iff [of "ask _"] ask_Inr_iff lookup steps usable_def not_less
        eval_nat_numeral cong: conj_cong)
qed

lemma verify_email_Inr_iff:
  assumes "env_keeps (inv L) V" and "inv L (w_db w)"
  defines "t \<equiv> w_tick w" and "d \<equiv> e_others V (Suc (w_tick w)) (w_db w)"
  shows "verify_email L V tok w = (Inr (), w') \<longleftrightarrow>
    e_pool V t \<and> (\<forall>i \<in> {1, 2, 4, 5, 6}. e_stmt V (t + i) = Delivered) \<and>
    (\<exists>h tk. hash_verification_token (l_b64 L) (l_sha256 L) tok = Inr h \<and>
       usable tk h (e_utc V (t + 3)) d \<and>
       w' = \<lparr>w_db = verified tk (e_db_now V (t + 1)) d, w_tick = t + 7\<rparr>)"
proof -
  have "inv L d" using assms(1,2) by (simp add: d_def env_keeps_def)
  note body = verify_body_Inr_iff [OF this]
  show ?thesis
    unfolding verify_email_def t_def
    by (auto simp: andThen_Inr_iff [of "pureR _ (hash_verification_token _ _ _)"]
        andThen_Inr_iff [of "pool_get _ _ _"] pureR_Inr_iff pool_get_Inr_iff transaction_Inr_iff body
        eval_nat_numeral simp flip: d_def cong: if_cong)
      (rule exI, rule conjI, rule exI, rule conjI, assumption, rule refl, simp)
qed

text \<open>Whatever the outcome: the database is as it was, as other clients left it, or as it is once a usable
  token was used.\<close>

lemma verify_email_result:
  assumes "env_keeps (inv L) V" and "inv L (w_db w)" and "verify_email L V tok w = (r, w')"
  shows "w_db w' = w_db w \<or> (\<exists>t. w_db w' = e_others V t (w_db w) \<or>
    (\<exists>h tk utc now. usable tk h utc (e_others V t (w_db w)) \<and> w_db w' = verified tk now (e_others V t (w_db w))))"
proof (cases r)
  case (Inr u)
  with assms(3) verify_email_Inr_iff [OF assms(1,2)] obtain h tk where
    "usable tk h (e_utc V (w_tick w + 3)) (e_others V (Suc (w_tick w)) (w_db w))"
    "w_db w' = verified tk (e_db_now V (w_tick w + 1)) (e_others V (Suc (w_tick w)) (w_db w))" by fastforce
  then show ?thesis by blast
next
  case (Inl x)
  show ?thesis
  proof (cases "hash_verification_token (l_b64 L) (l_sha256 L) tok")
    case (Inl e)
    then show ?thesis using assms(3) by (auto simp: verify_email_def andThen_def pureR_def map_err_def)
  next
    case (Inr h)
    let ?body = "\<lambda>tx. andThen (get_token_by_hash V tx h) (\<lambda>found.
       andThen (pureR (\<lambda>e. e) (ok_or VE_InvalidToken found)) (\<lambda>token_row.
       andThen (ask (e_utc V)) (\<lambda>utc.
       if t_expires_at token_row < utc then throw VE_InvalidToken
       else andThen (consume_token V tx (t_id token_row)) (\<lambda>_.
            mark_email_verified L V tx (t_user_id token_row)))))"
    let ?w1 = "w\<lparr>w_tick := Suc (w_tick w)\<rparr>"
    let ?d = "e_others V (w_tick ?w1) (w_db ?w1)"
    have I: "inv L ?d" using assms(1,2) by (simp add: env_keeps_def)
    from assms(3) Inr \<open>r = Inl x\<close> consider "w_db w' = w_db w"
      | "transaction V VE_Db ?body (w\<lparr>w_tick := Suc (w_tick w)\<rparr>) = (Inl x, w')"
      by (auto simp: verify_email_def andThen_Inl_iff pureR_def map_err_def pool_get_def ask_def ret_def throw_def
          andThen_def split: if_splits)
    then show ?thesis
    proof cases
      case 2
      from transaction_Inl [OF this] consider "w_db w' = ?d"
        | a w1 where "?body (Tx (e_db_now V (w_tick ?w1))) \<lparr>w_db = ?d, w_tick = Suc (w_tick ?w1)\<rparr> = (Inr a, w1)"
            "w_db w' = w_db w1"
        by blast
      then show ?thesis
      proof cases
        case (2 a w1)
        from 2(1) obtain tk where "usable tk h (e_utc V (Suc (w_tick ?w1) + 1)) ?d"
          "w_db w1 = verified tk (e_db_now V (w_tick ?w1)) ?d"
          unfolding unit_eq [of a] verify_body_Inr_iff [OF I] by auto
        with 2(2) show ?thesis by auto
      qed auto
    qed simp
  qed
qed

section \<open>Calm environments\<close>

lemma calm_exec:
  "calm V \<Longrightarrow> exec V (Conn p) s w =
     (case s (e_db_now V (w_tick w)) (w_db w) of
        Inl e \<Rightarrow> (Inl (Err e), w\<lparr>w_tick := Suc (w_tick w)\<rparr>)
      | Inr (a, d) \<Rightarrow>
          (if p = Primary then (Inr a, \<lparr>w_db = d, w_tick = Suc (w_tick w)\<rparr>)
           else (if d = w_db w then Inr a else Inl (Err Other_Pg_Error), w\<lparr>w_tick := Suc (w_tick w)\<rparr>)))"
  by (cases p) (auto simp: exec.simps Let_def calmD split: sum.splits prod.splits)

lemma calm_transaction_Inl:
  "calm V \<Longrightarrow> transaction V f body w = (Inl x, w') \<Longrightarrow> w_db w' = w_db w"
  using transaction_Inl [of V f body w x w'] by (auto simp: calmD)

text \<open>A user as the lookups return it.\<close>

definition user_of :: "user_row \<Rightarrow> user" where
  "user_of r = \<lparr>usr_id = u_id r, usr_username = u_username r, usr_email = u_email r,
     usr_given_name = u_given_name r, usr_family_name = u_family_name r,
     usr_password_hash = u_password_hash r, usr_email_verified = u_email_verified r,
     usr_status = (case user_status_from_str (u_status r) of Inr s \<Rightarrow> s | Inl _ \<Rightarrow> PendingVerification),
     usr_created_at = u_created_at r, usr_updated_at = u_updated_at r\<rparr>"

lemma user_of_simps:
  "usr_id (user_of r) = u_id r" "usr_password_hash (user_of r) = u_password_hash r"
  "usr_email (user_of r) = u_email r" "usr_username (user_of r) = u_username r"
  "usr_given_name (user_of r) = u_given_name r" "usr_family_name (user_of r) = u_family_name r"
  "usr_email_verified (user_of r) = u_email_verified r"
  by (simp_all add: user_of_def)

lemma user_from_row_valid:
  assumes "valid_status (u_status r)"
  shows "user_from_row r = Inr (user_of r)"
  using assms by (auto simp: valid_status_def user_from_row_def user_of_def split: sum.splits)

lemma expect_user_valid:
  assumes "\<forall>r. row = Some r \<longrightarrow> valid_status (u_status r)"
  shows "expect_user row w = (Inr (map_option user_of row), w)"
  using assms by (auto simp: expect_user_def user_from_row_valid ret_def split: option.splits)

lemma user_status_of_iff:
  "valid_status (u_status r) \<Longrightarrow> usr_status (user_of r) = s \<longleftrightarrow> u_status r = user_status_as_str s"
  using user_status.from_str_iff [of "u_status r"]
  by (auto simp: valid_status_def user_of_def user_status.from_as user_status.as_str_eq_iff split: sum.splits)

text \<open>Who an email address belongs to.\<close>

definition email_owner :: "(string \<Rightarrow> string) \<Rightarrow> db \<Rightarrow> string \<Rightarrow> user_row option" where
  "email_owner low d em = List.find (\<lambda>u. low (u_email u) = low em \<and> live u) (users d)"

lemma email_owner_Some:
  "email_owner low d em = Some u \<Longrightarrow> u \<in> set (users d) \<and> live u \<and> low (u_email u) = low em"
  by (auto simp: email_owner_def find_Some_iff)

lemma sql_user_by_email_owner:
  assumes "db_inv low d"
  shows "sql_user_by_email low em now d = Inr (email_owner low d em, d)"
proof (cases "email_owner low d em")
  case None
  then have "\<forall>u \<in> set (users d). live u \<longrightarrow> low (u_email u) \<noteq> low em"
    by (auto simp: email_owner_def find_None_iff)
  with None show ?thesis by (simp add: sql_user_by_email_iff [OF assms])
next
  case (Some u)
  with email_owner_Some [OF Some] show ?thesis by (simp add: sql_user_by_email_iff [OF assms])
qed

lemma world_fold: "\<lparr>w_db = w_db w, w_tick = t\<rparr> = w\<lparr>w_tick := t\<rparr>"
  by (cases w) simp

lemma calm_user_by_email:
  assumes "calm V" and "inv L (w_db w)"
  shows "get_user_by_email L V (Conn Primary) em w =
    (Inr (map_option user_of (email_owner (l_lower L) (w_db w) em)), w\<lparr>w_tick := Suc (w_tick w)\<rparr>)"
proof -
  have "\<forall>r. email_owner (l_lower L) (w_db w) em = Some r \<longrightarrow> valid_status (u_status r)"
    using db_inv_statuses [OF assms(2)] email_owner_Some by blast
  then show ?thesis
    by (simp add: get_user_by_email_def andThen_def calm_exec [OF assms(1)]
        sql_user_by_email_owner [OF assms(2)] expect_user_valid world_fold)
qed

section \<open>Resending\<close>

definition recent_tokens :: "db \<Rightarrow> uuid \<Rightarrow> instant \<Rightarrow> nat" where
  "recent_tokens d uid now = affected (\<lambda>t. t_user_id t = uid \<and> t_created_at t > now - minutes 60) (tokens d)"

lemma resend_silent:
  assumes "calm V" and "inv L (w_db w)"
    and "\<forall>u. email_owner (l_lower L) (w_db w) em = Some u \<longrightarrow> u_status u \<noteq> user_status_as_str PendingVerification"
  shows "resend_verification L V em url w = (Inr (), w\<lparr>w_tick := w_tick w + 2\<rparr>)"
proof -
  have "usr_status (user_of u) \<noteq> PendingVerification" if "email_owner (l_lower L) (w_db w) em = Some u" for u
    using assms(3) that db_inv_statuses [OF assms(2)] email_owner_Some [OF that] user_status_of_iff by blast
  then show ?thesis
    using calm_user_by_email [OF assms(1), of L "w\<lparr>w_tick := Suc (w_tick w)\<rparr>"] assms(1,2)
    by (auto simp: resend_verification_def andThen_def pool_get_def ask_def calmD ret_def attempt_def
        split: option.splits)
qed

lemma resend_pending:
  assumes "calm V" and "inv L (w_db w)"
    and "email_owner (l_lower L) (w_db w) em = Some u"
    and "u_status u = user_status_as_str PendingVerification"
  shows "resend_verification L V em url w =
    resend_to_user L V (Conn Primary) (user_of u) url (w\<lparr>w_tick := w_tick w + 2\<rparr>)"
proof -
  have "usr_status (user_of u) = PendingVerification"
    using assms(4) db_inv_statuses [OF assms(2)] email_owner_Some [OF assms(3)] user_status_of_iff by blast
  then show ?thesis
    using calm_user_by_email [OF assms(1), of L "w\<lparr>w_tick := Suc (w_tick w)\<rparr>"] assms(1-3)
    by (auto simp: resend_verification_def andThen_def pool_get_def ask_def calmD ret_def attempt_def)
qed

lemma resend_prepare_tick:
  "resend_prepare L V u url w = (Inr rs, w') \<Longrightarrow> w_tick w \<le> w_tick w'"
  by (auto simp: resend_prepare_def io_Inr_iff Let_def extract_trace_context_Inr_iff split: prod.splits)

lemma resend_to_user_result:
  assumes "calm V" and "resend_to_user L V (Conn Primary) u url w = (r, w')"
  shows "if recent_tokens (w_db w) (usr_id u) (e_db_now V (w_tick w)) \<ge> 3
    then r = Inl (Err RateLimited) \<and> w_db w' = w_db w
    else (case r of
        Inl x \<Rightarrow> w_db w' = w_db w
      | Inr _ \<Rightarrow> \<exists>tid h utc oid payload tr sp t. w_tick w < t \<and>
          mails_token L url oid (usr_email u) (usr_given_name u @ '' '' @ usr_family_name u) h payload \<and>
          w_db w' = add_rows [] [new_token tid (usr_id u) h (utc + minutes 60) (e_db_now V t)]
            [new_event oid (usr_id u) payload tr sp (e_db_now V t)] (w_db w))"
proof -
  let ?n = "recent_tokens (w_db w) (usr_id u) (e_db_now V (w_tick w))"
  let ?w1 = "w\<lparr>w_tick := Suc (w_tick w)\<rparr>"
  have count: "mapErr RV_Db (count_recent_tokens V (Conn Primary) (usr_id u)) w = (Inr (int ?n), ?w1)"
    by (simp add: mapErr_def count_recent_tokens_def calm_exec [OF assms(1)] sql_count_recent_tokens_def
        recent_tokens_def world_fold)
  show ?thesis
  proof (cases "?n \<ge> 3")
    case True
    with assms(2) count show ?thesis
      by (auto simp: resend_to_user_def andThen_def MAX_TOKENS_PER_HOUR_def throw_def)
  next
    case False
    let ?tx = "\<lambda>rs. transaction V RV_Db (\<lambda>tx.
       andThen (mapErr RV_Db (insert_token V tx (rs_token_id rs) (usr_id u) (rs_token_hash rs) (rs_expires_at rs))) (\<lambda>_.
       mapErr RV_Outbox (insert_event V tx (rs_outbox_id rs) ''user'' (usr_id u) ''auth_email''
         (rs_payload rs) (rs_trace_id rs) (rs_span_id rs))))"
    have "andThen (resend_prepare L V u url) ?tx ?w1 = (r, w')"
      using False assms(2) count by (simp add: resend_to_user_def andThen_def MAX_TOKENS_PER_HOUR_def)
    then have "case r of
        Inl x \<Rightarrow> w_db w' = w_db w
      | Inr _ \<Rightarrow> \<exists>tid h utc oid payload tr sp t. w_tick w < t \<and>
          mails_token L url oid (usr_email u) (usr_given_name u @ '' '' @ usr_family_name u) h payload \<and>
          w_db w' = add_rows [] [new_token tid (usr_id u) h (utc + minutes 60) (e_db_now V t)]
            [new_event oid (usr_id u) payload tr sp (e_db_now V t)] (w_db w)"
    proof (cases rule: quiet_step [OF _ quiet_resend_prepare, consumes 1, case_names stop go])
      case (go rs w2)
      show ?thesis
      proof (cases r)
        case (Inl x)
        then show ?thesis
          using calm_transaction_Inl [OF assms(1)] go(2,3) by fastforce
      next
        case (Inr a)
        with go(3) have "?tx rs w2 = (Inr a, w')" by simp
        moreover have "w_tick w < w_tick w2" using resend_prepare_tick [OF go(1)] by simp
        ultimately show ?thesis
          using Inr resend_prepare_Inr [OF go(1)] go(2)
          by (fastforce simp: transaction_Inr_iff io_Inr_iff insert_token_tx_Inr_iff
              insert_event_tx_Inr_iff add_rows_add_rows calmD [OF assms(1)])
      qed
    qed auto
    with False show ?thesis by simp
  qed
qed

end
