(* ===== verification/Login_Laws.thy ===== *)
theory Login_Laws
  imports Login_Auth Registration_Laws
begin

text \<open>
  What a successful login implies and leaves behind, when authentication accepts a request, and
  the signing-key store in between.
\<close>

section \<open>The signing-key store\<close>

definition newest_active :: "db \<Rightarrow> signing_key_row option" where
  "newest_active d = newest_key (filter (\<lambda>k. sk_status k = ''active'') (signing_keys d))"

lemma newest_active_in: "newest_active d = Some k \<Longrightarrow> k \<in> set (signing_keys d) \<and> sk_status k = ''active''"
  using newest_key_Some by (fastforce simp: newest_active_def)

text \<open>A row whose private half can be unwrapped and whose public half describes it.\<close>

definition key_row_ok :: "'kp libs \<Rightarrow> kek \<Rightarrow> signing_key_row \<Rightarrow> bool" where
  "key_row_ok L kek row \<longleftrightarrow>
     (\<exists>alg der kp k. sk_algorithm row = algorithm_as_str alg \<and>
        try_r (no_panic (encrypted_key_from_bytes (sk_encrypted_private_key row)))
          (\<lambda>w. decrypt_private_key (l_aead L) (kek_bytes kek) w (as_bytes (sk_kid row))) = Inr der \<and>
        key_from_pkcs8 (l_ecdsa L) (signing_algorithm alg) der = Some kp \<and>
        public_jwk_from_pkcs8 (l_b64 L) (l_ecdsa L) (sk_kid row) alg der = Inr k \<and>
        jwk_from_value (l_json L) (sk_public_jwk row) = Some k)"

lemma load_signing_key_iff:
  "load_signing_key L kek row = Inr k \<longleftrightarrow>
     ask_kid k = sk_kid row \<and> sk_algorithm row = algorithm_as_str (ask_algorithm k) \<and>
     (\<exists>der. try_r (no_panic (encrypted_key_from_bytes (sk_encrypted_private_key row)))
          (\<lambda>w. decrypt_private_key (l_aead L) (kek_bytes kek) w (as_bytes (sk_kid row))) = Inr der \<and>
        key_from_pkcs8 (l_ecdsa L) (signing_algorithm (ask_algorithm k)) der = Some (ask_key_pair k))"
  by (cases k) (auto simp: load_signing_key_def Let_def alg.from_str_iff key_pair_from_pkcs8_def)

lemma key_row_ok_loads:
  assumes "key_row_ok L kek row"
  obtains k where "load_signing_key L kek row = Inr k"
proof -
  from assms obtain alg kp where
    "load_signing_key L kek row = Inr \<lparr>ask_kid = sk_kid row, ask_algorithm = alg, ask_key_pair = kp\<rparr>"
    by (auto simp: key_row_ok_def load_signing_key_iff)
  then show thesis by (rule that)
qed

lemma get_active_signing_key_Inr_iff:
  "get_active_signing_key L V Primary kek w = (Inr k, w') \<longleftrightarrow>
     e_pool V (w_tick w) \<and> e_stmt V (Suc (w_tick w)) = Delivered \<and>
     w' = \<lparr>w_db = e_others V (Suc (w_tick w)) (w_db w), w_tick = w_tick w + 2\<rparr> \<and>
     (\<exists>row. newest_active (e_others V (Suc (w_tick w)) (w_db w)) = Some row \<and>
        load_signing_key L kek row = Inr k)"
  by (auto simp: get_active_signing_key_def io_Inr_iff exec_Inr_iff sql_active_signing_key_def
      newest_active_def)

section \<open>Login\<close>

lemma get_user_by_email_primary_Inr:
  assumes "env_keeps (inv L) V" and "inv L (w_db w)"
    and "get_user_by_email L V (Conn Primary) em w = (Inr r, w')"
  shows "w_db w' = e_others V (w_tick w) (w_db w)" and "w_tick w' = Suc (w_tick w)"
    and "r = map_option user_of (email_owner (l_lower L) (w_db w') em)" and "inv L (w_db w')"
proof -
  let ?d = "e_others V (w_tick w) (w_db w)"
  have I: "inv L ?d" using assms(1,2) by (simp add: env_keeps_def)
  have "\<forall>r. email_owner (l_lower L) ?d em = Some r \<longrightarrow> valid_status (u_status r)"
    using db_inv_statuses [OF I] email_owner_Some by blast
  then have "w' = \<lparr>w_db = ?d, w_tick = Suc (w_tick w)\<rparr> \<and> r = map_option user_of (email_owner (l_lower L) ?d em)"
    using assms(3) by (auto simp: get_user_by_email_def andThen_Inr_iff exec_Inr_iff
        sql_user_by_email_owner [OF I] expect_user_valid)
  then show "w_db w' = ?d" "w_tick w' = Suc (w_tick w)"
    "r = map_option user_of (email_owner (l_lower L) (w_db w') em)" "inv L (w_db w')"
    using I by simp_all
qed

definition new_refresh :: "uuid \<Rightarrow> uuid \<Rightarrow> bytes \<Rightarrow> instant \<Rightarrow> instant \<Rightarrow> refresh_row" where
  "new_refresh i uid h expires now = \<lparr>rt_id = i, rt_user_id = uid, rt_token_hash = h,
     rt_expires_at = expires, rt_revoked_at = None, rt_created_at = now\<rparr>"

text \<open>The tokens of \<open>res\<close> were issued to user \<open>u\<close> with key \<open>k\<close> at \<open>now\<close>.\<close>

definition issued :: "'kp libs \<Rightarrow> user \<Rightarrow> 'kp active_signing_key \<Rightarrow> instant \<Rightarrow> login_result \<Rightarrow> bool" where
  "issued L u k now res \<longleftrightarrow>
     (\<exists>rnd1 rnd2 jti1 jti2 at it.
        sign_jwt (l_b64 L) (l_ecdsa L) (l_json L) rnd1 (ask_algorithm k) (ask_kid k)
          (access_claims L u now jti1) (ask_key_pair k) = Inr at \<and> lr_access_token res = jwt_token at \<and>
        sign_jwt (l_b64 L) (l_ecdsa L) (l_json L) rnd2 (ask_algorithm k) (ask_kid k)
          (id_claims L u now jti2) (ask_key_pair k) = Inr it \<and> lr_id_token res = jwt_token it \<and>
        lr_expires_at res = now + seconds 900)"

lemma issue_tokens_Inr:
  assumes "issue_tokens L V u k w = (Inr res, w')"
  shows "issued L u k (e_utc V (w_tick w)) res"
    and "\<exists>rnd h i t. generate_verification_token (l_b64 L) (l_sha256 L) rnd = Inr (lr_refresh_token res, h) \<and>
      refresh_violation (users (e_others V t (w_db w)))
        (refresh_tokens (e_others V t (w_db w)) @
          [new_refresh i (usr_id u) h (e_utc V (w_tick w) + days 7) (e_db_now V t)]) = None \<and>
      w_db w' = (e_others V t (w_db w))\<lparr>refresh_tokens := refresh_tokens (e_others V t (w_db w)) @
        [new_refresh i (usr_id u) h (e_utc V (w_tick w) + days 7) (e_db_now V t)]\<rparr>"
proof -
  show "issued L u k (e_utc V (w_tick w)) res"
    using assms unfolding issued_def issue_tokens_def
    by (auto simp: io_Inr_iff Let_def ACCESS_TOKEN_LIFETIME_SECS_def split: prod.splits) blast
  show "\<exists>rnd h i t. generate_verification_token (l_b64 L) (l_sha256 L) rnd = Inr (lr_refresh_token res, h) \<and>
      refresh_violation (users (e_others V t (w_db w)))
        (refresh_tokens (e_others V t (w_db w)) @
          [new_refresh i (usr_id u) h (e_utc V (w_tick w) + days 7) (e_db_now V t)]) = None \<and>
      w_db w' = (e_others V t (w_db w))\<lparr>refresh_tokens := refresh_tokens (e_others V t (w_db w)) @
        [new_refresh i (usr_id u) h (e_utc V (w_tick w) + days 7) (e_db_now V t)]\<rparr>"
    using assms unfolding issue_tokens_def
    by (auto simp: io_Inr_iff Let_def REFRESH_TOKEN_LIFETIME_DAYS_def insert_refresh_token_def
        exec_Inr_iff sql_insert_refresh_token_def new_refresh_def split: prod.splits) blast
qed

text \<open>
  \<open>d1\<close> and \<open>d2\<close> are the databases the user and the signing key were read from, each as other
  clients left it.
\<close>

lemma login_Inr:
  assumes "env_keeps (inv L) V" and "inv L (w_db w)" and "login L V em pw kek w = (Inr res, w')"
  shows "\<exists>t1 t2 t d1 d2 u row k now rnd h i.
    d1 = e_others V t1 (w_db w) \<and> d2 = e_others V t2 d1 \<and>
    email_owner (l_lower L) d1 em = Some u \<and>
    verify_password (l_password L) (l_feature L) pw (u_password_hash u) = Inr () \<and>
    u_status u = user_status_as_str Active \<and>
    newest_active d2 = Some row \<and> load_signing_key L kek row = Inr k \<and>
    issued L (user_of u) k now res \<and>
    generate_verification_token (l_b64 L) (l_sha256 L) rnd = Inr (lr_refresh_token res, h) \<and>
    w_db w' = (e_others V t d2)\<lparr>refresh_tokens := refresh_tokens (e_others V t d2) @
      [new_refresh i (u_id u) h (now + days 7) (e_db_now V t)]\<rparr>"
proof -
  from assms(3) obtain usr w1 w2 k w3 where
      w1: "get_user_by_email L V (Conn Primary) em (w\<lparr>w_tick := Suc (w_tick w)\<rparr>) = (Inr (Some usr), w1)"
    and pw: "verify_password (l_password L) (l_feature L) pw (usr_password_hash usr) = Inr ()"
    and w2: "w2 = w1\<lparr>w_tick := Suc (w_tick w1)\<rparr>" and act: "usr_status usr = Active"
    and k: "get_active_signing_key L V Primary kek w2 = (Inr k, w3)"
    and iss: "issue_tokens L V usr k w3 = (Inr res, w')"
    by (auto simp: login_def io_Inr_iff verify_password_blocking_def split: if_splits)
  have "inv L (w_db (w\<lparr>w_tick := Suc (w_tick w)\<rparr>))" using assms(2) by simp
  note found = get_user_by_email_primary_Inr [OF assms(1) this w1]
  from found(3) obtain u where u: "email_owner (l_lower L) (w_db w1) em = Some u" and usr: "usr = user_of u"
    by (cases "email_owner (l_lower L) (w_db w1) em") auto
  have status: "u_status u = user_status_as_str Active"
    using act usr user_status_of_iff db_inv_statuses [OF found(4)] email_owner_Some [OF u] by blast
  from k obtain row where row: "newest_active (w_db w3) = Some row" "load_signing_key L kek row = Inr k"
    and w3: "w_db w3 = e_others V (Suc (w_tick w2)) (w_db w1)"
    by (auto simp: get_active_signing_key_Inr_iff w2)
  from issue_tokens_Inr(2) [OF iss] obtain rnd h i t where
      rt: "generate_verification_token (l_b64 L) (l_sha256 L) rnd = Inr (lr_refresh_token res, h)"
      "w_db w' = (e_others V t (w_db w3))\<lparr>refresh_tokens := refresh_tokens (e_others V t (w_db w3)) @
        [new_refresh i (usr_id usr) h (e_utc V (w_tick w3) + days 7) (e_db_now V t)]\<rparr>"
    by blast
  have d1: "w_db w1 = e_others V (Suc (w_tick w)) (w_db w)" using found(1) by simp
  show ?thesis
    by (intro exI conjI)
      (rule d1, rule w3, rule u, rule pw [unfolded usr user_of_simps], rule status, rule row(1),
        rule row(2), rule issue_tokens_Inr(1) [OF iss, unfolded usr], rule rt(1),
        rule rt(2) [unfolded usr user_of_simps])
qed

section \<open>Authentication\<close>

lemma list_public_jwks_Inr_iff:
  "list_public_jwks L V p w = (Inr ks, w') \<longleftrightarrow>
     e_pool V (w_tick w) \<and> e_stmt V (Suc (w_tick w)) = Delivered \<and>
     w_tick w' = w_tick w + 2 \<and>
     (let d = (case p of Primary \<Rightarrow> e_others V (Suc (w_tick w)) (w_db w)
               | Replica \<Rightarrow> e_replica V (Suc (w_tick w)) (w_db w))
      in map (\<lambda>r. jwk_from_value (l_json L) (sk_public_jwk r))
           (filter (\<lambda>r. sk_status r \<noteq> ''revoked'') (signing_keys d)) = map Some ks \<and>
         w_db w' = (case p of Primary \<Rightarrow> d | Replica \<Rightarrow> w_db w))"
proof -
  have c: "collect (map (\<lambda>v. ok_or Jwks_Serialization (f v)) rows) = Inr ks \<longleftrightarrow> map f rows = map Some ks"
    for f :: "bytes \<Rightarrow> jwk option" and rows
  proof (induction rows arbitrary: ks)
    case (Cons a rows)
    show ?case by (cases ks) (auto simp: Cons.IH)
  qed auto
  show ?thesis
    by (cases p; cases w; cases w')
      (auto simp: list_public_jwks_def io_Inr_iff exec_Inr_iff sql_public_jwks_def c Let_def comp_def)
qed

lemma authenticate_Inr_iff:
  "authenticate L V rq p w = (Inr uid, w') \<longleftrightarrow>
     (\<exists>token header jwks w1 k now c sub.
        extract_bearer_token rq = Inr token \<and> decode_jwt_header L token = Inr header \<and>
        list_public_jwks L V p w = (Inr jwks, w1) \<and>
        List.find (\<lambda>k. jwk_kid k = hdr_kid header) jwks = Some k \<and>
        e_unix_time V (w_tick w1) = Some now \<and>
        verify_jwt (l_checks L) (l_b64 L) (l_ecdsa L) (l_json L) token k (auth_options now) = Inr c \<and>
        cl_sub c = Some sub \<and> uuid_parse (l_uuid L) sub = Some uid \<and>
        w' = w1\<lparr>w_tick := Suc (w_tick w1)\<rparr>)"
  by (auto simp: authenticate_def io_Inr_iff)

lemma carries_header:
  assumes "carries B E J algs k token c"
  obtains hb header where "b64url_decode B (hd (split_on CHR ''.'' token)) = Some hb"
    and "header_from_slice J hb = Some header" and "hdr_kid header = jwk_kid k"
  using assms by (auto simp: carries_def split_on_append)

section \<open>From login to authentication\<close>

definition libs_ok :: "'kp libs \<Rightarrow> bool" where
  "libs_ok L \<longleftrightarrow> base64_ok (l_b64 L) \<and> uuid_ok (l_uuid L) \<and> aead_ok (l_aead L) \<and>
     ecdsa_ok (l_ecdsa L) \<and> json_ok (l_json L) \<and> password_lib_ok (l_password L)"

lemma libs_okD:
  assumes "libs_ok L"
  shows "base64_ok (l_b64 L)" "uuid_ok (l_uuid L)" "aead_ok (l_aead L)" "ecdsa_ok (l_ecdsa L)"
    "json_ok (l_json L)" "password_lib_ok (l_password L)"
  using assms by (auto simp: libs_ok_def)

lemma unat_secs_u64:
  assumes "0 \<le> timestamp t" and "timestamp t < 2 ^ 64"
  shows "int (unat (secs_u64 t)) = timestamp t"
  using assms by (simp add: secs_u64_def uint_word_of_int)

text \<open>The registered claims of a token of subject \<open>uid\<close> issued at \<open>now\<close> with a lifetime in seconds.\<close>

definition claims_for :: "'kp libs \<Rightarrow> uuid \<Rightarrow> instant \<Rightarrow> int \<Rightarrow> claims \<Rightarrow> bool" where
  "claims_for L uid now life cl \<longleftrightarrow>
     cl_iss cl = Some ISSUER \<and> cl_aud cl = Some (Single API_AUDIENCE) \<and>
     cl_sub cl = Some (uuid_to_string (l_uuid L) uid) \<and> cl_custom cl = [] \<and>
     cl_exp cl = Some (secs_u64 (now + seconds life)) \<and> cl_nbf cl = Some (secs_u64 now)"

lemma claims_for_access: "claims_for L (usr_id u) now 900 (access_claims L u now j)"
  by (simp add: claims_for_def access_claims_def default_claims_def ACCESS_TOKEN_LIFETIME_SECS_def)

lemma claims_for_id: "claims_for L (usr_id u) now ID_TOKEN_LIFETIME_SECS (id_claims L u now j)"
  by (simp add: claims_for_def id_claims_def default_claims_def)

text \<open>A clock at which such a token is valid, with the leeway of 30 seconds at both ends.\<close>

definition valid_clock :: "instant \<Rightarrow> int \<Rightarrow> u64 \<Rightarrow> bool" where
  "valid_clock now life n \<longleftrightarrow>
     0 \<le> life \<and> life \<le> 2 ^ 32 \<and> 0 \<le> timestamp now \<and> timestamp now < 2 ^ 63 \<and>
     timestamp now \<le> int (unat n) + 30 \<and> int (unat n) \<le> timestamp now + life + 30"

lemma claims_accepted:
  fixes n :: u64
  assumes c: "claims_for L uid now life cl" and v: "valid_clock now life n"
  shows "in_window (auth_options n) cl" and "expected_party (auth_options n) cl"
    and "times_fit (auth_options n) cl"
proof -
  have t: "0 \<le> timestamp now" "timestamp now < 9223372036854775808" "0 \<le> life" "life \<le> 4294967296"
    using v by (simp_all add: valid_clock_def)
  have e: "int (unat (secs_u64 (now + seconds life))) = timestamp now + life"
    using t by (subst unat_secs_u64) (simp_all add: timestamp_add_seconds)
  have b: "int (unat (secs_u64 now)) = timestamp now"
    using t by (subst unat_secs_u64) simp_all
  have n: "timestamp now \<le> int (unat n) + 30" "int (unat n) \<le> timestamp now + life + 30"
    using v by (simp_all add: valid_clock_def)
  have "unat n \<le> unat (secs_u64 (now + seconds life)) + 30" "unat (secs_u64 now) \<le> unat n + 30"
    using e b n by linarith+
  then show "in_window (auth_options n) cl"
    using c by (simp add: in_window_def auth_options_def claims_for_def)
  show "expected_party (auth_options n) cl"
    using c by (simp add: expected_party_def auth_options_def claims_for_def)
  have "unat (secs_u64 (now + seconds life)) + 30 < 18446744073709551616"
    "unat n + 30 < 18446744073709551616"
    using e n t by linarith+
  then show "times_fit (auth_options n) cl"
    using c by (simp add: times_fit_def auth_options_def claims_for_def)
qed

lemma find_by_key:
  assumes "distinct (map g rows)" and "row \<in> set rows" and "\<forall>r \<in> set rows. kid (f r) = g r"
  shows "List.find (\<lambda>k. kid k = g row) (map f rows) = Some (f row)"
  using assms by (induction rows) (auto simp: image_iff)

text \<open>The public key of a well-formed row.\<close>

definition row_jwk :: "'kp libs \<Rightarrow> signing_key_row \<Rightarrow> jwk" where
  "row_jwk L row = (case jwk_from_value (l_json L) (sk_public_jwk row) of
     Some k \<Rightarrow> k | None \<Rightarrow> \<lparr>jwk_kty = [], jwk_use = [], jwk_kid = [], jwk_alg = [], jwk_crv = [], jwk_x = [], jwk_y = []\<rparr>)"

lemma key_row_okD:
  assumes "key_row_ok L kek row"
  shows "jwk_from_value (l_json L) (sk_public_jwk row) = Some (row_jwk L row)"
    and "jwk_kid (row_jwk L row) = sk_kid row"
    and "load_signing_key L kek row = Inr k \<Longrightarrow>
      \<exists>der. key_from_pkcs8 (l_ecdsa L) (signing_algorithm (ask_algorithm k)) der = Some (ask_key_pair k) \<and>
        public_jwk_from_pkcs8 (l_b64 L) (l_ecdsa L) (ask_kid k) (ask_algorithm k) der = Inr (row_jwk L row)"
  using assms
  by (auto simp: key_row_ok_def row_jwk_def public_jwk_Inr_iff load_signing_key_iff alg.as_str_eq_iff)

lemma calm_list_public_jwks:
  assumes "calm V" and "\<forall>row \<in> set (signing_keys (w_db w)). key_row_ok L kek row"
  shows "list_public_jwks L V p w =
    (Inr (map (row_jwk L) (filter (\<lambda>r. sk_status r \<noteq> ''revoked'') (signing_keys (w_db w)))),
     w\<lparr>w_tick := w_tick w + 2\<rparr>)"
  unfolding list_public_jwks_Inr_iff
  using assms by (cases p) (auto simp: calmD key_row_okD(1) Let_def)

text \<open>A token signed with a key in the table is accepted while it is valid.\<close>

lemma signed_token_accepted:
  assumes L: "libs_ok L" and V: "calm V"
    and rows: "\<forall>r \<in> set (signing_keys (w_db w)). key_row_ok L kek r"
    and kids: "distinct (map sk_kid (signing_keys (w_db w)))"
    and row: "row \<in> set (signing_keys (w_db w))" "sk_status row \<noteq> ''revoked''"
    and k: "load_signing_key L kek row = Inr k"
    and at: "sign_jwt (l_b64 L) (l_ecdsa L) (l_json L) rnd (ask_algorithm k) (ask_kid k) cl (ask_key_pair k) = Inr at"
    and rq: "extract_bearer_token rq = Inr (jwt_token at)"
    and n: "e_unix_time V (w_tick w + 2) = Some n"
    and cl: "claims_for L uid now life cl" and clock: "valid_clock now life n"
  shows "authenticate L V rq p w = (Inr uid, w\<lparr>w_tick := w_tick w + 3\<rparr>)"
proof -
  note L' = libs_okD [OF L]
  from key_row_okD(3) [OF _ k] rows row(1) obtain der where
      der: "key_from_pkcs8 (l_ecdsa L) (signing_algorithm (ask_algorithm k)) der = Some (ask_key_pair k)"
      "public_jwk_from_pkcs8 (l_b64 L) (l_ecdsa L) (ask_kid k) (ask_algorithm k) der = Inr (row_jwk L row)"
    by blast
  have custom: "cl_custom cl = []" and sub: "cl_sub cl = Some (uuid_to_string (l_uuid L) uid)"
    using cl by (simp_all add: claims_for_def)
  have c: "carries (l_b64 L) (l_ecdsa L) (l_json L) (allowed_algorithms (auth_options n)) (row_jwk L row)
      (jwt_token at) cl"
    by (rule sign_carries [OF L'(1,4,5) der at])
      (cases "ask_algorithm k"; simp add: auth_options_def custom)+
  from c obtain hb header where h: "b64url_decode (l_b64 L) (hd (split_on CHR ''.'' (jwt_token at))) = Some hb"
      "header_from_slice (l_json L) hb = Some header" "hdr_kid header = jwk_kid (row_jwk L row)"
    by (rule carries_header)
  let ?rows = "filter (\<lambda>r. sk_status r \<noteq> ''revoked'') (signing_keys (w_db w))"
  have "List.find (\<lambda>k. jwk_kid k = sk_kid row) (map (row_jwk L) ?rows) = Some (row_jwk L row)"
    by (rule find_by_key) (use row kids rows key_row_okD(2) distinct_map_filter in auto)
  then have "List.find (\<lambda>k. jwk_kid k = hdr_kid header) (map (row_jwk L) ?rows) = Some (row_jwk L row)"
    using h(3) key_row_okD(2) rows row(1) by metis
  moreover have "decode_jwt_header L (jwt_token at) = Inr header"
    using h by (simp add: decode_jwt_header_def)
  moreover have "verify_jwt (l_checks L) (l_b64 L) (l_ecdsa L) (l_json L) (jwt_token at) (row_jwk L row)
      (auth_options n) = Inr cl"
    using c claims_accepted(2) [OF cl clock]
      check_times_complete [OF claims_accepted(3,1) [OF cl clock]]
    by (simp add: verify_Inr_iff)
  ultimately show ?thesis
    unfolding authenticate_Inr_iff
    using calm_list_public_jwks [OF V rows, of p] rq n sub uuid_parse_to_string [OF L'(2)]
    by (intro exI conjI) (assumption | simp)+
qed

text \<open>The tokens of a login: the access token, and the ID token, which names the same audience.\<close>

lemma issued_token_accepted:
  assumes "libs_ok L" and "calm V"
    and "\<forall>r \<in> set (signing_keys (w_db w)). key_row_ok L kek r"
    and "distinct (map sk_kid (signing_keys (w_db w)))"
    and "row \<in> set (signing_keys (w_db w))" and "sk_status row \<noteq> ''revoked''"
    and "load_signing_key L kek row = Inr k" and iss: "issued L u k now res"
    and rq: "extract_bearer_token rq = Inr (lr_access_token res)"
    and "e_unix_time V (w_tick w + 2) = Some n" and "valid_clock now 900 n"
  shows "authenticate L V rq p w = (Inr (usr_id u), w\<lparr>w_tick := w_tick w + 3\<rparr>)"
proof -
  from iss obtain rnd j at where
      at: "sign_jwt (l_b64 L) (l_ecdsa L) (l_json L) rnd (ask_algorithm k) (ask_kid k)
        (access_claims L u now j) (ask_key_pair k) = Inr at" "lr_access_token res = jwt_token at"
    by (auto simp: issued_def)
  show ?thesis
    by (rule signed_token_accepted [OF assms(1-7) at(1) _ assms(10) claims_for_access assms(11)])
      (simp only: rq at(2))
qed

lemma id_token_accepted:
  assumes "libs_ok L" and "calm V"
    and "\<forall>r \<in> set (signing_keys (w_db w)). key_row_ok L kek r"
    and "distinct (map sk_kid (signing_keys (w_db w)))"
    and "row \<in> set (signing_keys (w_db w))" and "sk_status row \<noteq> ''revoked''"
    and "load_signing_key L kek row = Inr k" and iss: "issued L u k now res"
    and rq: "extract_bearer_token rq = Inr (lr_id_token res)"
    and "e_unix_time V (w_tick w + 2) = Some n" and "valid_clock now ID_TOKEN_LIFETIME_SECS n"
  shows "authenticate L V rq p w = (Inr (usr_id u), w\<lparr>w_tick := w_tick w + 3\<rparr>)"
proof -
  from iss obtain rnd j it where
      it: "sign_jwt (l_b64 L) (l_ecdsa L) (l_json L) rnd (ask_algorithm k) (ask_kid k)
        (id_claims L u now j) (ask_key_pair k) = Inr it" "lr_id_token res = jwt_token it"
    by (auto simp: issued_def)
  show ?thesis
    by (rule signed_token_accepted [OF assms(1-7) it(1) _ assms(10) claims_for_id assms(11)])
      (simp only: rq it(2))
qed

lemma login_authenticates:
  assumes "libs_ok L" and "calm V" and "inv L (w_db w)"
    and "\<forall>r \<in> set (signing_keys (w_db w)). key_row_ok L kek r"
    and "login L V em pw kek w = (Inr res, w1)"
    and "signing_keys (w_db w2) = signing_keys (w_db w1)"
    and "extract_bearer_token rq = Inr (lr_access_token res)"
    and "e_unix_time V (w_tick w2 + 2) = Some n"
    and "900 \<le> timestamp (lr_expires_at res)" and "timestamp (lr_expires_at res) < 2 ^ 63"
    and "timestamp (lr_expires_at res) - 930 \<le> int (unat n)"
    and "int (unat n) \<le> timestamp (lr_expires_at res) + 30"
  shows "\<exists>u. email_owner (l_lower L) (w_db w) em = Some u \<and>
    authenticate L V rq p w2 = (Inr (u_id u), w2\<lparr>w_tick := w_tick w2 + 3\<rparr>)"
proof -
  from login_Inr [OF calm_keeps [OF assms(2)] assms(3,5)] obtain u row k now rt where
      u: "email_owner (l_lower L) (w_db w) em = Some u"
    and row: "newest_active (w_db w) = Some row" "load_signing_key L kek row = Inr k"
    and iss: "issued L (user_of u) k now res"
    and w1: "w_db w1 = (w_db w)\<lparr>refresh_tokens := rt\<rparr>"
    by (auto simp: calmD [OF assms(2)])
  have keys: "signing_keys (w_db w2) = signing_keys (w_db w)" using assms(6) w1 by simp
  have now: "timestamp (lr_expires_at res) = timestamp now + 900"
    using iss by (auto simp: issued_def timestamp_add_seconds)
  have "authenticate L V rq p w2 = (Inr (usr_id (user_of u)), w2\<lparr>w_tick := w_tick w2 + 3\<rparr>)"
  proof (rule issued_token_accepted [OF assms(1,2) _ _ _ _ row(2) iss assms(7,8)])
    show "\<forall>r \<in> set (signing_keys (w_db w2)). key_row_ok L kek r" using assms(4) keys by simp
    show "distinct (map sk_kid (signing_keys (w_db w2)))" using db_inv_unique(9) [OF assms(3)] keys by simp
    show "row \<in> set (signing_keys (w_db w2))" "sk_status row \<noteq> ''revoked''"
      using newest_active_in [OF row(1)] keys by auto
    show "valid_clock now 900 n" using now assms(9-12) by (simp add: valid_clock_def)
  qed
  with u show ?thesis by (auto simp: user_of_simps)
qed

section \<open>A fresh account\<close>

text \<open>What sign-up left, and what using the mailed token makes of it.\<close>

lemma fresh_account_verifies:
  assumes "libs_ok L" and "calm V" and "inv L (w_db w)" and "\<forall>t t'. e_utc V t' \<le> e_utc V t + minutes 60"
    and "sign_up L V un em gn fn pw url w = (Inr (), w1)" and "w_db w2 = w_db w1"
  obtains tok ev oid tr sp at uid ph now now' w3 salt p where
    "ev \<in> set (outbox (w_db w1))" "ob_published_at ev = None"
    "ob_payload ev = l_encode L (verification_event L url oid em (gn @ '' '' @ fn) tr sp at tok)"
    "verify_email L V tok w2 = (Inr (), w3)"
    "activate_row now' (new_user uid un em gn fn ph now) \<in> set (users (w_db w3))"
    "sign_up_validate un em pw = Inr p" "hash_password (l_password L) (l_feature L) salt p = Inr ph"
    "signing_keys (w_db w3) = signing_keys (w_db w)" "inv L (w_db w3)"
    "refresh_tokens (w_db w3) = refresh_tokens (w_db w)"
proof -
  note K = calm_keeps [OF assms(2)]
  have I: "inv L (w_db w2)"
    using io_keepsD [OF constraints_kept.keeps_sign_up [OF K] assms(3,5)] assms(6) by simp
  from sign_up_result [OF assms(5)] obtain t where
    "registered L V un em gn fn pw url (e_others V t (w_db w)) (w_db w1)" by auto
  then obtain uid ph tid h oid payload tr sp t1 now p salt where
      mail: "mails_token L url oid em (gn @ '' '' @ fn) h payload"
    and w1: "w_db w1 = add_rows [new_user uid un em gn fn ph now]
      [new_token tid uid h (e_utc V t1 + minutes 60) now] [new_event oid uid payload tr sp now] (w_db w)"
    and p: "sign_up_validate un em pw = Inr p" "hash_password (l_password L) (l_feature L) salt p = Inr ph"
    unfolding registered_def calmD(4) [OF assms(2)] by blast
  let ?tk = "new_token tid uid h (e_utc V t1 + minutes 60) now" and ?u = "new_user uid un em gn fn ph now"
  let ?now = "e_db_now V (w_tick w2 + 1)"
  let ?w3 = "\<lparr>w_db = verified ?tk ?now (w_db w2), w_tick = w_tick w2 + 7\<rparr>"
  from mail obtain rnd tok tr' sp' at where
      gen: "generate_verification_token (l_b64 L) (l_sha256 L) rnd = Inr (tok, h)"
    and payload: "payload = l_encode L (verification_event L url oid em (gn @ '' '' @ fn) tr' sp' at tok)"
    by (auto simp: mails_token_def)
  have hash: "hash_verification_token (l_b64 L) (l_sha256 L) tok = Inr h"
    by (rule verification_token.hash_generate [OF libs_okD(1) [OF assms(1)] gen])
  have "usable ?tk h (e_utc V (w_tick w2 + 3)) (w_db w2)"
    using assms(4) by (auto simp: usable_def assms(6) w1 new_token_def new_user_def live_def)
  then have v: "verify_email L V tok w2 = (Inr (), ?w3)"
    using hash by (auto simp: verify_email_Inr_iff [OF K I] calmD [OF assms(2)])
  show thesis
  proof (rule that [OF _ _ _ v _ p])
    show "new_event oid uid payload tr sp now \<in> set (outbox (w_db w1))" by (simp add: w1)
    show "ob_published_at (new_event oid uid payload tr sp now) = None" by (simp add: new_event_def)
    show "ob_payload (new_event oid uid payload tr sp now) =
        l_encode L (verification_event L url oid em (gn @ '' '' @ fn) tr' sp' at tok)"
      by (simp add: new_event_def payload)
    show "activate_row ?now ?u \<in> set (users (w_db ?w3))"
      by (auto simp: verified_def assms(6) w1 new_token_def new_user_def live_def)
    show "signing_keys (w_db ?w3) = signing_keys (w_db w)" by (simp add: verified_def assms(6) w1)
    show "refresh_tokens (w_db ?w3) = refresh_tokens (w_db w)" by (simp add: verified_def assms(6) w1)
    show "inv L (w_db ?w3)"
      by (rule io_keepsD [OF constraints_kept.keeps_verify_email [OF K] I v])
  qed
qed

text \<open>With an active account, its password and a key that loads, what is left of a login is the issue of
  its tokens. That succeeds where writing headers and claims, signing and drawing random bytes do
  not fail, and the refresh token and its id are new.\<close>

definition issues_ok :: "'kp libs \<Rightarrow> env \<Rightarrow> db \<Rightarrow> bool" where
  "issues_ok L V d \<longleftrightarrow>
     (\<forall>h. header_to_vec (l_json L) h \<noteq> None) \<and>
     (\<forall>c. cl_custom c = [] \<longrightarrow> claims_to_vec (l_json L) c \<noteq> None) \<and>
     (\<forall>kp rnd m. ecdsa_sign (l_ecdsa L) kp rnd m \<noteq> None) \<and>
     (\<forall>t. \<exists>rnd. e_rand V t 32 = Some rnd \<and> l_sha256 L rnd \<notin> rt_token_hash ` set (refresh_tokens d)) \<and>
     (\<forall>t. e_uuid V t \<notin> rt_id ` set (refresh_tokens d))"

lemma issues_okD:
  assumes "issues_ok L V d"
  shows "header_to_vec (l_json L) h \<noteq> None" and "cl_custom c = [] \<Longrightarrow> claims_to_vec (l_json L) c \<noteq> None"
    and "ecdsa_sign (l_ecdsa L) kp rnd m \<noteq> None"
    and "\<exists>rnd. e_rand V t 32 = Some rnd \<and> l_sha256 L rnd \<notin> rt_token_hash ` set (refresh_tokens d)"
    and "e_uuid V t \<notin> rt_id ` set (refresh_tokens d)"
  using assms unfolding issues_ok_def by blast+

lemma email_owner_unique:
  assumes "db_inv low d" and "u \<in> set (users d)" and "live u" and "low (u_email u) = low em"
  shows "email_owner low d em = Some u"
  using sql_user_by_email_iff [OF assms(1), of em now "Some u" d] sql_user_by_email_owner [OF assms(1), of em now]
    assms(2-4) by simp

lemma login_calm:
  assumes "calm V" and "inv L (w_db w)" and "email_owner (l_lower L) (w_db w) em = Some u"
    and "u_status u = user_status_as_str Active"
    and "verify_password (l_password L) (l_feature L) pw (u_password_hash u) = Inr ()"
    and "newest_active (w_db w) = Some row" and "load_signing_key L kek row = Inr k"
  shows "login L V em pw kek w = issue_tokens L V (user_of u) k (w\<lparr>w_tick := w_tick w + 5\<rparr>)"
proof -
  have "usr_status (user_of u) = Active"
    using assms(4) db_inv_statuses [OF assms(2)] email_owner_Some [OF assms(3)] user_status_of_iff by blast
  moreover have "get_active_signing_key L V Primary kek v = (Inr k, v\<lparr>w_tick := w_tick v + 2\<rparr>)"
    if "w_db v = w_db w" for v :: world
    using assms(6,7) that
    by (simp add: get_active_signing_key_Inr_iff calmD [OF assms(1)] world_fold)
  ultimately show ?thesis
    using calm_user_by_email [OF assms(1), of L "w\<lparr>w_tick := Suc (w_tick w)\<rparr>"] assms(2,3,5)
    by (simp add: login_def andThen_def pool_get_def ask_def ret_def mapErr_def calmD [OF assms(1)]
        verify_password_blocking_def spawn_blocking_def pureR_def user_of_simps eval_nat_numeral)
qed

lemma claims_plain: "cl_custom (access_claims L u now j) = []" "cl_custom (id_claims L u now j) = []"
  by (simp_all add: access_claims_def id_claims_def default_claims_def)

lemma issue_tokens_succeeds:
  assumes "calm V" and "issues_ok L V (w_db w)" and "inv L (w_db w)" and "usr_id u \<in> u_id ` set (users (w_db w))"
  shows "\<exists>res w'. issue_tokens L V u k w = (Inr res, w')"
proof -
  have sign: "\<exists>t. sign_jwt (l_b64 L) (l_ecdsa L) (l_json L) rnd (ask_algorithm k) (ask_kid k) c (ask_key_pair k) = Inr t"
    if "cl_custom c = []" for rnd c
  proof -
    obtain h where "header_to_vec (l_json L) \<lparr>hdr_alg = algorithm_as_str (ask_algorithm k), hdr_typ = ''JWT'',
        hdr_kid = ask_kid k\<rparr> = Some h" using issues_okD(1) [OF assms(2)] by blast
    moreover obtain b where "claims_to_vec (l_json L) c = Some b" using issues_okD(2) [OF assms(2)] \<open>cl_custom c = []\<close> by blast
    moreover obtain sg where "ecdsa_sign (l_ecdsa L) (ask_key_pair k) rnd
        (as_bytes (b64url_encode (l_b64 L) h @ ''.'' @ b64url_encode (l_b64 L) b)) = Some sg"
      using issues_okD(3) [OF assms(2)] by blast
    ultimately show ?thesis by (simp add: sign_jwt_def Let_def)
  qed
  obtain at where at: "sign_jwt (l_b64 L) (l_ecdsa L) (l_json L) (e_sign_rand V (w_tick w + 2)) (ask_algorithm k)
      (ask_kid k) (access_claims L u (e_utc V (w_tick w)) (e_uuid V (w_tick w + 1))) (ask_key_pair k) = Inr at"
    using sign [OF claims_plain(1)] by blast
  obtain it where it: "sign_jwt (l_b64 L) (l_ecdsa L) (l_json L) (e_sign_rand V (w_tick w + 4)) (ask_algorithm k)
      (ask_kid k) (id_claims L u (e_utc V (w_tick w)) (e_uuid V (w_tick w + 3))) (ask_key_pair k) = Inr it"
    using sign [OF claims_plain(2)] by blast
  obtain rnd where rnd: "e_rand V (w_tick w + 5) 32 = Some rnd"
      "l_sha256 L rnd \<notin> rt_token_hash ` set (refresh_tokens (w_db w))"
    using issues_okD(4) [OF assms(2)] by blast
  have "refresh_violation (users (w_db w)) (refresh_tokens (w_db w) @
      [new_refresh (e_uuid V (w_tick w + 6)) (usr_id u) (l_sha256 L rnd) (e_utc V (w_tick w) + days 7)
        (e_db_now V (w_tick w + 8))]) = None"
    using assms(3,4) rnd(2) issues_okD(5) [OF assms(2)]
    by (auto simp: db_inv_def refresh_violation_def new_refresh_def split: if_splits)
  with at it rnd(1) show ?thesis
    by (simp add: issue_tokens_def andThen_def ask_def pureR_def ret_def mapErr_def pool_get_def
        insert_refresh_token_def generate_verification_token_def Let_def calmD [OF assms(1)]
        calm_exec [OF assms(1)] sql_insert_refresh_token_def new_refresh_def write_checked_def
        REFRESH_TOKEN_LIFETIME_DAYS_def eval_nat_numeral)
qed

end
