(* ===== verification/Sample_Identity.thy ===== *)
theory Sample_Identity
  imports Sample_Libs Login_Laws Identity_Service
begin

text \<open>
  A concrete deployment on which the witnesses run the identity service: the sample libraries, a
  calm environment, and a database with one active user, one pending user and one signing key.
\<close>

section \<open>Password hashing\<close>

definition sample_phc_string :: "phc \<Rightarrow> string" where
  "sample_phc_string h = (if phc_algorithm h = ALG_ID then CHR ''p'' else CHR ''a'') #
     hex_encode (case phc_hash h of Some out \<Rightarrow> out | None \<Rightarrow> []) @ ''$'' @
     (case phc_salt h of Some s \<Rightarrow> s | None \<Rightarrow> [])"

definition argon_phc :: "string \<Rightarrow> bytes \<Rightarrow> phc" where
  "argon_phc salt output = \<lparr>phc_algorithm = ''argon2id'', phc_version = Some 19, phc_params = [],
     phc_salt = Some salt, phc_hash = Some output\<rparr>"

definition sample_phc_parse :: "string \<Rightarrow> phc option" where
  "sample_phc_parse s =
     (case split_on CHR ''$'' s of
        (c # hex) # salt # rest \<Rightarrow>
          (case hex_decode_opt hex of
             None \<Rightarrow> None
           | Some out \<Rightarrow>
               (let full = join_with CHR ''$'' (salt # rest)
                in if c = CHR ''p''
                   then Some \<lparr>phc_algorithm = ALG_ID, phc_version = None, phc_params = [(''i'', [])],
                     phc_salt = Some full, phc_hash = Some out\<rparr>
                   else if c = CHR ''a'' then Some (argon_phc full out) else None))
      | _ \<Rightarrow> None)"

definition sample_password :: password_lib where
  "sample_password = \<lparr>phc_parse = sample_phc_parse, phc_to_string = sample_phc_string,
     decimal_string = (\<lambda>n. []), parse_decimal = (\<lambda>s. Some ITERATIONS), output_new = (\<lambda>x. Some x),
     argon2_params_ok = (\<lambda>m t p. True), argon2_hash = (\<lambda>cfg pw salt. Some (argon_phc salt pw)),
     argon2_verify = (\<lambda>pw h. phc_hash h = Some pw),
     pbkdf2_derive = (\<lambda>i salt pw n. take n (pw @ replicate n 0)),
     pbkdf2_verify = (\<lambda>i salt pw out. take (length out) (pw @ replicate (length out) 0) = out)\<rparr>"

lemma hex_no_dollar: "CHR ''$'' \<notin> set (hex_encode bs)"
proof
  assume "CHR ''$'' \<in> set (hex_encode bs)"
  then have "is_lower_digit (of_char CHR ''$'')" by (rule hex_encode_chars)
  then show False by (simp add: is_lower_digit_def)
qed

lemma sample_phc_round:
  "sample_phc_parse (CHR ''a'' # hex_encode out @ ''$'' @ salt) = Some (argon_phc salt out)"
  "sample_phc_parse (CHR ''p'' # hex_encode out @ ''$'' @ salt) =
     Some \<lparr>phc_algorithm = ALG_ID, phc_version = None, phc_params = [(''i'', [])],
       phc_salt = Some salt, phc_hash = Some out\<rparr>"
proof -
  have split: "split_on CHR ''$'' (c # hex_encode out @ ''$'' @ salt) = (c # hex_encode out) # split_on CHR ''$'' salt"
    if "c \<noteq> CHR ''$''" for c
    using split_on_append [of "CHR ''$''" "c # hex_encode out" salt] that hex_no_dollar by simp
  have dec: "hex_decode_opt (hex_encode out) = Some out"
    by (simp add: hex_decode_opt_def decode_hex_encode)
  obtain x xs where x: "split_on CHR ''$'' salt = x # xs"
    by (cases "split_on CHR ''$'' salt") auto
  have j: "join_with CHR ''$'' (x # xs) = salt"
    using join_split_on [of "CHR ''$''" salt] by (simp only: x)
  show "sample_phc_parse (CHR ''a'' # hex_encode out @ ''$'' @ salt) = Some (argon_phc salt out)"
    "sample_phc_parse (CHR ''p'' # hex_encode out @ ''$'' @ salt) =
       Some \<lparr>phc_algorithm = ALG_ID, phc_version = None, phc_params = [(''i'', [])],
         phc_salt = Some salt, phc_hash = Some out\<rparr>"
    unfolding sample_phc_parse_def
    by (subst split; simp add: x dec j Let_def)+
qed

lemma sample_password_ok: "password_lib_ok sample_password"
  by (auto simp: password_lib_ok_def sample_password_def sample_phc_string_def sample_phc_round [simplified]
      argon_phc_def pbkdf2_phc_def ALG_ID_def)

section \<open>The deployment\<close>

definition sample_user :: user_row where
  "sample_user = \<lparr>u_id = 1, u_username = ''alice'', u_email = ''a@b.c'', u_given_name = ''Al'',
     u_family_name = ''Ice'', u_password_hash = sample_phc_string (argon_phc ''salt'' (as_bytes ''password'')),
     u_email_verified = True, u_status = ''active'', u_created_at = 0, u_updated_at = 0, u_deleted_at = None\<rparr>"

definition sample_pending :: user_row where
  "sample_pending = \<lparr>u_id = 2, u_username = ''bob'', u_email = ''b@b.c'', u_given_name = ''Bo'',
     u_family_name = ''B'', u_password_hash = sample_phc_string (argon_phc ''salt'' (as_bytes ''password'')),
     u_email_verified = False, u_status = ''pending_verification'', u_created_at = 0, u_updated_at = 0,
     u_deleted_at = None\<rparr>"

definition sample_key_row :: signing_key_row where
  "sample_key_row = \<lparr>sk_kid = ''k1'', sk_algorithm = ''ES256'',
     sk_encrypted_private_key = replicate 12 9 @ sample_der @ replicate 16 1, sk_public_jwk = [],
     sk_status = ''active'', sk_created_at = 0\<rparr>"

definition sample_token :: token_row where
  "sample_token = \<lparr>t_id = 50, t_user_id = 2, t_token_hash = [3, 2, 1], t_expires_at = minutes 60,
     t_consumed_at = None, t_created_at = 0\<rparr>"

definition sample_db :: db where
  "sample_db = \<lparr>users = [sample_user, sample_pending], tokens = [sample_token], refresh_tokens = [],
     outbox = [], signing_keys = [sample_key_row]\<rparr>"

definition sample_world :: world where
  "sample_world = \<lparr>w_db = sample_db, w_tick = 100\<rparr>"

definition sample_env :: env where
  "sample_env = \<lparr>e_pool = (\<lambda>t. True), e_stmt = (\<lambda>t. Delivered), e_others = (\<lambda>t d. d),
     e_replica = (\<lambda>t d. d), e_db_now = (\<lambda>t. minutes 10), e_utc = (\<lambda>t. minutes 10),
     e_unix_time = (\<lambda>t. Some 700), e_rand = (\<lambda>t n. Some (replicate n (of_nat t))),
     e_sign_rand = (\<lambda>t. []), e_salt = (\<lambda>t. ''salt''), e_uuid = of_nat,
     e_trace = (\<lambda>t. None), e_join = (\<lambda>t. True), e_pkcs8 = (\<lambda>t alg. Some sample_der)\<rparr>"

lemma sample_env_calm: "calm sample_env"
  by (simp add: calm_def sample_env_def)

definition sample_kek :: kek where
  "sample_kek = \<lparr>kek_bytes = replicate 32 1\<rparr>"

definition sample_libs :: "json_lib \<Rightarrow> bytes libs" where
  "sample_libs J = \<lparr>l_b64 = hex64, l_uuid = sample_uuid, l_sha256 = rev, l_aead = sample_aead,
     l_ecdsa = sample_ecdsa, l_json = J, l_password = sample_password, l_feature = Argon2_Feature,
     l_lower = (\<lambda>s. s), l_encode = (\<lambda>m. as_bytes (em_recipient_email m)), l_checks = True\<rparr>"

lemma sample_libs_simps [simp]:
  "l_b64 (sample_libs J) = hex64" "l_uuid (sample_libs J) = sample_uuid" "l_sha256 (sample_libs J) = rev"
  "l_aead (sample_libs J) = sample_aead" "l_ecdsa (sample_libs J) = sample_ecdsa"
  "l_json (sample_libs J) = J" "l_password (sample_libs J) = sample_password"
  "l_feature (sample_libs J) = Argon2_Feature" "l_lower (sample_libs J) = (\<lambda>s. s)"
  "l_encode (sample_libs J) = (\<lambda>m. as_bytes (em_recipient_email m))" "l_checks (sample_libs J) = True"
  by (simp_all add: sample_libs_def)

lemma sample_env_simps [simp]:
  "e_pool sample_env t" "e_stmt sample_env t = Delivered" "e_others sample_env t d = d"
  "e_replica sample_env t d = d" "e_db_now sample_env t = minutes 10" "e_utc sample_env t = minutes 10"
  "e_unix_time sample_env t = Some 700" "e_rand sample_env t n = Some (replicate n (of_nat t))"
  "e_sign_rand sample_env t = []" "e_salt sample_env t = ''salt''" "e_uuid sample_env t = of_nat t"
  "e_trace sample_env t = None" "e_join sample_env t" "e_pkcs8 sample_env t a = Some sample_der"
  by (simp_all add: sample_env_def)

lemma sample_world_simps [simp]: "w_db sample_world = sample_db" "w_tick sample_world = 100"
  by (simp_all add: sample_world_def)

lemma sample_db_inv: "db_inv (\<lambda>s. s) sample_db"
  by (simp add: db_inv_def sample_db_def users_violation_def tokens_violation_def refresh_violation_def
      outbox_violation_def signing_keys_violation_def sample_user_def sample_pending_def sample_token_def
      live_def valid_status_def user_status_from_str_def)

text \<open>The JSON of the deployment: any header and claims, the public key of the one key row, and that
  of the key which a start on an empty store generates.\<close>

definition login_json :: json_lib where
  "login_json = byte_json [\<lparr>jwk_kty = ''EC'', jwk_use = ''sig'', jwk_kid = ''k1'', jwk_alg = ''ES256'',
       jwk_crv = ''P-256'', jwk_x = hex_encode (replicate 32 7), jwk_y = hex_encode (replicate 32 7)\<rparr>,
     \<lparr>jwk_kty = ''EC'', jwk_use = ''sig'', jwk_kid = replicate 105 CHR ''u'', jwk_alg = ''ES256'',
       jwk_crv = ''P-256'', jwk_x = hex_encode (replicate 32 7), jwk_y = hex_encode (replicate 32 7)\<rparr>]"

abbreviation login_libs :: "bytes libs" where
  "login_libs \<equiv> sample_libs login_json"

lemma login_json_simps [simp]:
  "header_to_vec login_json h = Some (put_header h)" "claims_to_vec login_json c = Some (put_claims c)"
  "claims_from_slice login_json b = Some (get_claims b)"
  by (simp_all add: login_json_def byte_json_def)

section \<open>A login on it\<close>

lemma sample_owner: "email_owner (\<lambda>s. s) sample_db ''a@b.c'' = Some sample_user"
  by (simp add: email_owner_def sample_db_def sample_user_def live_def)

lemma sample_login_user:
  "get_user_by_email login_libs sample_env (Conn Primary) ''a@b.c'' (sample_world\<lparr>w_tick := 101\<rparr>)
     = (Inr (Some (user_of sample_user)), sample_world\<lparr>w_tick := 102\<rparr>)"
  using calm_user_by_email [OF sample_env_calm, of login_libs "sample_world\<lparr>w_tick := 101\<rparr>" "''a@b.c''"]
  by (simp add: sample_db_inv sample_owner)

lemma sample_pw: "verify_password sample_password Argon2_Feature ''password'' (u_password_hash sample_user) = Inr ()"
  by (simp add: verify_password_def sample_user_def sample_password_def sample_phc_string_def argon_phc_def ALG_ID_def
     sample_phc_round [simplified])

lemma sample_key_loads: "load_signing_key login_libs sample_kek sample_key_row =
   Inr \<lparr>ask_kid = ''k1'', ask_algorithm = ES256, ask_key_pair = sample_der\<rparr>"
proof -
  have "encrypted_key_from_bytes (replicate 12 9 @ sample_der @ replicate 16 1) =
      Inr \<lparr>enc_data = replicate 12 9 @ sample_der @ replicate 16 1\<rparr>"
    by (simp add: encrypted_key_from_bytes_def NONCE_LEN_def TAG_LEN_def sample_der_def)
  moreover have "decrypt_private_key sample_aead (replicate 32 1)
      \<lparr>enc_data = replicate 12 9 @ sample_der @ replicate 16 1\<rparr> a = Inr sample_der" for a
    unfolding decrypt_Inr_iff [OF sample_aead_ok]
    by (rule conjI, simp, rule exI [of _ "replicate 12 9"], rule exI [of _ "sample_der @ replicate 16 1"],
        simp add: NONCE_LEN_def sample_aead_def)
  moreover have "key_from_pkcs8 sample_ecdsa (signing_algorithm ES256) sample_der = Some sample_der"
    by (simp add: sample_ecdsa_def sample_der_def)
  ultimately show ?thesis
    by (simp add: load_signing_key_def sample_key_row_def algorithm_from_str_def sample_kek_def key_pair_from_pkcs8_def Let_def)
qed

lemma sample_newest: "newest_active sample_db = Some sample_key_row"
  by (simp add: newest_active_def sample_db_def sample_key_row_def)

lemma sample_signs:
  "\<exists>t. sign_jwt hex64 sample_ecdsa login_json r ES256 ''k1''
     (access_claims login_libs (user_of sample_user) (minutes 10) 106) sample_der = Inr t"
  "\<exists>t. sign_jwt hex64 sample_ecdsa login_json r ES256 ''k1''
     (id_claims login_libs (user_of sample_user) (minutes 10) 108) sample_der = Inr t"
  by (simp_all add: sign_jwt_def sample_ecdsa_def)

lemma sample_ids [simp]: "u_id sample_user = 1" "u_id sample_pending = 2"
  by (simp_all add: sample_user_def sample_pending_def)

lemma sample_libs_ok: "libs_ok login_libs"
  by (simp add: libs_ok_def hex64_ok sample_uuid_ok sample_aead_ok sample_ecdsa_ok sample_password_ok
      login_json_def byte_json_ok)

lemma sample_login:
  "\<exists>res w'. login login_libs sample_env ''a@b.c'' ''password'' sample_kek sample_world = (Inr res, w')"
proof -
  obtain at it where "sign_jwt hex64 sample_ecdsa login_json [] ES256 ''k1''
      (access_claims login_libs (user_of sample_user) (minutes 10) 106) sample_der = Inr at"
    and "sign_jwt hex64 sample_ecdsa login_json [] ES256 ''k1''
      (id_claims login_libs (user_of sample_user) (minutes 10) 108) sample_der = Inr it"
    using sample_signs [of "[]"] by blast
  moreover have "usr_status (user_of sample_user) = Active"
    by (simp add: user_of_def sample_user_def user_status_from_str_def)
  ultimately show ?thesis
    by (simp add: login_def io_Inr_iff sample_login_user sample_pw verify_password_blocking_def
        user_of_simps get_active_signing_key_Inr_iff sample_newest sample_key_loads issue_tokens_def
        Let_def generate_verification_token_def insert_refresh_token_def exec_Inr_iff
        sql_insert_refresh_token_def refresh_violation_def, simp add: sample_db_def)
qed

end
