(* ===== verification/Outbox_Props.thy ===== *)
theory Outbox_Props
  imports Outbox_Exact Identity_Service Sample_Identity
begin

text \<open>
  The properties of the outbox: delivery at least once under every failure, a single leader,
  delivery exactly once without faults, the order of delivery, and what blocks it.
\<close>

section \<open>One poll\<close>

definition published_ids :: "db \<Rightarrow> uuid set" where
  "published_ids d = set (map ob_id (filter (\<lambda>r. ob_published_at r \<noteq> None) (outbox d)))"

lemma published_ids_update:
  "set (map ob_id (filter (\<lambda>r. ob_published_at r \<noteq> None)
       (update_where (\<lambda>r. ob_id r = i) (\<lambda>r. r\<lparr>ob_published_at := Some now\<rparr>) rs))) =
     (if i \<in> ob_id ` set rs then {i} else {}) \<union>
     set (map ob_id (filter (\<lambda>r. ob_published_at r \<noteq> None) rs))"
  by (induction rs) (auto simp: update_where_def simp del: set_map set_filter)

lemma published_ids_set_published:
  "i \<in> ob_id ` set (outbox d) \<Longrightarrow> published_ids (set_published i now d) = insert i (published_ids d)"
  using published_ids_update [of i now "outbox d"] by (simp add: published_ids_def set_published_def)

lemma ids_image_set_published [simp]:
  "ob_id ` set (outbox (set_published i now d)) = ob_id ` set (outbox d)"
  by (metis ids_set_published list.set_map)

lemma published_ids_mark_all:
  "oe_id ` fst ` set ems \<subseteq> ob_id ` set (outbox d) \<Longrightarrow>
     published_ids (mark_all ems d) = oe_id ` fst ` set ems \<union> published_ids d"
  by (induction ems d rule: mark_all.induct) (auto simp: published_ids_set_published)

lemma events_mark_all [simp]:
  "map event_of_row (outbox (mark_all ems d)) = map event_of_row (outbox d)"
  by (induction ems d rule: mark_all.induct) auto

definition batch_of :: "kafka_config \<Rightarrow> db \<Rightarrow> outbox_event list" where
  "batch_of c d = map event_of_row (take (nat (kafka_batch_size c)) (pending d))"

lemma batch_of_ids: "oe_id ` set (batch_of c d) \<subseteq> ob_id ` set (outbox d)"
  by (auto simp: batch_of_def set_pending dest!: in_set_takeD)

definition replies_needed :: "kafka_config \<Rightarrow> publisher \<Rightarrow> db \<Rightarrow> nat" where
  "replies_needed c p d =
     (let mails = filter routable (batch_of c d)
      in 3 + (if ''email.auth'' \<in> set (pub_topics p) \<or> mails = [] then 0 else 1) + 2 * length mails)"

lemma fetch_well:
  "all_well rp \<Longrightarrow> 0 \<le> kafka_batch_size c \<Longrightarrow>
     fetch_unpublished rp (kafka_batch_size c) d = (Inr (batch_of c d), d)"
  by (simp add: prod_eq_iff fetch_unpublished_Inr_iff all_well_def batch_of_def)

lemma poll_reaches_batch:
  assumes "pub_phase p = Waiting" and "pub_session_open p" and "sh_lock s \<in> {None, Some me}"
    and "0 \<le> kafka_batch_size c" and "all_well r1" "all_well r2" "all_well r3"
  shows "run_publisher U c me [r1, r2, r3] (p, s) =
    (p\<lparr>pub_is_leader := True, pub_phase := next_event (pub_topics p) (batch_of c (sh_db s))\<rparr>,
     s\<lparr>sh_lock := Some me\<rparr>)"
  using assms
  by (auto simp: publisher_step_defs try_acquire_leader_lock_def pg_try_advisory_lock_def fetch_well
      all_well_def)

lemma next_event_unconnected:
  "''email.auth'' \<notin> set ts \<Longrightarrow> filter routable es \<noteq> [] \<Longrightarrow>
     \<exists>e rest. next_event ts es = Connecting ''email.auth'' e rest \<and>
       next_event (''email.auth'' # ts) es = Producing ''email.auth'' e rest"
  by (induction es) (auto simp: route_topic_def routable_def)

lemma next_event_none: "filter routable es = [] \<Longrightarrow> next_event ts es = Waiting"
  by (induction es) (auto simp: route_topic_def routable_def split: if_splits)

lemma poll_run:
  assumes "pub_phase p = Waiting" and "pub_session_open p" and "sh_lock s \<in> {None, Some me}"
    and "0 \<le> kafka_batch_size c" and dist: "distinct (map ob_id (outbox (sh_db s)))"
    and well: "\<forall>rp \<in> set rps. all_well rp" and len: "length rps = replies_needed c p (sh_db s)"
  shows "\<exists>p' times log. run_publisher U c me rps (p, s) =
      (p', s\<lparr>sh_lock := Some me,
         sh_db := mark_all (zip (filter routable (batch_of c (sh_db s))) times) (sh_db s),
         sh_log := (sh_log s)(''email.auth'' := sh_log s ''email.auth'' @ log)\<rparr>) \<and>
     pub_phase p' = Waiting \<and> length times = length (filter routable (batch_of c (sh_db s))) \<and>
     map kv log = map (kv_of U) (filter routable (batch_of c (sh_db s)))"
proof -
  let ?es = "batch_of c (sh_db s)" and ?topic = "''email.auth''"
  let ?p = "p\<lparr>pub_is_leader := True\<rparr>" and ?s = "s\<lparr>sh_lock := Some me\<rparr>"
  obtain r1 r2 r3 rest where rps: "rps = [r1, r2, r3] @ rest"
    using len by (auto simp: replies_needed_def Let_def numeral_eq_Suc length_Suc_conv)
  have well': "\<forall>rp \<in> set rest. all_well rp" using well rps by simp
  have start: "run_publisher U c me rps (p, s) =
      run_publisher U c me rest (?p\<lparr>pub_phase := next_event (pub_topics p) ?es\<rparr>, ?s)"
  proof -
    have "all_well r1" "all_well r2" "all_well r3" using well rps by auto
    from poll_reaches_batch [OF assms(1-4) this] show ?thesis
      unfolding rps run_publisher_append by (rule arg_cong)
  qed
  show ?thesis
  proof (cases "?topic \<in> set (pub_topics p) \<or> filter routable ?es = []")
    case True
    show ?thesis
    proof (cases "?topic \<in> set (pub_topics p)")
      case True
      have "length rest = 2 * length (filter routable ?es)"
        using len True rps by (simp add: replies_needed_def)
      with True dist well' have "\<exists>times log.
          run_publisher U c me rest (?p\<lparr>pub_phase := next_event (pub_topics p) ?es\<rparr>, ?s) =
            (?p\<lparr>pub_phase := Waiting\<rparr>, ?s\<lparr>sh_db := mark_all (zip (filter routable ?es) times) (sh_db s),
              sh_log := (sh_log s)(?topic := sh_log s ?topic @ log)\<rparr>) \<and>
          length times = length (filter routable ?es) \<and> map kv log = map (kv_of U) (filter routable ?es)"
        using batch_run [of "?p\<lparr>pub_phase := next_event (pub_topics p) ?es\<rparr>" ?es ?s rest U c me] by simp
      then show ?thesis unfolding start by fastforce
    next
      case False
      then have none: "filter routable ?es = []" using True by simp
      then have "next_event (pub_topics p) ?es = Waiting"
        by (rule next_event_none)
      moreover have "rest = []" using len rps none by (simp add: replies_needed_def)
      ultimately show ?thesis
        using none by (intro exI [of _ "?p\<lparr>pub_phase := Waiting\<rparr>"] exI [of _ "[]"]) (simp add: start)
    qed
  next
    case False
    obtain e es' where con: "next_event (pub_topics p) ?es = Connecting ?topic e es'"
      "next_event (?topic # pub_topics p) ?es = Producing ?topic e es'"
      using False next_event_unconnected by blast
    obtain r4 rest' where rest: "rest = r4 # rest'" "length rest' = 2 * length (filter routable ?es)"
      using len False rps by (auto simp: replies_needed_def length_Suc_conv)
    let ?q = "?p\<lparr>pub_phase := next_event (?topic # pub_topics p) ?es, pub_topics := ?topic # pub_topics p\<rparr>"
    have "run_publisher U c me rest (?p\<lparr>pub_phase := next_event (pub_topics p) ?es\<rparr>, ?s) =
        run_publisher U c me rest' (?q, ?s)"
      using well' rest by (simp add: con publisher_step_defs all_well_def)
    moreover have "\<exists>times log. run_publisher U c me rest' (?q, ?s) =
          (?q\<lparr>pub_phase := Waiting\<rparr>, ?s\<lparr>sh_db := mark_all (zip (filter routable ?es) times) (sh_db s),
            sh_log := (sh_log s)(?topic := sh_log s ?topic @ log)\<rparr>) \<and>
        length times = length (filter routable ?es) \<and> map kv log = map (kv_of U) (filter routable ?es)"
      using batch_run [of ?q ?es ?s rest' U c me] dist well' rest by simp
    ultimately show ?thesis unfolding start by fastforce
  qed
qed

section \<open>A blocked outbox\<close>

text \<open>The oldest pending rows fill a batch, and none of them has a topic.\<close>

definition blocked :: "kafka_config \<Rightarrow> db \<Rightarrow> bool" where
  "blocked c d \<longleftrightarrow>
     nat (kafka_batch_size c) \<le> length (pending d) \<and> filter routable (batch_of c d) = []"

text \<open>Rows committed later are not older than those that are there.\<close>

definition created_in_order :: "system \<Rightarrow> event \<Rightarrow> bool" where
  "created_in_order s ev =
     (case ev of
        Commit d \<Rightarrow>
          (let old = outbox (sh_db (sys_shared s))
           in \<forall>r \<in> set (drop (length old) (outbox d)). \<forall>r0 \<in> set old. ob_created_at r0 \<le> ob_created_at r)
      | _ \<Rightarrow> True)"

lemma sort_key_append:
  assumes "\<forall>x \<in> set xs. \<forall>y \<in> set ys. f x \<le> f y"
  shows "sort_key f (xs @ ys) = sort_key f xs @ sort_key f ys"
proof -
  have stable: "filter (\<lambda>x. f k = f x) (sort_key f zs) = filter (\<lambda>x. f k = f x) zs" for k zs
    using sort_key_stable [of f "f k" zs] by (simp add: eq_commute)
  show ?thesis
    by (rule properties_for_sort_key) (use assms in \<open>auto simp: sorted_append stable\<close>)
qed

lemma pending_grows:
  assumes "outbox d' = outbox d @ new"
    and "\<forall>r \<in> set new. \<forall>r0 \<in> set (outbox d). ob_created_at r0 \<le> ob_created_at r"
  shows "\<exists>newer. pending d' = pending d @ newer"
  using assms by (auto simp: pending_def sort_key_append)

lemma blocked_grows:
  assumes "blocked c d" and "pending d' = pending d @ newer"
  shows "blocked c d'"
  using assms by (simp add: blocked_def batch_of_def)

definition stuck :: "kafka_config \<Rightarrow> (string \<Rightarrow> kafka_record list) \<Rightarrow> system \<Rightarrow> bool" where
  "stuck c log s \<longleftrightarrow>
     blocked c (sh_db (sys_shared s)) \<and> sh_log (sys_shared s) = log \<and>
     (\<forall>i. in_hand (pub_phase (sys_pubs s i)) = [])"

lemma stuck_step:
  assumes st: "publisher_step U c i rp p s = (p', s')"
    and "blocked c (sh_db s)" and "in_hand (pub_phase p) = []"
  shows "sh_db s' = sh_db s \<and> sh_log s' = sh_log s \<and> in_hand (pub_phase p') = []"
proof (cases "pub_phase p")
  case Fetching
  obtain r d where r: "fetch_unpublished rp (kafka_batch_size c) (sh_db s) = (r, d)" by fastforce
  then have d: "d = sh_db s" using fetch_unpublished_db [of rp "kafka_batch_size c" "sh_db s"] by simp
  have "next_event (pub_topics p) es = Waiting" if "r = Inr es" for es
  proof (rule next_event_none)
    have "fst (fetch_unpublished rp (kafka_batch_size c) (sh_db s)) = Inr es" using r that by simp
    then show "filter routable es = []"
      using assms(2) by (simp add: fetch_unpublished_Inr_iff blocked_def batch_of_def)
  qed
  then show ?thesis using st Fetching r d by (auto simp: publisher_step_defs split: sum.splits)
qed (use st assms(3) in \<open>auto simp: publisher_step_defs split: prod.splits if_splits\<close>)

lemma stuck_sys_step:
  assumes "sys_step U c s ev s'" and "stuck c log s" and "created_in_order s ev"
  shows "stuck c log s'"
  using assms(1)
proof (cases rule: sys_stepE)
  case (step i rp p sh)
  have "sh_db sh = sh_db (sys_shared s) \<and> sh_log sh = sh_log (sys_shared s) \<and> in_hand (pub_phase p) = []"
    by (rule stuck_step [OF step(3)]) (use assms(2) in \<open>simp_all add: stuck_def\<close>)
  then show ?thesis using assms(2) step(2) by (simp add: stuck_def)
next
  case (commit d)
  then obtain new where "outbox d = outbox (sh_db (sys_shared s)) @ new" by (auto simp: outbox_grows_def)
  moreover from this have "\<forall>r \<in> set new. \<forall>r0 \<in> set (outbox (sh_db (sys_shared s))).
      ob_created_at r0 \<le> ob_created_at r"
    using assms(3) commit(1) by (simp add: created_in_order_def)
  ultimately obtain newer where "pending d = pending (sh_db (sys_shared s)) @ newer"
    using pending_grows by blast
  then show ?thesis using assms(2) commit(2) by (auto simp: stuck_def intro: blocked_grows)
qed (use assms(2) in \<open>auto simp: stuck_def Outbox.cancel_def\<close>)

lemma reach_stuck: "reach U c created_in_order s0 s \<Longrightarrow> stuck c log s0 \<Longrightarrow> stuck c log s"
  by (induction rule: reach.induct) (auto intro: stuck_sys_step)

section \<open>Runs of one replica as reachability\<close>

lemma reach_run:
  assumes "reach U c P s0 s" and "\<And>s rp. rp \<in> set rps \<Longrightarrow> P s (Step i rp)"
    and "run_publisher U c i rps (sys_pubs s i, sys_shared s) = (p, sh)"
  shows "reach U c P s0 \<lparr>sys_pubs = (sys_pubs s)(i := p), sys_shared = sh\<rparr>"
  using assms
proof (induction rps arbitrary: s)
  case Nil
  then have "s = \<lparr>sys_pubs = (sys_pubs s)(i := p), sys_shared = sh\<rparr>" by (cases s) auto
  then show ?case using Nil.prems(1) by metis
next
  case (Cons rp rps)
  obtain p1 sh1 where one: "publisher_step U c i rp (sys_pubs s i) (sys_shared s) = (p1, sh1)"
    by fastforce
  let ?s1 = "\<lparr>sys_pubs = (sys_pubs s)(i := p1), sys_shared = sh1\<rparr>"
  have "reach U c P s0 ?s1"
    by (rule reach.more [OF Cons.prems(1) Cons.prems(2) sys_step.step [OF one]]) simp
  moreover have "((sys_pubs s)(i := p1))(i := p) = (sys_pubs s)(i := p)" by simp
  ultimately show ?case using Cons.IH [of ?s1] Cons.prems(2,3) one by (simp del: fun_upd_apply add: fun_upd_same)
qed

lemma well_fault_free: "all_well rp \<Longrightarrow> fault_free s (Step i rp)"
  by (auto simp: fault_free_def all_well_def mark_arrives_def split: phase.split)

section \<open>The properties\<close>

text \<open>C7. Delivery at least once. Any number of replicas run against one outbox, in any
  interleaving with the service's commits; every lock, fetch, append and mark may fail, or be carried
  out with its reply lost; sessions drop at any moment. In every reachable state, a row is marked
  published only if a record with its aggregate id as key and its payload as value is in the log of
  the topic its event type routes to.\<close>
theorem outbox_at_least_once:
  assumes "distinct (map ob_id (outbox d))"
    and "\<forall>r \<in> set (outbox d). ob_published_at r \<noteq> None \<longrightarrow> logged U log (event_of_row r)"
    and "reach U c any (started d log) s"
    and "r \<in> set (outbox (sh_db (sys_shared s)))" and "ob_published_at r \<noteq> None"
  shows "logged U (sh_log (sys_shared s)) (event_of_row r)"
proof -
  have "sys_ok U (started d log)"
    using assms(1,2) by (intro started_ok) (simp_all add: published_logged_def started_def)
  from reach_ok [OF assms(3) this] assms(4,5) show ?thesis
    by (auto simp: sys_ok_def shared_ok_def published_logged_def)
qed

definition sample_mail_row :: outbox_row where
  "sample_mail_row = \<lparr>ob_id = 1, ob_aggregate_type = ''user'', ob_aggregate_id = 7,
     ob_event_type = ''auth_email'', ob_payload = [1, 2], ob_trace_id = None, ob_span_id = None,
     ob_created_at = 5, ob_published_at = None\<rparr>"

definition sample_odd_row :: outbox_row where
  "sample_odd_row = \<lparr>ob_id = 2, ob_aggregate_type = ''user'', ob_aggregate_id = 7,
     ob_event_type = ''audit'', ob_payload = [3], ob_trace_id = None, ob_span_id = None,
     ob_created_at = 4, ob_published_at = None\<rparr>"

definition sample_reply :: reply where
  "sample_reply = \<lparr>rp_outcome = Delivered, rp_pool = True, rp_now = 9, rp_utc = 9, rp_span = None,
     rp_timer = True, rp_kafka_error = []\<rparr>"

abbreviation "sample_outbox \<equiv> empty_db\<lparr>outbox := [sample_mail_row, sample_odd_row]\<rparr>"

abbreviation "sample_start \<equiv> started sample_outbox (\<lambda>_. [])"

lemma sample_rows_distinct: "distinct (map ob_id (outbox sample_outbox))"
  by (simp add: sample_mail_row_def sample_odd_row_def)

lemma sample_pending: "pending sample_outbox = [sample_odd_row, sample_mail_row]"
  by (simp add: pending_def sample_mail_row_def sample_odd_row_def)

lemma sample_batch:
  "batch_of default_kafka_config sample_outbox = map event_of_row [sample_odd_row, sample_mail_row]"
  by (simp only: batch_of_def sample_pending) (simp add: default_kafka_config_def)

lemma sample_routable:
  "filter routable (batch_of default_kafka_config sample_outbox) = [event_of_row sample_mail_row]"
  by (simp add: sample_batch) (simp add: routable_def event_of_row_def sample_mail_row_def sample_odd_row_def)

text \<open>Two steps to start a replica, then one poll.\<close>

lemma sample_poll:
  "\<exists>p sh. run_publisher sample_uuid default_kafka_config 0 (replicate 8 sample_reply)
       (spawn, sys_shared sample_start) = (p, sh) \<and> pub_phase p = Waiting \<and> sh_lock sh = Some 0 \<and>
     published_ids (sh_db sh) = {1} \<and>
     map kv (sh_log sh ''email.auth'') = [kv_of sample_uuid (event_of_row sample_mail_row)] \<and>
     map event_of_row (outbox (sh_db sh)) = map event_of_row (outbox sample_outbox)"
proof -
  let ?c = default_kafka_config and ?s = "sys_shared sample_start"
  let ?p = "spawn\<lparr>pub_phase := Waiting, pub_is_leader := False\<rparr>"
  have "replicate 8 sample_reply = [sample_reply, sample_reply] @ replicate 6 sample_reply"
    by (simp add: numeral_eq_Suc)
  moreover have "run_publisher sample_uuid ?c 0 [sample_reply, sample_reply] (spawn, ?s) = (?p, ?s)"
    by (simp add: publisher_step_defs sample_reply_def spawn_def)
  ultimately have start: "run_publisher sample_uuid ?c 0 (replicate 8 sample_reply) (spawn, ?s) =
      run_publisher sample_uuid ?c 0 (replicate 6 sample_reply) (?p, ?s)"
    by (simp only: run_publisher_append)
  have db: "sh_db ?s = sample_outbox" by (simp add: started_def)
  obtain p' times log where r:
    "run_publisher sample_uuid ?c 0 (replicate 6 sample_reply) (?p, ?s) =
      (p', ?s\<lparr>sh_lock := Some 0,
         sh_db := mark_all (zip (filter routable (batch_of ?c (sh_db ?s))) times) (sh_db ?s),
         sh_log := (sh_log ?s)(''email.auth'' := sh_log ?s ''email.auth'' @ log)\<rparr>)"
    "pub_phase p' = Waiting" "length times = length (filter routable (batch_of ?c (sh_db ?s)))"
    "map kv log = map (kv_of sample_uuid) (filter routable (batch_of ?c (sh_db ?s)))"
  proof -
    have "\<exists>p' times log. run_publisher sample_uuid ?c 0 (replicate 6 sample_reply) (?p, ?s) =
      (p', ?s\<lparr>sh_lock := Some 0,
         sh_db := mark_all (zip (filter routable (batch_of ?c (sh_db ?s))) times) (sh_db ?s),
         sh_log := (sh_log ?s)(''email.auth'' := sh_log ?s ''email.auth'' @ log)\<rparr>) \<and>
      pub_phase p' = Waiting \<and> length times = length (filter routable (batch_of ?c (sh_db ?s))) \<and>
      map kv log = map (kv_of sample_uuid) (filter routable (batch_of ?c (sh_db ?s)))"
      by (rule poll_run)
        (simp_all add: db replies_needed_def sample_routable,
         simp_all add: sample_mail_row_def sample_odd_row_def started_def spawn_def default_kafka_config_def all_well_def sample_reply_def)
    then show thesis using that by blast
  qed
  obtain t where t: "times = [t]" using r(3) by (auto simp: db sample_routable length_Suc_conv)
  let ?m = "mark_all [(event_of_row sample_mail_row, t)] sample_outbox"
  have m: "mark_all (zip (filter routable (batch_of ?c (sh_db ?s))) times) (sh_db ?s) = ?m"
    by (simp add: db sample_routable t)
  have "published_ids ?m = {1}"
    by (subst published_ids_mark_all)
      (simp_all add: published_ids_def sample_mail_row_def sample_odd_row_def)
  moreover have "map event_of_row (outbox ?m) = map event_of_row (outbox sample_outbox)"
    by (rule events_mark_all)
  moreover have "map kv log = [kv_of sample_uuid (event_of_row sample_mail_row)]"
    using r(4) by (simp add: db sample_routable)
  ultimately show ?thesis
    unfolding start r(1) m using r(2) by (simp add: started_def)
qed

lemma sample_reach:
  assumes "\<And>s. P s (Step 0 sample_reply)"
  shows "\<exists>s. reach sample_uuid default_kafka_config P sample_start s \<and>
    (\<forall>i e es. pub_phase (sys_pubs s i) \<noteq> Marking e es) \<and> published_ids (sh_db (sys_shared s)) = {1} \<and>
    map kv (sh_log (sys_shared s) ''email.auth'') = [kv_of sample_uuid (event_of_row sample_mail_row)]"
proof -
  obtain p sh where run: "run_publisher sample_uuid default_kafka_config 0 (replicate 8 sample_reply)
       (sys_pubs sample_start 0, sys_shared sample_start) = (p, sh)"
    "pub_phase p = Waiting" "published_ids (sh_db sh) = {1}"
    "map kv (sh_log sh ''email.auth'') = [kv_of sample_uuid (event_of_row sample_mail_row)]"
    using sample_poll by (auto simp: started_def)
  let ?s = "\<lparr>sys_pubs = (sys_pubs sample_start)(0 := p), sys_shared = sh\<rparr>"
  have "reach sample_uuid default_kafka_config P sample_start ?s"
    by (rule reach_run [OF reach.start _ run(1)]) (use assms in auto)
  moreover have "pub_phase (sys_pubs ?s i) \<noteq> Marking e es" for i e es
    using run(2) by (simp add: started_def spawn_def)
  ultimately show ?thesis using run(3,4) by (intro exI [of _ ?s]) auto
qed

lemma sample_unpublished:
  "\<forall>r \<in> set (outbox sample_outbox). ob_published_at r \<noteq> None \<longrightarrow> logged U log (event_of_row r)"
  by (simp add: sample_mail_row_def sample_odd_row_def)

lemma sample_well: "all_well sample_reply"
  by (simp add: all_well_def sample_reply_def)

theorem outbox_at_least_once_witness:
  "\<exists>s r. reach sample_uuid default_kafka_config any sample_start s \<and>
     r \<in> set (outbox (sh_db (sys_shared s))) \<and> ob_published_at r \<noteq> None \<and>
     logged sample_uuid (sh_log (sys_shared s)) (event_of_row r)"
proof -
  obtain s where s: "reach sample_uuid default_kafka_config any sample_start s"
    "published_ids (sh_db (sys_shared s)) = {1}"
    using sample_reach [of any] by (auto simp: any_def)
  then obtain r where r: "r \<in> set (outbox (sh_db (sys_shared s)))" "ob_published_at r \<noteq> None"
    by (fastforce simp: published_ids_def)
  from outbox_at_least_once [OF sample_rows_distinct sample_unpublished s(1) r] s(1) r
  show ?thesis by blast
qed

text \<open>C18. One leader. In every reachable state at most one replica whose lock session is still open
  is past the lock in its poll, that is fetching, connecting, producing or marking.\<close>
theorem outbox_single_leader:
  assumes "reach U c any (started d log) s"
    and "working (pub_phase (sys_pubs s i))" and "pub_session_open (sys_pubs s i)"
    and "working (pub_phase (sys_pubs s j))" and "pub_session_open (sys_pubs s j)"
  shows "i = j"
proof -
  have "lock_ok s"
    using assms(1) by (induction rule: reach.induct) (auto intro: lock_ok_step started_lock_ok)
  then show ?thesis
    using assms(2-5) by (auto simp: lock_ok_def intro: advisory_lock.exclusive)
qed

theorem outbox_single_leader_witness:
  "\<exists>s. reach sample_uuid default_kafka_config any sample_start s \<and>
     working (pub_phase (sys_pubs s 0)) \<and> pub_session_open (sys_pubs s 0) \<and>
     (\<forall>j. working (pub_phase (sys_pubs s j)) \<and> pub_session_open (sys_pubs s j) \<longrightarrow> 0 = j)"
proof -
  let ?p = "spawn\<lparr>pub_phase := Fetching, pub_is_leader := True\<rparr>"
  let ?s = "\<lparr>sys_pubs = (sys_pubs sample_start)(0 := ?p),
    sys_shared = (sys_shared sample_start)\<lparr>sh_lock := Some 0\<rparr>\<rparr>"
  have run: "run_publisher sample_uuid default_kafka_config 0 (replicate 4 sample_reply)
      (sys_pubs sample_start 0, sys_shared sample_start) =
      (?p, (sys_shared sample_start)\<lparr>sh_lock := Some 0\<rparr>)"
    by (simp add: numeral_eq_Suc started_def spawn_def publisher_step_defs sample_reply_def
        try_acquire_leader_lock_def pg_try_advisory_lock_def)
  have r: "reach sample_uuid default_kafka_config any sample_start ?s"
    by (rule reach_run [OF reach.start _ run]) (simp add: any_def)
  have w: "working (pub_phase (sys_pubs ?s 0))" "pub_session_open (sys_pubs ?s 0)"
    by (simp_all add: spawn_def)
  from outbox_single_leader [OF r w] r w show ?thesis by blast
qed

text \<open>C25. Exactly once without faults. As long as no lock session drops, no append loses its reply and
  every mark arrives, whatever else fails and however replicas and commits interleave: whenever no
  replica is between an append and its mark, the records a topic's log gained since the start are, as
  a multiset of keys and values, those of the rows published since the start.\<close>
theorem outbox_exactly_once:
  assumes "distinct (map ob_id (outbox d))"
    and "\<forall>r \<in> set (outbox d). ob_published_at r \<noteq> None \<longrightarrow> logged U log (event_of_row r)"
    and "reach U c fault_free (started d log) s"
    and "\<forall>i e es. pub_phase (sys_pubs s i) \<noteq> Marking e es"
  shows "image_mset kv (mset (sh_log (sys_shared s) t)) + published_kvs U t d =
    image_mset kv (mset (log t)) + published_kvs U t (sh_db (sys_shared s))"
proof -
  have "exact U (started d log) (started d log)"
    using assms(1,2) by (intro started_exact) (simp_all add: published_logged_def started_def)
  from reach_exact [OF assms(3) this] in_flight_none [of s] assms(4) show ?thesis
    by (simp add: exact_def log_kvs_def started_def)
qed

theorem outbox_exactly_once_witness:
  "\<exists>s. reach sample_uuid default_kafka_config fault_free sample_start s \<and>
     published_kvs sample_uuid ''email.auth'' (sh_db (sys_shared s)) =
       {#kv_of sample_uuid (event_of_row sample_mail_row)#}"
proof -
  obtain s where s: "reach sample_uuid default_kafka_config fault_free sample_start s"
    "\<forall>i e es. pub_phase (sys_pubs s i) \<noteq> Marking e es"
    "map kv (sh_log (sys_shared s) ''email.auth'') = [kv_of sample_uuid (event_of_row sample_mail_row)]"
    using sample_reach [of fault_free, OF well_fault_free [OF sample_well]] by auto
  have "image_mset kv (mset (sh_log (sys_shared s) ''email.auth'')) =
      {#kv_of sample_uuid (event_of_row sample_mail_row)#}"
    using s(3) by (metis mset_map mset_single_iff)
  moreover have "published_kvs sample_uuid ''email.auth'' sample_outbox = {#}"
    by (simp add: published_kvs_def sample_mail_row_def sample_odd_row_def)
  ultimately show ?thesis
    using s(1) outbox_exactly_once [OF sample_rows_distinct sample_unpublished s(1,2), of "''email.auth''"]
    by auto
qed

text \<open>C26. One undisturbed poll, from the timer to the next wait, returns after the stated number of
  awaited effects: it takes the lock, appends the mails among the oldest unpublished rows, at most a
  batch, in the order of their creation, and marks exactly those published.\<close>
theorem outbox_poll_in_order:
  assumes "pub_phase p = Waiting" and "pub_session_open p" and "sh_lock s \<in> {None, Some me}"
    and "0 \<le> kafka_batch_size c" and "distinct (map ob_id (outbox (sh_db s)))"
    and "\<forall>rp \<in> set rps. all_well rp" and "length rps = replies_needed c p (sh_db s)"
    and "run_publisher U c me rps (p, s) = (p', s')"
  shows "pub_phase p' = Waiting \<and> sh_lock s' = Some me \<and>
    (\<exists>log. sh_log s' = (sh_log s)(''email.auth'' := sh_log s ''email.auth'' @ log) \<and>
       map kv log = map (kv_of U) (filter routable (batch_of c (sh_db s)))) \<and>
    published_ids (sh_db s') =
      oe_id ` {e \<in> set (batch_of c (sh_db s)). routable e} \<union> published_ids (sh_db s) \<and>
    map event_of_row (outbox (sh_db s')) = map event_of_row (outbox (sh_db s)) \<and>
    sorted (map oe_created_at (filter routable (batch_of c (sh_db s))))"
proof -
  let ?es = "filter routable (batch_of c (sh_db s))"
  obtain p'' times log where r: "(p', s') = (p'', s\<lparr>sh_lock := Some me,
         sh_db := mark_all (zip ?es times) (sh_db s),
         sh_log := (sh_log s)(''email.auth'' := sh_log s ''email.auth'' @ log)\<rparr>)"
    "pub_phase p'' = Waiting" "length times = length ?es" "map kv log = map (kv_of U) ?es"
    using poll_run [OF assms(1-7), of U] unfolding assms(8) by blast
  have marked: "fst ` set (zip ?es times) = set ?es"
    using r(3) by (metis list.set_map map_fst_zip)
  have "oe_id ` set ?es \<subseteq> ob_id ` set (outbox (sh_db s))" using batch_of_ids [of c "sh_db s"] by auto
  then have "published_ids (mark_all (zip ?es times) (sh_db s)) = oe_id ` set ?es \<union> published_ids (sh_db s)"
    using published_ids_mark_all [of "zip ?es times" "sh_db s"] by (simp only: marked)
  moreover have "sorted (map oe_created_at ?es)"
  proof -
    have "map oe_created_at (batch_of c (sh_db s)) =
        take (nat (kafka_batch_size c)) (map ob_created_at (pending (sh_db s)))"
      by (simp add: batch_of_def take_map event_of_row_def comp_def)
    then have "sorted (map oe_created_at (batch_of c (sh_db s)))" by (simp add: pending_def sorted_wrt_take)
    then show ?thesis by (rule sorted_filter)
  qed
  moreover have "set ?es = {e \<in> set (batch_of c (sh_db s)). routable e}" by auto
  moreover have "p' = p''" and s': "s' = s\<lparr>sh_lock := Some me,
      sh_db := mark_all (zip ?es times) (sh_db s),
      sh_log := (sh_log s)(''email.auth'' := sh_log s ''email.auth'' @ log)\<rparr>"
    using r(1) by simp_all
  moreover have "sh_log s' = (sh_log s)(''email.auth'' := sh_log s ''email.auth'' @ log)" by (simp add: s')
  ultimately show ?thesis using r(2,4) by (intro conjI exI [of _ log]) simp_all
qed

theorem outbox_poll_in_order_witness:
  "\<exists>p' s'. run_publisher sample_uuid default_kafka_config 0 (replicate 6 sample_reply)
       (spawn\<lparr>pub_phase := Waiting\<rparr>, sys_shared sample_start) = (p', s') \<and>
     pub_phase p' = Waiting \<and> published_ids (sh_db s') = {1}"
proof -
  let ?p = "spawn\<lparr>pub_phase := Waiting\<rparr>"
  obtain p' s' where r: "run_publisher sample_uuid default_kafka_config 0 (replicate 6 sample_reply)
       (?p, sys_shared sample_start) = (p', s')"
    by fastforce
  have db: "sh_db (sys_shared sample_start) = sample_outbox" by (simp add: started_def)
  have dist: "distinct (map ob_id (outbox (sh_db (sys_shared sample_start))))"
    unfolding db by (rule sample_rows_distinct)
  have setting: "pub_phase ?p = Waiting" "pub_session_open ?p" "sh_lock (sys_shared sample_start) \<in> {None, Some 0}"
    "0 \<le> kafka_batch_size default_kafka_config"
    by (simp_all add: spawn_def started_def default_kafka_config_def)
  have replies: "\<forall>rp \<in> set (replicate 6 sample_reply). all_well rp"
    "length (replicate 6 sample_reply) =
      replies_needed default_kafka_config ?p (sh_db (sys_shared sample_start))"
    using sample_well by (simp_all add: db replies_needed_def sample_routable spawn_def)
  have "pub_phase p' = Waiting \<and> published_ids (sh_db s') =
      oe_id ` {e \<in> set (batch_of default_kafka_config sample_outbox). routable e} \<union>
      published_ids sample_outbox"
    using outbox_poll_in_order [OF setting dist replies r] unfolding db by blast
  moreover have "{e \<in> set (batch_of default_kafka_config sample_outbox). routable e} =
      {event_of_row sample_mail_row}"
    using arg_cong [OF sample_routable, of set] by simp
  ultimately show ?thesis
    using r by (auto simp: published_ids_def sample_mail_row_def sample_odd_row_def)
qed

text \<open>Rows whose event type has no topic are never published and block the outbox: once the oldest
  unpublished rows fill a batch with them, and rows committed later are not older, nothing is ever
  appended to the log again, whatever the replicas do and whichever rows are added.\<close>
lemma outbox_blocked:
  assumes "blocked c d" and "reach U c created_in_order (started d log) s"
  shows "sh_log (sys_shared s) = log"
proof -
  have "stuck c log (started d log)" using assms(1) by (simp add: stuck_def started_def spawn_def)
  from reach_stuck [OF assms(2) this] show ?thesis by (simp add: stuck_def)
qed

section \<open>What the service puts in the outbox\<close>

text \<open>The handlers only append unpublished mail events.\<close>

definition mails_appended :: "db \<Rightarrow> db \<Rightarrow> bool" where
  "mails_appended d d' \<longleftrightarrow> outbox_grows d d' \<and>
     (\<forall>r \<in> set (drop (length (outbox d)) (outbox d')). routable (event_of_row r))"

lemma mails_other_table:
  "(\<And>now d a d'. s now d = Inr (a, d') \<Longrightarrow> outbox d' = outbox d) \<Longrightarrow> sql_keeps (mails_appended d0) s"
  by (rule sql_keepsI) (simp add: mails_appended_def outbox_grows_def)

interpretation outbox_kept: service_invariant L "mails_appended d0" for L :: "'kp libs" and d0
proof (unfold_locales, goal_cases)
  case (2 i at ai p tr sp)
  show ?case
    by (rule sql_keepsI)
      (auto simp: sql_insert_event_def Let_def mails_appended_def outbox_grows_def outbox_violation_def
        routable_def event_of_row_def split: if_splits)
qed (rule mails_other_table; auto simp: sql_insert_user_def sql_insert_token_def
    sql_insert_refresh_token_def sql_insert_signing_key_def sql_consume_token_def
    sql_mark_email_verified_def sql_update_password_def sql_update_profile_def Let_def)+

text \<open>Every request, handled to any end, only appends unpublished mail events to the outbox, as the
  publisher expects of the service's transactions; in particular every event of the service has a
  topic. Other clients are assumed to do no more.\<close>
lemma serve_appends_mails:
  assumes "env_keeps (mails_appended d) V" and "mails_appended d (w_db w)"
    and "serve L V S rq w = (r, w')"
  shows "outbox_grows d (w_db w') \<and>
    (\<forall>e \<in> set (drop (length (outbox d)) (outbox (w_db w'))).
       route_topic (ob_event_type e) = Inr ''email.auth'')"
  using io_keepsD [OF outbox_kept.serve_keeps [OF assms(1)] assms(2,3)]
  by (auto simp: mails_appended_def routable_def event_of_row_def route_topic_def)

end
