(* ===== verification/Outbox_Queue.thy ===== *)
theory Outbox_Queue
  imports Outbox_Props
begin

text \<open>
  What the outbox promises to its readers, as an abstract queue per topic: mails are put in, and
  each is handed over once. While nothing fails between an append and its mark, every step of the
  replicas, with the service's commits in between, is a step of the queue or leaves it alone.
\<close>

section \<open>The abstract queue\<close>

record 'm queue =
  q_waiting :: "'m multiset"
  q_delivered :: "'m multiset"

text \<open>A step of the queue into which \<open>new\<close> is put: only what is put is added, and a mail is handed over
  only once.\<close>

inductive queue_step :: "'m multiset \<Rightarrow> 'm queue \<Rightarrow> 'm queue \<Rightarrow> bool" where
  put: "queue_step new q (q\<lparr>q_waiting := q_waiting q + new\<rparr>)"
| hand_over: "q_waiting q = add_mset m rest \<Longrightarrow>
    queue_step {#} q \<lparr>q_waiting = rest, q_delivered = add_mset m (q_delivered q)\<rparr>"

inductive_simps queue_step_iff: "queue_step new q q'"

lemma queue_step_handed:
  assumes "q_waiting q = add_mset m (q_waiting q')" and "q_delivered q' = add_mset m (q_delivered q)"
  shows "queue_step {#} q q'"
proof -
  have "q' = \<lparr>q_waiting = q_waiting q', q_delivered = q_delivered q'\<rparr>" by simp
  then have "q' = \<lparr>q_waiting = q_waiting q', q_delivered = add_mset m (q_delivered q)\<rparr>"
    unfolding assms(2) .
  with queue_step.hand_over [OF assms(1)] show ?thesis by simp
qed

lemma queue_step_put:
  assumes "q_waiting q' = q_waiting q + new" and "q_delivered q' = q_delivered q"
  shows "queue_step new q q'"
proof -
  have "q' = q\<lparr>q_waiting := q_waiting q + new\<rparr>"
    using assms by (cases q; cases q') simp
  with queue_step.put [of new q] show ?thesis by simp
qed

text \<open>Nothing is lost, repeated or invented: what is waiting or delivered grows by what is put.\<close>

definition contents :: "'m queue \<Rightarrow> 'm multiset" where
  "contents q = q_waiting q + q_delivered q"

lemma queue_step_contents:
  "queue_step new q q' \<Longrightarrow> contents q' = contents q + new \<and> q_delivered q \<subseteq># q_delivered q'"
  by (auto simp: queue_step_iff contents_def ac_simps)

section \<open>The queue a state of the outbox stands for\<close>

definition rows_kvs :: "uuid_lib \<Rightarrow> string \<Rightarrow> db \<Rightarrow> (bytes option \<times> bytes option) multiset" where
  "rows_kvs U t d = image_mset (kv_of U) (mset (filter (routed_to t) (map event_of_row (outbox d))))"

definition unpublished_kvs :: "uuid_lib \<Rightarrow> string \<Rightarrow> db \<Rightarrow> (bytes option \<times> bytes option) multiset" where
  "unpublished_kvs U t d =
     image_mset (kv_of U) (mset (filter (routed_to t)
       (map event_of_row (filter (\<lambda>r. ob_published_at r = None) (outbox d)))))"

definition queue_of :: "uuid_lib \<Rightarrow> string \<Rightarrow> system \<Rightarrow> (bytes option \<times> bytes option) queue" where
  "queue_of U t s =
     \<lparr>q_waiting = unpublished_kvs U t (sh_db (sys_shared s)) - in_flight U t s,
      q_delivered = log_kvs t (sys_shared s)\<rparr>"

lemma rows_split: "unpublished_kvs U t d + published_kvs U t d = rows_kvs U t d"
proof -
  have "image_mset (kv_of U) (mset (filter (routed_to t) (map event_of_row (filter (\<lambda>r. ob_published_at r = None) rs)))) +
      image_mset (kv_of U) (mset (filter (routed_to t) (map event_of_row (filter (\<lambda>r. ob_published_at r \<noteq> None) rs)))) =
      image_mset (kv_of U) (mset (filter (routed_to t) (map event_of_row rs)))" for rs
    by (induction rs) auto
  then show ?thesis by (simp only: unpublished_kvs_def published_kvs_def rows_kvs_def)
qed

lemma flight_waiting:
  assumes "hand_ok s ph"
  shows "flight U t ph \<subseteq># unpublished_kvs U t (sh_db s)"
proof (cases "\<exists>e es. ph = Marking e es \<and> routed_to t e")
  case True
  then obtain e es where e: "ph = Marking e es" "routed_to t e" by blast
  then obtain r where "r \<in> set (outbox (sh_db s))" "ob_published_at r = None" "event_of_row r = e"
    using assms by (auto simp: hand_ok_def fresh_def)
  then show ?thesis using e by (force simp: unpublished_kvs_def)
next
  case False
  then have "flight U t ph = {#}" by (cases ph) auto
  then show ?thesis by simp
qed

lemma in_flight_waiting: "exact U s0 s \<Longrightarrow> in_flight U t s \<subseteq># unpublished_kvs U t (sh_db (sys_shared s))"
  by (auto simp: in_flight_def exact_def intro: flight_waiting split: option.split)

text \<open>Where the balance holds, what waits is what the rows hold beyond what the log gained.\<close>

lemma waiting_arith:
  fixes w :: "'a multiset"
  assumes "w + f = u" and "l + p0 = l0 + p + f"
  shows "w + l + p0 = u + p + l0"
proof -
  have "w + l + p0 = w + (l + p0)" by (simp only: add.assoc)
  also have "\<dots> = (w + f) + p + l0" unfolding assms(2) by (simp only: ac_simps)
  finally show ?thesis unfolding assms(1) .
qed

lemma waiting_balance:
  assumes "exact U s0 s"
  shows "q_waiting (queue_of U t s) + log_kvs t (sys_shared s) + published_kvs U t (sh_db (sys_shared s0)) =
    rows_kvs U t (sh_db (sys_shared s)) + log_kvs t (sys_shared s0)"
proof -
  let ?d = "sh_db (sys_shared s)"
  have "q_waiting (queue_of U t s) + in_flight U t s = unpublished_kvs U t ?d"
    using in_flight_waiting [OF assms] by (simp add: queue_of_def)
  moreover have "log_kvs t (sys_shared s) + published_kvs U t (sh_db (sys_shared s0)) =
      log_kvs t (sys_shared s0) + published_kvs U t ?d + in_flight U t s"
    using assms by (simp add: exact_def)
  ultimately show ?thesis
    unfolding rows_split [symmetric] by (rule waiting_arith)
qed

section \<open>Steps\<close>

lemma publisher_step_rows:
  assumes "publisher_step U c i rp p s = (p', s')" and "distinct (map ob_id (outbox (sh_db s)))"
  shows "rows_kvs V t (sh_db s') = rows_kvs V t (sh_db s)"
proof (cases "pub_phase p")
  case Fetching
  obtain r d where r: "fetch_unpublished rp (kafka_batch_size c) (sh_db s) = (r, d)" by fastforce
  then have "d = sh_db s" using fetch_unpublished_db [of rp "kafka_batch_size c" "sh_db s"] by simp
  then show ?thesis using assms(1) r Fetching by (auto simp: publisher_step_defs split: sum.splits)
next
  case (Marking e es)
  have "rows_kvs V t (snd (mark_published rp (oe_id e) (sh_db s))) = rows_kvs V t (sh_db s)"
    by (simp only: rows_kvs_def mark_published_db [OF assms(2)] events_set_published split: if_split) simp
  then show ?thesis
    using assms(1) Marking by (auto simp: publisher_step_defs split: prod.splits)
qed (use assms(1) in \<open>auto simp: publisher_step_defs Let_def split: prod.splits if_splits outcome.splits\<close>)

lemma publisher_step_log:
  assumes "publisher_step U c i rp p s = (p', s')"
  shows "log_kvs t s' = log_kvs t s \<or> (\<exists>m. log_kvs t s' = add_mset m (log_kvs t s))"
  using assms
  by (cases "pub_phase p")
    (auto simp: publisher_step_defs log_kvs_def kv_of_def Let_def split: prod.splits sum.splits if_splits outcome.splits)

lemma rows_grow: "outbox_grows d d' \<Longrightarrow> \<exists>new. rows_kvs U t d' = rows_kvs U t d + new"
  by (auto simp: outbox_grows_def rows_kvs_def)

text \<open>A step that appends at most one record, or only adds rows, is a step of the queue.\<close>

lemma queue_step_balanced:
  assumes "exact U s0 s" and "exact U s0 s'"
    and "rows_kvs U t (sh_db (sys_shared s')) = rows_kvs U t (sh_db (sys_shared s)) + new"
    and "new = {#} \<and> (\<exists>m. log_kvs t (sys_shared s') = add_mset m (log_kvs t (sys_shared s))) \<or>
      log_kvs t (sys_shared s') = log_kvs t (sys_shared s)"
  shows "queue_step new (queue_of U t s) (queue_of U t s')"
proof -
  let ?w = "q_waiting (queue_of U t s)" and ?w' = "q_waiting (queue_of U t s')"
    and ?l = "log_kvs t (sys_shared s)" and ?l' = "log_kvs t (sys_shared s')"
    and ?p = "published_kvs U t (sh_db (sys_shared s0))"
  have "?w' + ?l' + ?p = ?w + ?l + ?p + new"
    unfolding waiting_balance [OF assms(1)] waiting_balance [OF assms(2)] assms(3) by (simp only: ac_simps)
  then have "(?w' + ?l') + ?p = (?w + ?l + new) + ?p" by (simp only: ac_simps)
  then have w: "?w' + ?l' = ?w + ?l + new" by (simp only: add_right_cancel)
  have q: "q_delivered (queue_of U t s) = ?l" "q_delivered (queue_of U t s') = ?l'"
    by (simp_all add: queue_of_def)
  from assms(4) show ?thesis
  proof (elim disjE conjE exE)
    fix m assume "new = {#}" and m: "?l' = add_mset m ?l"
    then have "?w = add_mset m ?w'" using w by simp
    then show ?thesis unfolding \<open>new = {#}\<close> by (rule queue_step_handed) (simp only: q m)
  next
    assume l: "?l' = ?l"
    then have "?w' + ?l = (?w + new) + ?l" using w by (simp only: ac_simps)
    then have "?w' = ?w + new" by (simp only: add_right_cancel)
    then show ?thesis by (rule queue_step_put) (simp only: q l)
  qed
qed

text \<open>What an event puts into a topic's queue: the mails among the rows that a commit adds.\<close>

definition put_by :: "uuid_lib \<Rightarrow> string \<Rightarrow> system \<Rightarrow> event \<Rightarrow> (bytes option \<times> bytes option) multiset" where
  "put_by U t s ev =
     (case ev of Commit d \<Rightarrow> rows_kvs U t d - rows_kvs U t (sh_db (sys_shared s)) | _ \<Rightarrow> {#})"

lemma outbox_step_refines:
  assumes st: "sys_step U c s ev s'" and ex: "exact U s0 s" and ff: "fault_free s ev"
  shows "queue_step (put_by U t s ev) (queue_of U t s) (queue_of U t s')"
  using st
proof (cases rule: sys_stepE)
  case (step i rp p sh)
  have "distinct (map ob_id (outbox (sh_db (sys_shared s))))"
    using ex by (simp add: exact_def sys_ok_def shared_ok_def)
  from publisher_step_rows [OF step(3) this, of U t] publisher_step_log [OF step(3), of t] show ?thesis
    by (intro queue_step_balanced [OF ex exact_step [OF st ex ff]]) (auto simp: step(1,2) put_by_def)
next
  case (commit d)
  from rows_grow [OF commit(3)] obtain new where
    "rows_kvs U t d = rows_kvs U t (sh_db (sys_shared s)) + new" by blast
  then show ?thesis
    by (intro queue_step_balanced [OF ex exact_step [OF st ex ff]])
      (simp_all add: commit(1,2) put_by_def log_kvs_def)
next
  case (session_lost i)
  with ff show ?thesis by (simp add: fault_free_def)
next
  case (cancel i)
  then have "queue_of U t s' = queue_of U t s"
    by (auto simp: queue_of_def in_flight_def Outbox.cancel_def split: option.split)
  then show ?thesis by (simp add: cancel(1) put_by_def queue_step_put)
qed

section \<open>Refinement\<close>

text \<open>C8. Refinement. As long as no lock session drops, no append loses its reply and every mark arrives, the
  replicas with the service's commits implement a queue for every topic: from any reachable state each
  step hands over one waiting mail or leaves the queue as it is, and a commit puts in the mails among
  the rows it adds. No mail is lost, repeated or invented.\<close>
theorem outbox_refines_queue:
  assumes "distinct (map ob_id (outbox d))"
    and "\<forall>r \<in> set (outbox d). ob_published_at r \<noteq> None \<longrightarrow> logged U log (event_of_row r)"
    and "reach U c fault_free (started d log) s"
    and "sys_step U c s ev s'" and "fault_free s ev"
  shows "queue_step (put_by U t s ev) (queue_of U t s) (queue_of U t s')"
proof -
  have "exact U (started d log) (started d log)"
    using assms(1,2) by (intro started_exact) (simp_all add: published_logged_def started_def)
  from outbox_step_refines [OF assms(4) reach_exact [OF assms(3) this] assms(5)] show ?thesis .
qed

lemma sample_topics:
  "route_topic (oe_event_type (event_of_row sample_mail_row)) = Inr ''email.auth''"
  "route_topic (oe_event_type (event_of_row sample_odd_row)) = Inl (UnknownEventType ''audit'')"
  by (simp_all add: route_topic_def event_of_row_def sample_mail_row_def sample_odd_row_def)

lemma sample_fetch:
  "fetch_unpublished sample_reply (kafka_batch_size default_kafka_config) sample_outbox =
     (Inr (map event_of_row [sample_odd_row, sample_mail_row]), sample_outbox)"
  using sample_batch fetch_unpublished_Inr_iff [of sample_reply "kafka_batch_size default_kafka_config" sample_outbox]
    fetch_unpublished_db [of sample_reply "kafka_batch_size default_kafka_config" sample_outbox]
  by (simp add: batch_of_def sample_reply_def default_kafka_config_def prod_eq_iff)

text \<open>Six steps: the client, the connection, the timer, the lock, the batch, the partition client.\<close>

lemma sample_producing:
  "run_publisher sample_uuid default_kafka_config 0 (replicate 6 sample_reply)
       (sys_pubs sample_start 0, sys_shared sample_start) =
     (spawn\<lparr>pub_phase := Producing ''email.auth'' (event_of_row sample_mail_row) [], pub_is_leader := True,
        pub_topics := [''email.auth'']\<rparr>, (sys_shared sample_start)\<lparr>sh_lock := Some 0\<rparr>)"
  by (simp add: numeral_eq_Suc started_def spawn_def publisher_step_defs sample_fetch [simplified]
      sample_topics try_acquire_leader_lock_def pg_try_advisory_lock_def)
    (simp add: sample_reply_def)

theorem outbox_refines_queue_witness:
  "\<exists>s s'. reach sample_uuid default_kafka_config fault_free sample_start s \<and>
     sys_step sample_uuid default_kafka_config s (Step 0 sample_reply) s' \<and>
     q_waiting (queue_of sample_uuid ''email.auth'' s) = {#kv_of sample_uuid (event_of_row sample_mail_row)#} \<and>
     queue_step {#} (queue_of sample_uuid ''email.auth'' s) (queue_of sample_uuid ''email.auth'' s')"
proof -
  let ?U = sample_uuid and ?c = default_kafka_config
  let ?p = "spawn\<lparr>pub_phase := Producing ''email.auth'' (event_of_row sample_mail_row) [], pub_is_leader := True,
        pub_topics := [''email.auth'']\<rparr>"
  let ?s = "\<lparr>sys_pubs = (sys_pubs sample_start)(0 := ?p), sys_shared = (sys_shared sample_start)\<lparr>sh_lock := Some 0\<rparr>\<rparr>"
  have r: "reach ?U ?c fault_free sample_start ?s"
    by (rule reach_run [OF reach.start _ sample_producing]) (use well_fault_free [OF sample_well] in auto)
  obtain p sh where st: "publisher_step ?U ?c 0 sample_reply (sys_pubs ?s 0) (sys_shared ?s) = (p, sh)" by fastforce
  let ?s' = "\<lparr>sys_pubs = (sys_pubs ?s)(0 := p), sys_shared = sh\<rparr>"
  have step: "sys_step ?U ?c ?s (Step 0 sample_reply) ?s'" by (rule sys_step.step [OF st])
  have "routed_to ''email.auth'' (event_of_row sample_mail_row)" "\<not> routed_to ''email.auth'' (event_of_row sample_odd_row)"
    by (simp_all add: routed_to_def sample_topics)
  then have "q_waiting (queue_of ?U ''email.auth'' ?s) = {#kv_of ?U (event_of_row sample_mail_row)#}"
    by (simp add: queue_of_def unpublished_kvs_def in_flight_def started_def)
      (simp add: sample_mail_row_def sample_odd_row_def)
  moreover have "queue_step {#} (queue_of ?U ''email.auth'' ?s) (queue_of ?U ''email.auth'' ?s')"
    using outbox_refines_queue [OF sample_rows_distinct sample_unpublished r step well_fault_free [OF sample_well], of "''email.auth''"]
    by (simp add: put_by_def)
  ultimately show ?thesis using r step by blast
qed

end
