(* ===== verification/Outbox_Shutdown.thy ===== *)
theory Outbox_Shutdown
  imports Outbox_Props
begin

text \<open>
  Graceful shutdown of the publisher: after \<open>PublisherHandle::shutdown\<close> cancelled it, it comes to an
  end, whatever the database and the brokers answer.
\<close>

section \<open>A bound on what is left to do\<close>

text \<open>
  The effects that are awaited before a cancelled publisher stops: at most three for each event of
  the batch (partition client, record, mark), and one to see the cancellation.
\<close>

fun steps_to_stop :: "kafka_config \<Rightarrow> phase \<Rightarrow> nat" where
  "steps_to_stop c Building_Client = 3"
| "steps_to_stop c Taking_Connection = 2"
| "steps_to_stop c Waiting = 1"
| "steps_to_stop c Locking = 3 + 3 * nat (kafka_batch_size c)"
| "steps_to_stop c Fetching = 2 + 3 * nat (kafka_batch_size c)"
| "steps_to_stop c (Connecting topic event events) = 4 + 3 * length events"
| "steps_to_stop c (Producing topic event events) = 3 + 3 * length events"
| "steps_to_stop c (Marking event events) = 2 + 3 * length events"
| "steps_to_stop c Stopped = 0"
| "steps_to_stop c (Failed e) = 0"

lemma steps_next_event: "steps_to_stop c (next_event topics es) \<le> 1 + 3 * length es"
  by (induction topics es rule: next_event.induct) (auto split: sum.splits)

text \<open>The phases before the loop, in which the publisher can fail, and failure itself.\<close>

fun outside_loop :: "phase \<Rightarrow> bool" where
  "outside_loop Building_Client \<longleftrightarrow> True"
| "outside_loop Taking_Connection \<longleftrightarrow> True"
| "outside_loop (Failed e) \<longleftrightarrow> True"
| "outside_loop _ \<longleftrightarrow> False"

lemma next_event_in_loop [simp]: "\<not> outside_loop (next_event topics es)"
  by (induction topics es rule: next_event.induct) (auto split: sum.splits)

text \<open>\<open>q\<close> is closer to the end than \<open>p\<close>, still cancelled, and in the loop where \<open>p\<close> was.\<close>

definition closer :: "kafka_config \<Rightarrow> publisher \<Rightarrow> publisher \<Rightarrow> bool" where
  "closer c p q \<longleftrightarrow> pub_cancelled q = pub_cancelled p \<and>
     steps_to_stop c (pub_phase q) \<le> steps_to_stop c (pub_phase p) - 1 \<and>
     (outside_loop (pub_phase q) \<longrightarrow> outside_loop (pub_phase p))"

lemma lead_step_closer: "pub_phase p = Locking \<Longrightarrow> closer c p (fst (lead_step me rp p s))"
  by (auto simp: lead_step_def closer_def split: prod.splits)

lemma fetch_step_closer:
  assumes "pub_phase p = Fetching"
  shows "closer c p (fst (fetch_step c rp p s))"
proof -
  obtain r d where r: "fetch_unpublished rp (kafka_batch_size c) (sh_db s) = (r, d)" by fastforce
  show ?thesis
  proof (cases r)
    case (Inr es)
    then have "length es \<le> nat (kafka_batch_size c)"
      using fetch_unpublished_Inr_iff [of rp "kafka_batch_size c" "sh_db s" es] r by auto
    with steps_next_event [of c "pub_topics p" es] Inr r assms show ?thesis
      by (simp add: fetch_step_def closer_def)
  qed (use assms r in \<open>simp add: fetch_step_def closer_def\<close>)
qed

lemma connect_step_closer:
  "pub_phase p = Connecting topic event events \<Longrightarrow> closer c p (fst (connect_step rp topic event events p s))"
  by (simp add: connect_step_def closer_def)

lemma produce_step_closer:
  "pub_phase p = Producing topic event events \<Longrightarrow> closer c p (fst (produce_step U rp topic event events p s))"
  by (auto simp: produce_step_def closer_def Let_def split: outcome.splits)

lemma mark_step_closer:
  "pub_phase p = Marking event events \<Longrightarrow> closer c p (fst (mark_step rp event events p s))"
  using steps_next_event [of c "pub_topics p" events]
  by (auto simp: mark_step_def closer_def split: prod.splits)

text \<open>Every step of a cancelled publisher whose timer does not fire brings it closer.\<close>

lemma cancelled_step_closer:
  assumes "pub_cancelled p" and "\<not> rp_timer rp"
  shows "closer c p (fst (publisher_step U c me rp p s))"
proof (cases "pub_phase p")
  case Locking
  then show ?thesis using lead_step_closer by (simp add: publisher_step_def)
next
  case Fetching
  then show ?thesis using fetch_step_closer by (simp add: publisher_step_def)
next
  case (Connecting topic event events)
  then show ?thesis using connect_step_closer [OF Connecting] by (simp add: publisher_step_def)
next
  case (Producing topic event events)
  then show ?thesis using produce_step_closer [OF Producing] by (simp add: publisher_step_def)
next
  case (Marking event events)
  then show ?thesis using mark_step_closer [OF Marking] by (simp add: publisher_step_def)
qed (use assms in \<open>simp_all add: publisher_step_def closer_def\<close>)

lemma cancelled_run:
  assumes "run_publisher U c me rps (p, s) = (p', s')" and "pub_cancelled p" and "\<forall>rp \<in> set rps. \<not> rp_timer rp"
    and "steps_to_stop c (pub_phase p) \<le> length rps"
  shows "steps_to_stop c (pub_phase p') = 0 \<and> (outside_loop (pub_phase p') \<longrightarrow> outside_loop (pub_phase p))"
  using assms
proof (induction rps arbitrary: p s)
  case (Cons rp rps)
  obtain q sq where st: "publisher_step U c me rp p s = (q, sq)" by fastforce
  have q: "closer c p q" using cancelled_step_closer [of p rp c U me s] Cons.prems(2,3) st by simp
  have "run_publisher U c me rps (q, sq) = (p', s')" using Cons.prems(1) st by simp
  moreover have "steps_to_stop c (pub_phase q) \<le> length rps" 
    using q Cons.prems(4) unfolding closer_def by (elim conjE) simp
  ultimately show ?case using Cons.IH q Cons.prems(2,3) by (fastforce simp: closer_def)
qed simp

section \<open>Shutdown\<close>

text \<open>C39. Shutdown terminates: once the publisher of a service whose serving has ended is cancelled, it
  stops after a bounded number of awaited effects, three per event left of its batch, whatever each of
  them is answered, refused or lost, as long as its poll timer does not win against the
  cancellation; it does not fail unless it had not yet entered its loop.\<close>
theorem shutdown_terminates:
  assumes "\<forall>rp \<in> set rps. \<not> rp_timer rp" and "steps_to_stop c (pub_phase p) \<le> length rps"
    and "run_publisher U c me rps (cancel p, s) = (p', s')"
  shows "pub_phase p' = Stopped \<or> (\<exists>e. pub_phase p' = Failed e) \<and> outside_loop (pub_phase p)"
proof -
  have "steps_to_stop c (pub_phase p') = 0 \<and> (outside_loop (pub_phase p') \<longrightarrow> outside_loop (pub_phase (cancel p)))"
    using cancelled_run [OF assms(3) _ assms(1)] assms(2) by (simp add: Outbox.cancel_def)
  then show ?thesis by (cases "pub_phase p'") (auto simp: Outbox.cancel_def)
qed

theorem shutdown_terminates_witness:
  "\<exists>p' s'. run_publisher sample_uuid default_kafka_config 0
      (replicate 152 (sample_reply\<lparr>rp_timer := False, rp_outcome := ReplyLost\<rparr>))
      (cancel (spawn\<lparr>pub_phase := Fetching\<rparr>), sys_shared sample_start) = (p', s') \<and> pub_phase p' = Stopped"
proof -
  let ?rps = "replicate 152 (sample_reply\<lparr>rp_timer := False, rp_outcome := ReplyLost\<rparr>)"
  obtain p' s' where r: "run_publisher sample_uuid default_kafka_config 0 ?rps
      (cancel (spawn\<lparr>pub_phase := Fetching\<rparr>), sys_shared sample_start) = (p', s')" by fastforce
  have "steps_to_stop default_kafka_config (pub_phase (spawn\<lparr>pub_phase := Fetching\<rparr>)) \<le> length ?rps"
    by (simp add: default_kafka_config_def)
  from shutdown_terminates [OF _ this r] r show ?thesis by auto
qed

end
