(* ===== verification/Gateway_Session.thy ===== *)
theory Gateway_Session
  imports Opaque_Token Identity_Service
begin

text \<open>
  The gateway's sessions: the cookie (\<open>services/gateway/src/routes/session.rs\<close>) and the ScyllaDB
  store (\<open>services/gateway/src/session.rs\<close>). The gateway's state is the session table, its channel
  to the identity service, and that service's own world. As in the identity service, what the
  outside world decides is a record of functions of a tick.

  A row of the session table is written with the table's default time to live and is not returned
  once that has passed. Timestamps are stored in milliseconds.
\<close>

section \<open>The cookie\<close>

datatype channel_error = Channel_Source | Channel_Tls | Channel_Transport

datatype app_error =
    Grpc status
  | Channel channel_error
  | Session_Err session_error
  | Unauthorized

type_synonym headers = "(string \<times> string) list"

definition SESSION_COOKIE :: string where
  "SESSION_COOKIE = ''__Host-sid''"

definition SESSION_MAX_AGE_SECS :: int where
  "SESSION_MAX_AGE_SECS = 7 * 24 * 60 * 60"

text \<open>
  The libraries of the gateway: \<open>HeaderValue::to_str\<close>, parsing a metadata value, and
  \<open>DateTime::from_timestamp\<close>; \<open>hl_sub\<close> parses JSON and yields \<open>value["sub"].as_str()\<close>.
\<close>

record http_lib =
  hl_to_str :: "string \<Rightarrow> string option"
  hl_metadata :: "string \<Rightarrow> string option"
  hl_from_timestamp :: "int \<Rightarrow> int \<Rightarrow> instant option"
  hl_sub :: "bytes \<Rightarrow> string option option"

fun session_pair :: "string list \<Rightarrow> app_error + string" where
  "session_pair [] = Inl Unauthorized"
| "session_pair (pair # pairs) =
     (case strip_prefix SESSION_COOKIE (trim pair) of
        Some value \<Rightarrow> ok_or Unauthorized (strip_prefix ''='' value)
      | None \<Rightarrow> session_pair pairs)"

definition extract_session_cookie :: "http_lib \<Rightarrow> headers \<Rightarrow> app_error + string" where
  "extract_session_cookie H hs =
     try_r (ok_or Unauthorized (map_of hs ''cookie'')) (\<lambda>value.
     try_r (ok_or Unauthorized (hl_to_str H value)) (\<lambda>cookie_header.
     session_pair (split_on CHR '';'' cookie_header)))"

text \<open>\<open>SESSION_MAX_AGE_SECS\<close> formatted is the literal \<open>604800\<close>.\<close>

definition set_session_cookie :: "string \<Rightarrow> string" where
  "set_session_cookie token =
     SESSION_COOKIE @ ''='' @ token @ ''; HttpOnly; Secure; SameSite=Lax; Path=/; Max-Age='' @ ''604800''"

definition clear_session_cookie :: string where
  "clear_session_cookie = SESSION_COOKIE @ ''=; HttpOnly; Secure; SameSite=Lax; Path=/; Max-Age=0''"

section \<open>The session table\<close>

record session =
  ss_token_hash :: bytes
  ss_user_id :: uuid
  ss_access_token :: string
  ss_id_token :: string
  ss_refresh_token :: string
  ss_expires_at :: instant
  ss_created_at :: instant

text \<open>A row, and when it was written.\<close>

type_synonym session_table = "bytes \<Rightarrow> (session \<times> instant) option"

definition DEFAULT_TIME_TO_LIVE :: int where
  "DEFAULT_TIME_TO_LIVE = 604800"

definition stored_timestamp :: "instant \<Rightarrow> instant" where
  "stored_timestamp t = timestamp_millis t * 1000000"

definition cql_insert :: "session \<Rightarrow> instant \<Rightarrow> session_table \<Rightarrow> session_table" where
  "cql_insert s now tbl =
     tbl(ss_token_hash s \<mapsto>
       (s\<lparr>ss_expires_at := stored_timestamp (ss_expires_at s),
          ss_created_at := stored_timestamp (ss_created_at s)\<rparr>, now))"

definition cql_select :: "bytes \<Rightarrow> instant \<Rightarrow> session_table \<Rightarrow> session option" where
  "cql_select h now tbl =
     (case tbl h of
        None \<Rightarrow> None
      | Some (s, written) \<Rightarrow> if now < written + seconds DEFAULT_TIME_TO_LIVE then Some s else None)"

definition cql_delete :: "bytes \<Rightarrow> session_table \<Rightarrow> session_table" where
  "cql_delete h tbl = tbl(h := None)"

section \<open>State and effects\<close>

record identity_channel =
  ic_created_seq :: u64
  ic_connection :: nat

record gateway =
  gw_sessions :: session_table
  gw_channel :: identity_channel
  gw_identity :: world
  gw_tick :: nat

type_synonym ('e, 'a) gio = "(gateway, 'e, 'a) state_io"

record genv =
  ge_scylla :: "nat \<Rightarrow> outcome"
  ge_scylla_now :: "nat \<Rightarrow> instant"
  ge_others :: "nat \<Rightarrow> session_table \<Rightarrow> session_table"
  ge_rand :: "nat \<Rightarrow> bytes option"
  ge_utc :: "nat \<Rightarrow> instant"
  ge_svid_seq :: "nat \<Rightarrow> u64"
  ge_rebuilt :: "nat \<Rightarrow> identity_channel \<Rightarrow> identity_channel"
  ge_tls_config :: "nat \<Rightarrow> bool"
  ge_connect :: "nat \<Rightarrow> bool"
  ge_call :: "nat \<Rightarrow> outcome"
  ge_status :: "nat \<Rightarrow> status"

definition gask :: "(nat \<Rightarrow> 'a) \<Rightarrow> ('e, 'a) gio" where
  "gask f g = (Inr (f (gw_tick g)), g\<lparr>gw_tick := Suc (gw_tick g)\<rparr>)"

text \<open>
  One statement sent to ScyllaDB: \<open>f\<close> reads and changes the table as other gateways left it. Its
  execution may be refused, or carried out with the reply lost.
\<close>

definition scylla ::
    "genv \<Rightarrow> session_error \<Rightarrow> (instant \<Rightarrow> session_table \<Rightarrow> 'a \<times> session_table) \<Rightarrow> (session_error, 'a) gio" where
  "scylla G e f g =
     (let t = gw_tick g; tbl = ge_others G t (gw_sessions g);
          g0 = g\<lparr>gw_sessions := tbl, gw_tick := Suc t\<rparr>
      in case ge_scylla G t of
           Refused \<Rightarrow> (Inl (Err e), g0)
         | out \<Rightarrow>
            (case f (ge_scylla_now G t) tbl of
               (a, tbl') \<Rightarrow>
                 (if out = Delivered then Inr a else Inl (Err e), g0\<lparr>gw_sessions := tbl'\<rparr>)))"

section \<open>The session store\<close>

text \<open>
  \<open>connect\<close> creates the keyspace, drops the table of sessions and creates it again, then prepares
  the three statements.
\<close>

definition create_schema :: "genv \<Rightarrow> (session_error, unit) gio" where
  "create_schema G =
     andThen (scylla G Execution (\<lambda>now tbl. ((), tbl))) (\<lambda>_.
     andThen (scylla G Execution (\<lambda>now tbl. ((), \<lambda>_. None))) (\<lambda>_.
     scylla G Execution (\<lambda>now tbl. ((), tbl))))"

definition connect_store :: "genv \<Rightarrow> (session_error, unit) gio" where
  "connect_store G =
     andThen (scylla G NewSession (\<lambda>now tbl. ((), tbl))) (\<lambda>_.
     andThen (create_schema G) (\<lambda>_.
     andThen (scylla G UseKeyspace (\<lambda>now tbl. ((), tbl))) (\<lambda>_.
     andThen (scylla G Prepare (\<lambda>now tbl. ((), tbl))) (\<lambda>_.
     andThen (scylla G Prepare (\<lambda>now tbl. ((), tbl))) (\<lambda>_.
     scylla G Prepare (\<lambda>now tbl. ((), tbl)))))))"

definition create_session ::
    "'kp libs \<Rightarrow> genv \<Rightarrow> uuid \<Rightarrow> string \<Rightarrow> string \<Rightarrow> string \<Rightarrow> instant \<Rightarrow> (session_error, string) gio" where
  "create_session L G user_id access_token id_token refresh_token expires_at =
     andThen (gask (ge_rand G)) (\<lambda>rnd.
     andThen (pureR (\<lambda>e. e) (generate_session_token (l_b64 L) (l_sha256 L) rnd)) (\<lambda>(cleartext, token_hash).
     andThen (gask (ge_utc G)) (\<lambda>created_at.
     andThen (scylla G Execution (\<lambda>now tbl. ((), cql_insert
       \<lparr>ss_token_hash = token_hash, ss_user_id = user_id, ss_access_token = access_token,
        ss_id_token = id_token, ss_refresh_token = refresh_token, ss_expires_at = expires_at,
        ss_created_at = created_at\<rparr> now tbl))) (\<lambda>_.
     ret cleartext))))"

definition get_session :: "genv \<Rightarrow> bytes \<Rightarrow> (session_error, session option) gio" where
  "get_session G token_hash = scylla G Execution (\<lambda>now tbl. (cql_select token_hash now tbl, tbl))"

definition delete_session :: "genv \<Rightarrow> bytes \<Rightarrow> (session_error, unit) gio" where
  "delete_session G token_hash = scylla G Execution (\<lambda>now tbl. ((), cql_delete token_hash tbl))"

section \<open>The subject of an access token\<close>

definition decode_sub_from_jwt :: "'kp libs \<Rightarrow> http_lib \<Rightarrow> string \<Rightarrow> session_error + uuid" where
  "decode_sub_from_jwt L H token =
     try_r (ok_or (JwtDecode ''missing payload segment'') (index (split_on CHR ''.'' token) 1)) (\<lambda>payload.
     try_r (ok_or (JwtDecode ''base64 decode'') (b64url_decode (l_b64 L) payload)) (\<lambda>bytes.
     try_r (ok_or (JwtDecode ''json parse'') (hl_sub H bytes)) (\<lambda>value.
     try_r (ok_or (JwtDecode ''missing sub claim'') value) (\<lambda>sub.
     ok_or (JwtDecode ''sub is not a UUID'') (uuid_parse (l_uuid L) sub)))))"

section \<open>Authenticated requests\<close>

text \<open>\<open>AuthSession::from_request_parts\<close>.\<close>

definition auth_session :: "'kp libs \<Rightarrow> http_lib \<Rightarrow> genv \<Rightarrow> headers \<Rightarrow> (app_error, session) gio" where
  "auth_session L H G hs =
     andThen (pureR (\<lambda>e. e) (extract_session_cookie H hs)) (\<lambda>token.
     andThen (pureR (\<lambda>_. Unauthorized) (hash_session_token (l_b64 L) (l_sha256 L) token)) (\<lambda>token_hash.
     andThen (mapErr Session_Err (get_session G token_hash)) (\<lambda>found.
     pureR (\<lambda>e. e) (ok_or Unauthorized found))))"

definition with_auth :: "http_lib \<Rightarrow> session \<Rightarrow> 'm \<Rightarrow> 'e exit + 'm request" where
  "with_auth H s req =
     try_r (or_panic (hl_metadata H (''Bearer '' @ ss_access_token s))) (\<lambda>v.
     Inr \<lparr>rq_authorization = Some (Some v), rq_message = req\<rparr>)"

end
