(* ===== verification/Gateway_Routes.thy ===== *)
theory Gateway_Routes
  imports Gateway_Session
begin

text \<open>
  The gateway's HTTP surface: the channel to the identity service (\<open>services/gateway/src/pool.rs\<close>),
  the mapping of errors to responses (\<open>routes/error.rs\<close>), the handlers (\<open>routes/auth.rs\<close>,
  \<open>routes/health.rs\<close>) and the router with its response headers (\<open>routes/mod.rs\<close>). A call of the
  identity service runs \<open>serve\<close> on that service's world.
\<close>

section \<open>The channel\<close>

text \<open>
  \<open>client\<close>: between an unlocked load and taking the lock, other tasks may have rebuilt the channel
  (\<open>ge_rebuilt\<close>). A new connection is named by the tick at which it was made.
\<close>

definition lock_channel :: "genv \<Rightarrow> (channel_error, identity_channel) gio" where
  "lock_channel G g =
     (let ch = ge_rebuilt G (gw_tick g) (gw_channel g)
      in (Inr ch, g\<lparr>gw_channel := ch, gw_tick := Suc (gw_tick g)\<rparr>))"

definition connect_channel :: "genv \<Rightarrow> (channel_error, nat) gio" where
  "connect_channel G g =
     (let t = gw_tick g
      in (if ge_connect G t then Inr t else Inl (Err Channel_Transport), g\<lparr>gw_tick := Suc t\<rparr>))"

definition store_channel :: "u64 \<Rightarrow> nat \<Rightarrow> (channel_error, nat) gio" where
  "store_channel seq connection g =
     (Inr connection, g\<lparr>gw_channel := \<lparr>ic_created_seq = seq, ic_connection = connection\<rparr>\<rparr>)"

definition load_created_seq :: "(channel_error, u64) gio" where
  "load_created_seq g = (Inr (ic_created_seq (gw_channel g)), g)"

definition identity_client :: "genv \<Rightarrow> (channel_error, nat) gio" where
  "identity_client G =
     andThen (gask (ge_svid_seq G)) (\<lambda>current_seq.
     andThen load_created_seq (\<lambda>prev_seq.
     if current_seq \<noteq> prev_seq
     then andThen (lock_channel G) (\<lambda>ch.
       if ic_created_seq ch \<noteq> current_seq
       then andThen (connect_channel G) (store_channel current_seq)
       else ret (ic_connection ch))
     else andThen (lock_channel G) (\<lambda>ch. ret (ic_connection ch))))"

text \<open>\<open>IdentityChannel::new\<close>: the sequence number is read after connecting.\<close>

definition new_channel :: "genv \<Rightarrow> (channel_error, nat) gio" where
  "new_channel G =
     andThen (gask (ge_tls_config G)) (\<lambda>built.
     if \<not> built then throw Channel_Tls else
     andThen (connect_channel G) (\<lambda>connection.
     andThen (gask (ge_svid_seq G)) (\<lambda>created_seq.
     store_channel created_seq connection)))"

section \<open>Calls of the identity service\<close>

text \<open>
  The deployment: the identity service's libraries, environment and state, and the gateway's own.
  A call may fail in transport before or after the service handled it; a handler that panics
  resets the stream.
\<close>

record 'kp deployment =
  dp_libs :: "'kp libs"
  dp_env :: env
  dp_service :: identity_service
  dp_http :: http_lib
  dp_genv :: genv

definition rpc :: "'kp deployment \<Rightarrow> identity_request \<Rightarrow> (app_error, identity_response) gio" where
  "rpc D rq g =
     (let t = gw_tick g; g0 = g\<lparr>gw_tick := Suc t\<rparr>; transport = Inl (Err (Grpc (ge_status (dp_genv D) t)))
      in case ge_call (dp_genv D) t of
           Refused \<Rightarrow> (transport, g0)
         | out \<Rightarrow>
            (case serve (dp_libs D) (dp_env D) (dp_service D) rq (gw_identity g) of
               (r, w) \<Rightarrow>
                 (if out = ReplyLost then transport
                  else (case r of
                          Inr resp \<Rightarrow> Inr resp
                        | Inl (Err st) \<Rightarrow> Inl (Err (Grpc st))
                        | Inl Panic \<Rightarrow> transport),
                  g0\<lparr>gw_identity := w\<rparr>)))"

definition call :: "'kp deployment \<Rightarrow> identity_request \<Rightarrow> (app_error, identity_response) gio" where
  "call D rq =
     andThen (mapErr Channel (identity_client (dp_genv D))) (\<lambda>client. rpc D rq)"

section \<open>Responses\<close>

record user_info_json =
  uj_sub :: string
  uj_name :: string
  uj_given_name :: string
  uj_family_name :: string
  uj_username :: string
  uj_email :: string
  uj_email_verified :: bool

datatype body =
    No_Body
  | Error_Json string
  | Expires_At_Json int
  | User_Info_Json user_info_json
  | Health_Json string
  | Text string

record http_response =
  hp_status :: nat
  hp_headers :: headers
  hp_body :: body

text \<open>The content type a body is sent with (\<open>axum::Json\<close>, plain text, an empty body).\<close>

fun content_type :: "body \<Rightarrow> headers" where
  "content_type No_Body = []"
| "content_type (Text _) = [(''content-type'', ''text/plain; charset=utf-8'')]"
| "content_type _ = [(''content-type'', ''application/json'')]"

definition plain :: "nat \<Rightarrow> body \<Rightarrow> http_response" where
  "plain st b = \<lparr>hp_status = st, hp_headers = content_type b, hp_body = b\<rparr>"

text \<open>\<open>AppendHeaders\<close>.\<close>

definition append_headers :: "headers \<Rightarrow> http_response \<Rightarrow> http_response" where
  "append_headers hs r = r\<lparr>hp_headers := hp_headers r @ hs\<rparr>"

lemma append_headers_simps [simp]:
  "hp_status (append_headers hs r) = hp_status r" "hp_body (append_headers hs r) = hp_body r"
  "hp_headers (append_headers hs r) = hp_headers r @ hs"
  by (simp_all add: append_headers_def)

lemma plain_simps [simp]:
  "hp_status (plain st b) = st" "hp_body (plain st b) = b" "hp_headers (plain st b) = content_type b"
  by (simp_all add: plain_def)

definition no_content :: http_response where
  "no_content = plain 204 No_Body"

lemma no_content_simps [simp]:
  "hp_status no_content = 204" "hp_body no_content = No_Body" "hp_headers no_content = []"
  by (simp_all add: no_content_def)

definition internal_message :: string where
  "internal_message = ''internal server error''"

fun grpc_response :: "status \<Rightarrow> nat \<times> string" where
  "grpc_response s =
     (case st_code s of
        InvalidArgument \<Rightarrow> (400, st_message s)
      | AlreadyExists \<Rightarrow> (409, st_message s)
      | NotFoundCode \<Rightarrow> (404, st_message s)
      | Unauthenticated \<Rightarrow> (401, st_message s)
      | PermissionDenied \<Rightarrow> (403, st_message s)
      | Unavailable \<Rightarrow> (503, st_message s)
      | _ \<Rightarrow> (500, internal_message))"

definition error_response :: "app_error \<Rightarrow> http_response" where
  "error_response e =
     (case (case e of
              Unauthorized \<Rightarrow> (401, ''unauthorized'')
            | Session_Err err \<Rightarrow> (500, internal_message)
            | Channel err \<Rightarrow> (503, ''service temporarily unavailable'')
            | Grpc s \<Rightarrow> grpc_response s) of
        (st, message) \<Rightarrow> plain st (Error_Json message))"

section \<open>Handlers\<close>

record sign_up_body =
  sb_username :: string
  sb_given_name :: string
  sb_family_name :: string
  sb_email :: string
  sb_password :: string

record login_body =
  lb_email :: string
  lb_password :: string

definition sign_up_handler :: "'kp deployment \<Rightarrow> sign_up_body \<Rightarrow> (app_error, http_response) gio" where
  "sign_up_handler D b =
     andThen (call D (SignUp \<lparr>rq_authorization = None, rq_message =
       \<lparr>sur_username = sb_username b, sur_email = sb_email b, sur_given_name = sb_given_name b,
        sur_family_name = sb_family_name b, sur_password = Some (sb_password b)\<rparr>\<rparr>)) (\<lambda>_.
     ret no_content)"

definition verify_email_handler :: "'kp deployment \<Rightarrow> string \<Rightarrow> (app_error, http_response) gio" where
  "verify_email_handler D token =
     andThen (call D (VerifyEmail \<lparr>rq_authorization = None, rq_message = token\<rparr>)) (\<lambda>_. ret no_content)"

text \<open>\<open>expires_at_ts.nanos.try_into().unwrap_or(0)\<close>.\<close>

definition nanos_u32 :: "int \<Rightarrow> int" where
  "nanos_u32 n = (if 0 \<le> n then n else 0)"

definition missing_expiry :: session_error where
  "missing_expiry = JwtDecode ''missing expires_at in login response''"

definition invalid_expiry :: session_error where
  "invalid_expiry = JwtDecode ''invalid expires_at timestamp''"

definition start_session ::
    "'kp deployment \<Rightarrow> login_response \<Rightarrow> (app_error, http_response) gio" where
  "start_session D resp =
     andThen (pureR Session_Err (decode_sub_from_jwt (dp_libs D) (dp_http D) (lrs_access_token resp)))
       (\<lambda>user_id.
     andThen (pureR Session_Err (ok_or missing_expiry (lrs_expires_at resp))) (\<lambda>ts.
     andThen (pureR Session_Err (ok_or invalid_expiry
       (hl_from_timestamp (dp_http D) (ts_seconds ts) (nanos_u32 (ts_nanos ts))))) (\<lambda>expires_at.
     andThen (mapErr Session_Err (create_session (dp_libs D) (dp_genv D) user_id
       (lrs_access_token resp) (lrs_id_token resp) (lrs_refresh_token resp) expires_at))
       (\<lambda>session_token.
     ret (append_headers [(''set-cookie'', set_session_cookie session_token)]
       (plain 200 (Expires_At_Json (ts_seconds ts))))))))"

text \<open>The generated client's types rule the other responses out.\<close>

definition unexpected :: "app_error" where
  "unexpected = Grpc \<lparr>st_code = Unimplemented, st_message = []\<rparr>"

definition login_handler :: "'kp deployment \<Rightarrow> login_body \<Rightarrow> (app_error, http_response) gio" where
  "login_handler D b =
     andThen (call D (Login \<lparr>rq_authorization = None, rq_message =
       \<lparr>lrq_email = lb_email b, lrq_password = lb_password b\<rparr>\<rparr>)) (\<lambda>r.
     case r of LoggedIn resp \<Rightarrow> start_session D resp | _ \<Rightarrow> throw unexpected)"

definition logout_handler :: "'kp deployment \<Rightarrow> session \<Rightarrow> (app_error, http_response) gio" where
  "logout_handler D s =
     andThen (mapErr Session_Err (delete_session (dp_genv D) (ss_token_hash s))) (\<lambda>_.
     ret (append_headers [(''set-cookie'', clear_session_cookie)] no_content))"

definition user_info_handler :: "'kp deployment \<Rightarrow> session \<Rightarrow> (app_error, http_response) gio" where
  "user_info_handler D s =
     andThen (mapErr Channel (identity_client (dp_genv D))) (\<lambda>client.
     andThen (pureX (\<lambda>e. e) (with_auth (dp_http D) s ())) (\<lambda>req.
     andThen (rpc D (UserInfo req)) (\<lambda>r.
     case r of
       UserInfoIs resp \<Rightarrow> ret (plain 200 (User_Info_Json
         \<lparr>uj_sub = uir_sub resp, uj_name = uir_name resp, uj_given_name = uir_given_name resp,
          uj_family_name = uir_family_name resp, uj_username = uir_username resp,
          uj_email = uir_email resp, uj_email_verified = uir_email_verified resp\<rparr>))
     | _ \<Rightarrow> throw unexpected)))"

definition update_profile_handler ::
    "'kp deployment \<Rightarrow> session \<Rightarrow> update_profile_request \<Rightarrow> (app_error, http_response) gio" where
  "update_profile_handler D s b =
     andThen (mapErr Channel (identity_client (dp_genv D))) (\<lambda>client.
     andThen (pureX (\<lambda>e. e) (with_auth (dp_http D) s
       \<lparr>upr_given_name = upr_given_name b, upr_family_name = upr_family_name b,
        upr_username = upr_username b\<rparr>)) (\<lambda>req.
     andThen (rpc D (UpdateProfile req)) (\<lambda>_. ret no_content)))"

definition update_password_handler ::
    "'kp deployment \<Rightarrow> session \<Rightarrow> update_password_request \<Rightarrow> (app_error, http_response) gio" where
  "update_password_handler D s b =
     andThen (mapErr Channel (identity_client (dp_genv D))) (\<lambda>client.
     andThen (pureX (\<lambda>e. e) (with_auth (dp_http D) s
       \<lparr>upw_current_password = upw_current_password b, upw_new_password = upw_new_password b\<rparr>)) (\<lambda>req.
     andThen (rpc D (UpdatePassword req)) (\<lambda>_. ret no_content)))"

definition resend_verification_handler :: "'kp deployment \<Rightarrow> string \<Rightarrow> (app_error, http_response) gio" where
  "resend_verification_handler D email =
     andThen (call D (ResendVerification \<lparr>rq_authorization = None, rq_message = email\<rparr>)) (\<lambda>_.
     ret no_content)"

definition health_check :: http_response where
  "health_check = plain 200 (Health_Json ''ok'')"

section \<open>The router\<close>

datatype http_method = GET | HEAD | POST | PATCH | Other_Method string

record http_request =
  hr_method :: http_method
  hr_path :: string
  hr_headers :: headers
  hr_body :: bytes

text \<open>
  \<open>axum::Json\<close>: whether the content type is JSON and, for each body type, the decoded body or
  axum's own rejection (a syntax error, a missing field).
\<close>

record body_lib =
  bl_json_content_type :: "headers \<Rightarrow> bool"
  bl_sign_up :: "bytes \<Rightarrow> http_response + sign_up_body"
  bl_verify_email :: "bytes \<Rightarrow> http_response + string"
  bl_login :: "bytes \<Rightarrow> http_response + login_body"
  bl_update_profile :: "bytes \<Rightarrow> http_response + update_profile_request"
  bl_update_password :: "bytes \<Rightarrow> http_response + update_password_request"
  bl_resend_verification :: "bytes \<Rightarrow> http_response + string"

definition BODY_LIMIT :: nat where
  "BODY_LIMIT = 1048576"

text \<open>The request is answered with a value, or the handler panics and the connection is dropped.\<close>

type_synonym responder = "(unit, http_response) gio"

definition respond :: "(app_error, http_response) gio \<Rightarrow> responder" where
  "respond m g =
     (case m g of
        (Inr r, g') \<Rightarrow> (Inr r, g')
      | (Inl (Err e), g') \<Rightarrow> (Inr (error_response e), g')
      | (Inl Panic, g') \<Rightarrow> (Inl Panic, g'))"

definition with_body ::
    "body_lib \<Rightarrow> (bytes \<Rightarrow> http_response + 'b) \<Rightarrow> http_request \<Rightarrow> ('b \<Rightarrow> (app_error, http_response) gio)
      \<Rightarrow> (app_error, http_response) gio" where
  "with_body B decode rq k =
     (if \<not> bl_json_content_type B (hr_headers rq) then ret (plain 415
        (Text ''Expected request with `Content-Type: application/json`''))
      else if length (hr_body rq) > BODY_LIMIT then ret (plain 413
        (Text ''Failed to buffer the request body: length limit exceeded''))
      else (case decode (hr_body rq) of
              Inl rejection \<Rightarrow> ret rejection
            | Inr b \<Rightarrow> k b))"

datatype endpoint =
    Ep_Health | Ep_Sign_Up | Ep_Verify_Email | Ep_Login | Ep_Logout | Ep_User_Info
  | Ep_Update_Profile | Ep_Update_Password | Ep_Resend_Verification

text \<open>The routes, with the method each is declared for; the authentication routes are mounted only
  where there is a state.\<close>

definition routes :: "bool \<Rightarrow> (string \<times> http_method \<times> endpoint) list" where
  "routes has_state =
     (''/healthz'', GET, Ep_Health) #
     (if has_state then
        [(''/api/v1/sign-up'', POST, Ep_Sign_Up),
         (''/api/v1/verify-email'', POST, Ep_Verify_Email),
         (''/api/v1/login'', POST, Ep_Login),
         (''/api/v1/logout'', POST, Ep_Logout),
         (''/api/v1/userinfo'', GET, Ep_User_Info),
         (''/api/v1/profile'', PATCH, Ep_Update_Profile),
         (''/api/v1/update-password'', POST, Ep_Update_Password),
         (''/api/v1/resend-verification'', POST, Ep_Resend_Verification)]
      else [])"

text \<open>A \<open>GET\<close> route also answers \<open>HEAD\<close>, without a body.\<close>

definition method_allowed :: "http_method \<Rightarrow> http_method \<Rightarrow> bool" where
  "method_allowed declared m \<longleftrightarrow> m = declared \<or> declared = GET \<and> m = HEAD"

fun run_endpoint :: "'kp deployment \<Rightarrow> body_lib \<Rightarrow> endpoint \<Rightarrow> http_request \<Rightarrow> (app_error, http_response) gio" where
  "run_endpoint D B Ep_Health rq = ret health_check"
| "run_endpoint D B Ep_Sign_Up rq = with_body B (bl_sign_up B) rq (sign_up_handler D)"
| "run_endpoint D B Ep_Verify_Email rq = with_body B (bl_verify_email B) rq (verify_email_handler D)"
| "run_endpoint D B Ep_Login rq = with_body B (bl_login B) rq (login_handler D)"
| "run_endpoint D B Ep_Logout rq =
     andThen (auth_session (dp_libs D) (dp_http D) (dp_genv D) (hr_headers rq)) (logout_handler D)"
| "run_endpoint D B Ep_User_Info rq =
     andThen (auth_session (dp_libs D) (dp_http D) (dp_genv D) (hr_headers rq)) (user_info_handler D)"
| "run_endpoint D B Ep_Update_Profile rq =
     andThen (auth_session (dp_libs D) (dp_http D) (dp_genv D) (hr_headers rq)) (\<lambda>s.
       with_body B (bl_update_profile B) rq (update_profile_handler D s))"
| "run_endpoint D B Ep_Update_Password rq =
     andThen (auth_session (dp_libs D) (dp_http D) (dp_genv D) (hr_headers rq)) (\<lambda>s.
       with_body B (bl_update_password B) rq (update_password_handler D s))"
| "run_endpoint D B Ep_Resend_Verification rq =
     with_body B (bl_resend_verification B) rq (resend_verification_handler D)"

fun allow_value :: "http_method \<Rightarrow> string" where
  "allow_value GET = ''GET,HEAD''"
| "allow_value HEAD = ''HEAD''"
| "allow_value POST = ''POST''"
| "allow_value PATCH = ''PATCH''"
| "allow_value (Other_Method m) = m"

definition method_not_allowed :: "http_method \<Rightarrow> http_response" where
  "method_not_allowed declared = append_headers [(''allow'', allow_value declared)] (plain 405 No_Body)"

lemma method_not_allowed_simps [simp]:
  "hp_status (method_not_allowed m) = 405" "hp_body (method_not_allowed m) = No_Body"
  by (simp_all add: method_not_allowed_def)

definition find_route :: "bool \<Rightarrow> string \<Rightarrow> (http_method \<times> endpoint) option" where
  "find_route has_state path = map_of (routes has_state) path"

definition without_body :: "http_response \<Rightarrow> http_response" where
  "without_body r = r\<lparr>hp_body := No_Body\<rparr>"

definition dispatch :: "'kp deployment \<Rightarrow> body_lib \<Rightarrow> bool \<Rightarrow> http_request \<Rightarrow> responder" where
  "dispatch D B has_state rq =
     (case find_route has_state (hr_path rq) of
        None \<Rightarrow> ret (plain 404 No_Body)
      | Some (declared, ep) \<Rightarrow>
          if \<not> method_allowed declared (hr_method rq) then ret (method_not_allowed declared)
          else andThen (respond (run_endpoint D B ep rq)) (\<lambda>r.
            ret (if hr_method rq = HEAD then without_body r else r)))"

text \<open>\<open>SetResponseHeaderLayer::overriding\<close>, and the layers in the order they wrap the router.\<close>

definition override_header :: "string \<times> string \<Rightarrow> http_response \<Rightarrow> http_response" where
  "override_header h r =
     r\<lparr>hp_headers := filter (\<lambda>(name, _). name \<noteq> fst h) (hp_headers r) @ [h]\<rparr>"

definition security_headers :: headers where
  "security_headers =
     [(''strict-transport-security'', ''max-age=63072000; includeSubDomains; preload''),
      (''x-content-type-options'', ''nosniff''),
      (''x-frame-options'', ''DENY''),
      (''referrer-policy'', ''strict-origin-when-cross-origin''),
      (''permissions-policy'',
        ''accelerometer=(), camera=(), geolocation=(), gyroscope=(), '' @
        ''magnetometer=(), microphone=(), payment=(), usb=()''),
      (''content-security-policy'', ''default-src 'none'; frame-ancestors 'none'; base-uri 'none'' @ [CHR 0x27])]"

definition router :: "'kp deployment \<Rightarrow> body_lib \<Rightarrow> bool \<Rightarrow> http_request \<Rightarrow> responder" where
  "router D B has_state rq =
     andThen (dispatch D B has_state rq) (\<lambda>r. ret (fold override_header security_headers r))"

end
