(* ===== verification/Web_Proxy.thy ===== *)
theory Web_Proxy
  imports Gateway_Routes
begin

text \<open>
  The web server's reverse proxy (\<open>services/web/src/proxy.rs\<close>) and the router it is nested in
  (\<open>services/web/src/main.rs\<close>): requests below \<open>/api/v1\<close> go to the gateway, all others to the pages.
  \<open>reqwest\<close> is a parameter that sends a request and returns the response or nothing; the body of
  the response may get lost on the way.
\<close>

section \<open>Headers\<close>

definition MAX_BODY_SIZE :: nat where
  "MAX_BODY_SIZE = 1024 * 1024"

definition is_dropped_request_header :: "string \<Rightarrow> bool" where
  "is_dropped_request_header name \<longleftrightarrow>
     name = ''connection'' \<or> name = ''te'' \<or> name = ''trailer'' \<or> name = ''transfer-encoding'' \<or>
     name = ''upgrade'' \<or> name = ''keep-alive'' \<or> name = ''proxy-authenticate'' \<or>
     name = ''proxy-authorization'' \<or>
     name = ''content-length'' \<or> name = ''host'' \<or> name = ''x-forwarded-for'' \<or>
     name = ''x-forwarded-proto'' \<or> name = ''x-forwarded-host''"

definition is_hop_by_hop_response :: "string \<Rightarrow> bool" where
  "is_hop_by_hop_response name \<longleftrightarrow>
     name = ''connection'' \<or> name = ''te'' \<or> name = ''trailer'' \<or> name = ''transfer-encoding'' \<or>
     name = ''upgrade'' \<or> name = ''keep-alive''"

definition forwarded_for :: "http_lib \<Rightarrow> string \<Rightarrow> headers \<Rightarrow> string" where
  "forwarded_for H client_ip hs =
     (case map_of hs ''x-forwarded-for'' of
        Some existing \<Rightarrow> (case hl_to_str H existing of Some s \<Rightarrow> s | None \<Rightarrow> []) @ '', '' @ client_ip
      | None \<Rightarrow> client_ip)"

definition forwarded_proto :: "headers \<Rightarrow> string" where
  "forwarded_proto hs =
     (case map_of hs ''x-forwarded-proto'' of Some proto \<Rightarrow> proto | None \<Rightarrow> ''https'')"

definition forwarded_host :: "headers \<Rightarrow> headers" where
  "forwarded_host hs =
     (case map_of hs ''x-forwarded-host'' of
        Some host \<Rightarrow> [(''x-forwarded-host'', host)]
      | None \<Rightarrow> (case map_of hs ''host'' of
                   Some host \<Rightarrow> [(''x-forwarded-host'', host)]
                 | None \<Rightarrow> []))"

definition forwarded_headers :: "http_lib \<Rightarrow> string \<Rightarrow> headers \<Rightarrow> headers" where
  "forwarded_headers H client_ip hs =
     filter (\<lambda>(name, _). \<not> is_dropped_request_header name) hs @
     [(''x-forwarded-for'', forwarded_for H client_ip hs),
      (''x-forwarded-proto'', forwarded_proto hs)] @
     forwarded_host hs"

section \<open>The proxy\<close>

text \<open>A request below the prefix; the body is absent where its stream cannot be read.\<close>

record proxy_request =
  pr_method :: http_method
  pr_path :: string
  pr_query :: "string option"
  pr_headers :: headers
  pr_body :: "bytes option"

record forwarded_request =
  fr_method :: http_method
  fr_url :: string
  fr_headers :: headers
  fr_body :: "bytes option"

record upstream_response =
  up_status :: nat
  up_headers :: headers
  up_body :: "body option"

type_synonym 'g sender = "forwarded_request \<Rightarrow> 'g \<Rightarrow> upstream_response option \<times> 'g"

record proxy_state =
  ps_gateway_url :: string

fun trim_end_slash :: "string \<Rightarrow> string" where
  "trim_end_slash s = rev (dropWhile (\<lambda>c. c = CHR ''/'') (rev s))"

definition api_proxy :: "string \<Rightarrow> proxy_state" where
  "api_proxy gateway_url = \<lparr>ps_gateway_url = trim_end_slash gateway_url\<rparr>"

definition proxy_url :: "proxy_state \<Rightarrow> string \<Rightarrow> string option \<Rightarrow> string" where
  "proxy_url S path query =
     ps_gateway_url S @ ''/api/v1'' @ path @ (case query of Some q \<Rightarrow> ''?'' @ q | None \<Rightarrow> [])"

text \<open>A response whose body is bytes is built with a content type of its own; the headers of the
  gateway's response are appended to it.\<close>

definition relayed :: "upstream_response \<Rightarrow> http_response" where
  "relayed resp =
     append_headers (filter (\<lambda>(name, _). \<not> is_hop_by_hop_response name) (up_headers resp))
       \<lparr>hp_status = up_status resp,
        hp_headers = [(''content-type'', ''application/octet-stream'')],
        hp_body = (case up_body resp of Some b \<Rightarrow> b | None \<Rightarrow> No_Body)\<rparr>"

definition proxy_handler ::
    "http_lib \<Rightarrow> proxy_state \<Rightarrow> 'g sender \<Rightarrow> string \<Rightarrow> proxy_request \<Rightarrow> 'g \<Rightarrow> http_response \<times> 'g" where
  "proxy_handler H S send client_ip rq g =
     (case pr_body rq of
        None \<Rightarrow> (plain 413 No_Body, g)
      | Some body_bytes \<Rightarrow>
          if length body_bytes > MAX_BODY_SIZE then (plain 413 No_Body, g)
          else
            (let req = \<lparr>fr_method = pr_method rq,
                        fr_url = proxy_url S (pr_path rq) (pr_query rq),
                        fr_headers = forwarded_headers H client_ip (pr_headers rq),
                        fr_body = (if body_bytes \<noteq> [] then Some body_bytes else None)\<rparr>
             in case send req g of
                  (Some resp, g') \<Rightarrow> (relayed resp, g')
                | (None, g') \<Rightarrow> (plain 502 No_Body, g')))"

section \<open>The web server's router\<close>

text \<open>The path below \<open>/api/v1\<close> where the route \<open>/{*path}\<close> matches it: it needs a character.\<close>

definition proxied_path :: "string \<Rightarrow> string option" where
  "proxied_path path =
     (case strip_prefix ''/api/v1'' path of
        Some rest \<Rightarrow> (if length rest > 1 \<and> hd rest = CHR ''/'' then Some rest else None)
      | None \<Rightarrow> None)"

definition web_security_headers :: headers where
  "web_security_headers =
     [(''strict-transport-security'', ''max-age=63072000; includeSubDomains; preload''),
      (''x-content-type-options'', ''nosniff''),
      (''x-frame-options'', ''DENY''),
      (''referrer-policy'', ''strict-origin-when-cross-origin''),
      (''permissions-policy'',
        ''accelerometer=(), camera=(), geolocation=(), gyroscope=(), '' @
        ''magnetometer=(), microphone=(), payment=(), usb=()'')]"

text \<open>\<open>pages\<close> answers what is not proxied (the \<open>leptos\<close> routes and their fallback).\<close>

definition web_router ::
    "http_lib \<Rightarrow> proxy_state \<Rightarrow> 'g sender \<Rightarrow> (proxy_request \<Rightarrow> 'g \<Rightarrow> http_response \<times> 'g) \<Rightarrow> string \<Rightarrow>
      proxy_request \<Rightarrow> 'g \<Rightarrow> http_response \<times> 'g" where
  "web_router H S send pages client_ip rq g =
     (case (case proxied_path (pr_path rq) of
              Some rest \<Rightarrow> proxy_handler H S send client_ip (rq\<lparr>pr_path := rest\<rparr>) g
            | None \<Rightarrow> pages rq g) of
        (r, g') \<Rightarrow> (fold override_header web_security_headers r, g'))"

end
