(* ===== verification/Gateway_Laws.thy ===== *)
theory Gateway_Laws
  imports Gateway_Routes Login_Laws
begin

text \<open>
  Lemmas on the gateway: the cookie, the session table as an expiring store, what an authenticated
  request implies, the tokens that sessions hold, and a call of the identity service in an
  environment without faults.
\<close>

section \<open>The cookie\<close>

lemma split_on_join_with:
  "ps \<noteq> [] \<Longrightarrow> \<forall>p \<in> set ps. c \<notin> set p \<Longrightarrow> split_on c (join_with c ps) = ps"
proof (induction c ps rule: join_with.induct)
  case (3 c p q ps)
  then show ?case using split_on_append [of c p "join_with c (q # ps)"] by simp
qed simp_all

definition is_session_pair :: "string \<Rightarrow> bool" where
  "is_session_pair pair \<longleftrightarrow> strip_prefix SESSION_COOKIE (trim pair) \<noteq> None"

lemma session_pair_skip: "\<forall>q \<in> set pre. \<not> is_session_pair q \<Longrightarrow> session_pair (pre @ ps) = session_pair ps"
  by (induction pre) (auto simp: is_session_pair_def)

lemma session_pair_none: "\<forall>q \<in> set ps. \<not> is_session_pair q \<Longrightarrow> session_pair ps = Inl Unauthorized"
  using session_pair_skip [of ps "[]"] by simp

text \<open>The first pair whose name begins with the cookie's name decides.\<close>

lemma session_pair_first:
  "is_session_pair p \<Longrightarrow> session_pair (p # ps) =
     (if \<exists>v. trim p = SESSION_COOKIE @ ''='' @ v
      then Inr (drop (length SESSION_COOKIE + 1) (trim p)) else Inl Unauthorized)"
proof -
  assume "is_session_pair p"
  then obtain v where v: "trim p = SESSION_COOKIE @ v"
    by (auto simp: is_session_pair_def strip_prefix_Some_iff)
  then show ?thesis
    by (cases v) (auto simp: strip_prefix_def)
qed

lemma session_pair_Inr:
  "session_pair ps = Inr v \<Longrightarrow>
     \<exists>pre p post. ps = pre @ p # post \<and> (\<forall>q \<in> set pre. \<not> is_session_pair q) \<and>
       trim p = SESSION_COOKIE @ ''='' @ v"
proof (induction ps)
  case (Cons p ps)
  show ?case
  proof (cases "is_session_pair p")
    case True
    then have "trim p = SESSION_COOKIE @ ''='' @ v"
      using Cons.prems session_pair_first [OF True, of ps] by (auto split: if_splits)
    then show ?thesis by (intro exI [of _ "[]"] exI [of _ p] exI [of _ ps]) simp
  next
    case False
    then have "session_pair ps = Inr v" using session_pair_skip [of "[p]" ps] Cons.prems by simp
    then obtain pre q post where "ps = pre @ q # post" "\<forall>x \<in> set pre. \<not> is_session_pair x"
      "trim q = SESSION_COOKIE @ ''='' @ v"
      using Cons.IH by blast
    then show ?thesis using False
      by (intro exI [of _ "p # pre"] exI [of _ q] exI [of _ post]) simp
  qed
qed simp

lemma strip_prefix_char [simp]: "strip_prefix [c] (c # s) = Some s"
  by (simp add: strip_prefix_def)

lemma session_pair_found:
  "\<forall>q \<in> set pre. \<not> is_session_pair q \<Longrightarrow> trim p = SESSION_COOKIE @ ''='' @ v \<Longrightarrow>
     session_pair (pre @ p # post) = Inr v"
  by (simp add: session_pair_skip)

text \<open>Strings of visible ASCII characters, which header and metadata values can hold.\<close>

definition visible :: "string \<Rightarrow> bool" where
  "visible s \<longleftrightarrow> list_all (\<lambda>c. 32 \<le> (of_char c :: nat) \<and> (of_char c :: nat) < 127) s"

text \<open>
  What the gateway relies on: header and metadata values of visible characters are taken as they
  are, and the \<open>sub\<close> member of serialised claims is their subject.
\<close>

definition http_ok :: "json_lib \<Rightarrow> http_lib \<Rightarrow> bool" where
  "http_ok J H \<longleftrightarrow>
     (\<forall>s. visible s \<longrightarrow> hl_to_str H s = Some s \<and> hl_metadata H s = Some s) \<and>
     (\<forall>c b. claims_to_vec J c = Some b \<longrightarrow> hl_sub H b = Some (cl_sub c))"

lemma http_okD:
  assumes "http_ok J H"
  shows "visible s \<Longrightarrow> hl_to_str H s = Some s" "visible s \<Longrightarrow> hl_metadata H s = Some s"
    "claims_to_vec J c = Some b \<Longrightarrow> hl_sub H b = Some (cl_sub c)"
  using assms by (auto simp: http_ok_def)

lemma visible_append [simp]: "visible (s @ t) \<longleftrightarrow> visible s \<and> visible t"
  by (simp add: visible_def)

lemma visible_simps [simp]:
  "visible []"
  "visible (c # s) \<longleftrightarrow> 32 \<le> (of_char c :: nat) \<and> (of_char c :: nat) < 127 \<and> visible s"
  by (simp_all add: visible_def)

lemma b64url_visible: "base64_ok B \<Longrightarrow> visible (b64url_encode B x)"
  using b64url_encode_chars [of B _ x]
  by (fastforce simp: visible_def list_all_iff b64url_char_def is_ascii_alphanumeric_def Let_def)

lemma trim_space: "trim (CHR '' '' # s) = trim s"
proof -
  have "List.find (\<lambda>w. w \<noteq> [] \<and> take (length w) (CHR '' '' # s) = w) white_space = Some [CHR '' '']"
    by (simp add: white_space_def)
  then have "strip_any white_space (CHR '' '' # s) = strip_any white_space s"
    by (subst strip_any.simps) simp
  then show ?thesis by (simp add: trim_def trim_start_def)
qed

text \<open>A base64url cookie value survives trimming.\<close>

lemma trim_cookie:
  assumes "base64_ok B"
  shows "trim (SESSION_COOKIE @ ''='' @ b64url_encode B x) = SESSION_COOKIE @ ''='' @ b64url_encode B x"
proof (rule trim_id, rule disjI2, rule conjI)
  let ?s = "SESSION_COOKIE @ ''='' @ b64url_encode B x"
  show "hd ?s \<notin> hd ` set white_space" unfolding white_space_ends(1) by (simp add: SESSION_COOKIE_def)
  have "last ?s = CHR ''='' \<or> b64url_char (last ?s)"
    using b64url_encode_chars [OF assms last_in_set] by auto
  then have "(of_char (last ?s) :: nat) < 128 \<and> last ?s \<notin> {CHR 0x09, CHR 0x0A, CHR 0x0B, CHR 0x0C, CHR 0x0D, CHR 0x20}"
    by (auto simp: b64url_char_def is_ascii_alphanumeric_def Let_def)
  then show "last ?s \<notin> last ` set white_space"
    using white_space_ends(2) by fastforce
qed

section \<open>The session table\<close>

text \<open>A store whose entries expire after a fixed time.\<close>

locale expiring_store =
  fixes put :: "'v \<Rightarrow> instant \<Rightarrow> 't \<Rightarrow> 't"
    and find :: "'k \<Rightarrow> instant \<Rightarrow> 't \<Rightarrow> 'v option"
    and remove :: "'k \<Rightarrow> 't \<Rightarrow> 't"
    and key :: "'v \<Rightarrow> 'k"
    and stored :: "'v \<Rightarrow> 'v"
    and ttl :: instant
  assumes find_put: "find k now (put v t tbl) =
      (if k = key v then if now < t + ttl then Some (stored v) else None else find k now tbl)"
    and find_remove: "find k now (remove k' tbl) = (if k = k' then None else find k now tbl)"
begin

definition leaves :: "'k \<Rightarrow> ('t \<Rightarrow> 't) \<Rightarrow> bool" where
  "leaves k f \<longleftrightarrow> (\<exists>v t. f = put v t \<and> key v \<noteq> k) \<or> (\<exists>k'. f = remove k' \<and> k' \<noteq> k)"

lemma find_later: "\<forall>f \<in> set fs. leaves k f \<Longrightarrow> find k now (fold id fs tbl) = find k now tbl"
  by (induction fs arbitrary: tbl) (auto simp: leaves_def find_put find_remove)

text \<open>An entry is found exactly until it expires, whatever happens to the others.\<close>

lemma found_until_expiry:
  "\<forall>f \<in> set fs. leaves (key v) f \<Longrightarrow>
     find (key v) now (fold id fs (put v t tbl)) = (if now < t + ttl then Some (stored v) else None)"
  by (simp add: find_later find_put)

lemma removed_for_good:
  "\<forall>f \<in> set fs. leaves k f \<Longrightarrow> find k now (fold id fs (remove k tbl)) = None"
  by (simp add: find_later find_remove)

end

definition stored_session :: "session \<Rightarrow> session" where
  "stored_session s = s\<lparr>ss_expires_at := stored_timestamp (ss_expires_at s),
     ss_created_at := stored_timestamp (ss_created_at s)\<rparr>"

interpretation session_rows: expiring_store cql_insert cql_select cql_delete ss_token_hash
  stored_session "seconds DEFAULT_TIME_TO_LIVE"
  by unfold_locales (auto simp: cql_insert_def cql_select_def cql_delete_def stored_session_def)

lemma cql_select_Some_iff:
  "cql_select h now tbl = Some s \<longleftrightarrow>
     (\<exists>written. tbl h = Some (s, written) \<and> now < written + seconds DEFAULT_TIME_TO_LIVE)"
  by (auto simp: cql_select_def split: option.splits)

lemma stored_session_simps [simp]:
  "ss_token_hash (stored_session s) = ss_token_hash s"
  "ss_user_id (stored_session s) = ss_user_id s"
  "ss_access_token (stored_session s) = ss_access_token s"
  "ss_id_token (stored_session s) = ss_id_token s"
  "ss_refresh_token (stored_session s) = ss_refresh_token s"
  by (simp_all add: stored_session_def)

section \<open>Effects\<close>

lemma gask_Inr_iff: "gask f g = (Inr a, g') \<longleftrightarrow> a = f (gw_tick g) \<and> g' = g\<lparr>gw_tick := Suc (gw_tick g)\<rparr>"
  by (auto simp: gask_def)

lemma scylla_Inr_iff:
  "scylla G e f g = (Inr a, g') \<longleftrightarrow>
     ge_scylla G (gw_tick g) = Delivered \<and>
     (\<exists>tbl. f (ge_scylla_now G (gw_tick g)) (ge_others G (gw_tick g) (gw_sessions g)) = (a, tbl) \<and>
        g' = g\<lparr>gw_sessions := tbl, gw_tick := Suc (gw_tick g)\<rparr>)"
  by (auto simp: scylla_def Let_def split: outcome.splits prod.splits)

lemma get_session_Inr_iff:
  "get_session G h g = (Inr r, g') \<longleftrightarrow>
     ge_scylla G (gw_tick g) = Delivered \<and>
     r = cql_select h (ge_scylla_now G (gw_tick g)) (ge_others G (gw_tick g) (gw_sessions g)) \<and>
     g' = g\<lparr>gw_sessions := ge_others G (gw_tick g) (gw_sessions g), gw_tick := Suc (gw_tick g)\<rparr>"
  by (auto simp: get_session_def scylla_Inr_iff)

lemma create_session_Inr_iff:
  "create_session L G uid at it rt ex g = (Inr tok, g') \<longleftrightarrow>
     (\<exists>h. generate_session_token (l_b64 L) (l_sha256 L) (ge_rand G (gw_tick g)) = Inr (tok, h) \<and>
        ge_scylla G (gw_tick g + 2) = Delivered \<and>
        g' = g\<lparr>gw_sessions := cql_insert \<lparr>ss_token_hash = h, ss_user_id = uid, ss_access_token = at,
            ss_id_token = it, ss_refresh_token = rt, ss_expires_at = ex,
            ss_created_at = ge_utc G (gw_tick g + 1)\<rparr> (ge_scylla_now G (gw_tick g + 2))
            (ge_others G (gw_tick g + 2) (gw_sessions g)), gw_tick := gw_tick g + 3\<rparr>)"
  by (auto simp: create_session_def andThen_Inr_iff gask_Inr_iff pureR_Inr_iff scylla_Inr_iff ret_def
      eval_nat_numeral split: prod.splits)

lemma auth_session_Inr_iff:
  "auth_session L H G hs g = (Inr s, g') \<longleftrightarrow>
     (\<exists>tok h. extract_session_cookie H hs = Inr tok \<and>
        hash_session_token (l_b64 L) (l_sha256 L) tok = Inr h \<and>
        get_session G h g = (Inr (Some s), g'))"
  by (auto simp: auth_session_def andThen_Inr_iff pureR_Inr_iff mapErr_Inr_iff)

section \<open>Without faults\<close>

definition gcalm :: "genv \<Rightarrow> bool" where
  "gcalm G \<longleftrightarrow> (\<forall>t. ge_scylla G t = Delivered \<and> ge_connect G t \<and> ge_call G t = Delivered \<and>
     (\<forall>tbl. ge_others G t tbl = tbl) \<and> (\<forall>ch. ge_rebuilt G t ch = ch))"

lemma gcalmD:
  assumes "gcalm G"
  shows "ge_scylla G t = Delivered" "ge_connect G t" "ge_call G t = Delivered" "ge_others G t tbl = tbl"
    "ge_rebuilt G t ch = ch"
  using assms by (auto simp: gcalm_def)

lemma identity_client_calm:
  "gcalm G \<Longrightarrow> \<exists>c g'. identity_client G g = (Inr c, g') \<and> gw_sessions g' = gw_sessions g \<and>
     gw_identity g' = gw_identity g"
  by (auto simp: identity_client_def load_created_seq_def andThen_def gask_def Let_def lock_channel_def
      connect_channel_def store_channel_def ret_def gcalmD)

lemma rpc_calm:
  "gcalm (dp_genv D) \<Longrightarrow>
     serve (dp_libs D) (dp_env D) (dp_service D) rq (gw_identity g) = (Inr resp, w) \<Longrightarrow>
     rpc D rq g = (Inr resp, g\<lparr>gw_tick := Suc (gw_tick g), gw_identity := w\<rparr>)"
  by (simp add: rpc_def gcalmD)

lemma rpc_Inr:
  "rpc D rq g = (Inr resp, g') \<Longrightarrow>
     serve (dp_libs D) (dp_env D) (dp_service D) rq (gw_identity g) = (Inr resp, gw_identity g') \<and>
     gw_sessions g' = gw_sessions g"
  by (auto simp: rpc_def Let_def split: outcome.splits prod.splits sum.splits exit.splits if_splits)

text \<open>The profile the identity service reports for a stored user.\<close>

definition profile_of :: "'kp libs \<Rightarrow> user_row \<Rightarrow> user_info_json" where
  "profile_of L u = \<lparr>uj_sub = uuid_to_string (l_uuid L) (u_id u),
     uj_name = u_given_name u @ '' '' @ u_family_name u, uj_given_name = u_given_name u,
     uj_family_name = u_family_name u, uj_username = u_username u, uj_email = u_email u,
     uj_email_verified = u_email_verified u\<rparr>"

lemma user_info_served:
  assumes "calm V" and "inv L (w_db w)" and "u \<in> set (users (w_db w))" and "live u"
    and "authenticate L V rq (dp_reader (is_db S)) w = (Inr (u_id u), w\<lparr>w_tick := w_tick w + 3\<rparr>)"
  shows "\<exists>resp w'. serve L V S (UserInfo rq) w = (Inr (UserInfoIs resp), w') \<and>
    uir_sub resp = uuid_to_string (l_uuid L) (u_id u) \<and>
    uir_name resp = u_given_name u @ '' '' @ u_family_name u \<and> uir_given_name resp = u_given_name u \<and>
    uir_family_name resp = u_family_name u \<and> uir_username resp = u_username u \<and>
    uir_email resp = u_email u \<and> uir_email_verified resp = u_email_verified u"
proof -
  let ?w = "w\<lparr>w_tick := w_tick w + 3\<rparr>"
  have found: "sql_user_by_id (u_id u) now (w_db w) = Inr (Some u, w_db w)" for now
    using assms(3,4) by (simp add: sql_user_by_id_iff [OF assms(2)])
  have "\<forall>r. Some u = Some r \<longrightarrow> valid_status (u_status r)" using db_inv_statuses [OF assms(2,3)] by simp
  then have "\<exists>w'. user_info V (dp_reader (is_db S)) (u_id u) ?w = (Inr (user_of u), w')"
    by (simp add: user_info_def get_user_by_id_def andThen_def pool_get_def ask_def ret_def mapErr_def
        calmD [OF assms(1)] calm_exec [OF assms(1)] found expect_user_valid pureR_def)
  then show ?thesis
    using assms(5)
    by (auto simp: handle_user_info_def andThen_def mapErr_def ret_def user_of_simps)
qed

section \<open>Logging in\<close>

lemma set_session_cookie_eq_iff: "set_session_cookie t = set_session_cookie t' \<longleftrightarrow> t = t'"
  by (simp add: set_session_cookie_def)

lemma start_session_Inr:
  assumes "start_session D resp g = (Inr r, g')"
  obtains tok uid ts ex h where
    "decode_sub_from_jwt (dp_libs D) (dp_http D) (lrs_access_token resp) = Inr uid"
    "lrs_expires_at resp = Some ts"
    "hl_from_timestamp (dp_http D) (ts_seconds ts) (nanos_u32 (ts_nanos ts)) = Some ex"
    "generate_session_token (l_b64 (dp_libs D)) (l_sha256 (dp_libs D)) (ge_rand (dp_genv D) (gw_tick g)) = Inr (tok, h)"
    "gw_sessions g' = cql_insert \<lparr>ss_token_hash = h, ss_user_id = uid, ss_access_token = lrs_access_token resp,
       ss_id_token = lrs_id_token resp, ss_refresh_token = lrs_refresh_token resp, ss_expires_at = ex,
       ss_created_at = ge_utc (dp_genv D) (gw_tick g + 1)\<rparr> (ge_scylla_now (dp_genv D) (gw_tick g + 2))
       (ge_others (dp_genv D) (gw_tick g + 2) (gw_sessions g))"
    "gw_identity g' = gw_identity g"
    "r = append_headers [(''set-cookie'', set_session_cookie tok)] (plain 200 (Expires_At_Json (ts_seconds ts)))"
  using assms
  by (auto simp: start_session_def andThen_Inr_iff pureR_Inr_iff mapErr_Inr_iff create_session_Inr_iff
      ret_def elim!: that)

lemma login_handler_Inr:
  assumes "login_handler D b g = (Inr r, g')"
  obtains g2 resp where
    "call D (Login \<lparr>rq_authorization = None, rq_message =
       \<lparr>lrq_email = lb_email b, lrq_password = lb_password b\<rparr>\<rparr>) g = (Inr (LoggedIn resp), g2)"
    "start_session D resp g2 = (Inr r, g')"
proof -
  obtain a g2 where a: "call D (Login \<lparr>rq_authorization = None, rq_message =
       \<lparr>lrq_email = lb_email b, lrq_password = lb_password b\<rparr>\<rparr>) g = (Inr a, g2)"
    "(case a of LoggedIn resp \<Rightarrow> start_session D resp | _ \<Rightarrow> throw unexpected) g2 = (Inr r, g')"
    using assms by (auto simp: login_handler_def andThen_Inr_iff)
  with that show thesis by (cases a) (auto simp: throw_def)
qed

lemma call_Inr:
  assumes "call D rq g = (Inr resp, g')"
  obtains g1 where "rpc D rq g1 = (Inr resp, g')"
    "\<exists>c. identity_client (dp_genv D) g = (Inr c, g1)"
  using assms by (auto simp: call_def andThen_Inr_iff mapErr_Inr_iff)

lemma identity_client_keeps:
  "gw_sessions (snd (identity_client G g)) = gw_sessions g \<and>
   gw_identity (snd (identity_client G g)) = gw_identity g"
  by (simp add: identity_client_def load_created_seq_def andThen_def gask_def Let_def lock_channel_def
      connect_channel_def store_channel_def ret_def)

lemma serve_login_Inr:
  "serve L V S (Login rq) w = (Inr resp, w') \<Longrightarrow>
     \<exists>res. login L V (lrq_email (rq_message rq)) (lrq_password (rq_message rq)) (is_kek S) w = (Inr res, w') \<and>
       resp = LoggedIn \<lparr>lrs_access_token = lr_access_token res, lrs_refresh_token = lr_refresh_token res,
         lrs_id_token = lr_id_token res, lrs_expires_at = Some (proto_timestamp_of (lr_expires_at res))\<rparr>"
  by (auto simp: handle_login_def Let_def andThen_Inr_iff mapErr_Inr_iff ret_def)

lemma jwt_visible:
  "base64_ok B \<Longrightarrow> sign_jwt B E J rnd alg kid cl kp = Inr t \<Longrightarrow> visible (jwt_token t)"
  by (auto simp: sign_jwt_def Let_def b64url_visible)

lemma decode_sub_signed:
  assumes "libs_ok L" and "http_ok (l_json L) H"
    and "sign_jwt (l_b64 L) (l_ecdsa L) (l_json L) rnd alg kid cl kp = Inr t"
    and "cl_sub cl = Some (uuid_to_string (l_uuid L) u)"
  shows "decode_sub_from_jwt L H (jwt_token t) = Inr u"
proof -
  note L = libs_okD [OF assms(1)]
  from assms(3) obtain hj cj sg where c: "claims_to_vec (l_json L) cl = Some cj"
    and t: "jwt_token t = b64url_encode (l_b64 L) hj @ CHR ''.'' # b64url_encode (l_b64 L) cj @ CHR ''.'' # b64url_encode (l_b64 L) sg"
    by (auto simp: sign_jwt_def Let_def)
  have "split_on CHR ''.'' (jwt_token t) =
      [b64url_encode (l_b64 L) hj, b64url_encode (l_b64 L) cj, b64url_encode (l_b64 L) sg]"
    unfolding split_on_three_iff t using b64url_encode_no_special(1) [OF L(1)] by simp
  then show ?thesis
    using c assms(4) http_okD(3) [OF assms(2)] uuid_parse_to_string [OF L(2)]
    by (simp add: decode_sub_from_jwt_def index_def b64url_decode_encode [OF L(1)])
qed

lemma access_claims_sub: "cl_sub (access_claims L u now j) = Some (uuid_to_string (l_uuid L) (usr_id u))"
  by (simp add: access_claims_def)

lemma issued_token_decodes:
  assumes "libs_ok L" and "http_ok (l_json L) H" and "issued L u k now res"
  shows "visible (lr_access_token res) \<and> decode_sub_from_jwt L H (lr_access_token res) = Inr (usr_id u)"
proof -
  from assms(3) obtain rnd j at where at:
    "sign_jwt (l_b64 L) (l_ecdsa L) (l_json L) rnd (ask_algorithm k) (ask_kid k) (access_claims L u now j)
       (ask_key_pair k) = Inr at" "lr_access_token res = jwt_token at"
    by (auto simp: issued_def)
  with decode_sub_signed [OF assms(1,2) at(1) access_claims_sub] jwt_visible [OF libs_okD(1) [OF assms(1)] at(1)]
  show ?thesis by simp
qed

lemma start_session_calm:
  assumes "gcalm (dp_genv D)"
    and "decode_sub_from_jwt (dp_libs D) (dp_http D) (lrs_access_token resp) = Inr uid"
    and "lrs_expires_at resp = Some ts"
    and "hl_from_timestamp (dp_http D) (ts_seconds ts) (nanos_u32 (ts_nanos ts)) = Some ex"
    and "ge_rand (dp_genv D) (gw_tick g) = Some raw"
  shows "\<exists>r g'. start_session D resp g = (Inr r, g')"
  by (simp add: start_session_def andThen_Inr_iff pureR_Inr_iff mapErr_Inr_iff create_session_Inr_iff
      ret_def assms gcalmD [OF assms(1)] generate_session_token_def Let_def)

section \<open>Requests with a session\<close>

lemma auth_session_found:
  assumes "gcalm G" and "base64_ok (l_b64 L)"
    and "extract_session_cookie H hs = Inr tok"
    and "generate_session_token (l_b64 L) (l_sha256 L) rnd = Inr (tok, h)"
    and "cql_select h (ge_scylla_now G (gw_tick g)) (gw_sessions g) = Some s"
  shows "auth_session L H G hs g = (Inr s, g\<lparr>gw_tick := Suc (gw_tick g)\<rparr>)"
  using session_token.hash_generate [OF assms(2,4)] assms(3,5)
  by (simp add: auth_session_Inr_iff get_session_Inr_iff gcalmD [OF assms(1)])

lemma with_auth_visible:
  "http_ok J H \<Longrightarrow> visible (ss_access_token s) \<Longrightarrow>
     with_auth H s m = Inr \<lparr>rq_authorization = Some (Some (''Bearer '' @ ss_access_token s)), rq_message = m\<rparr>"
  using http_okD(2) [of J H "''Bearer '' @ ss_access_token s"] by (simp add: with_auth_def)

lemma user_info_calm:
  assumes G: "gcalm (dp_genv D)" and V: "calm (dp_env D)" and I: "inv (dp_libs D) (w_db (gw_identity g))"
    and H: "http_ok (l_json (dp_libs D)) (dp_http D)" and vis: "visible (ss_access_token s)"
    and u: "u \<in> set (users (w_db (gw_identity g)))" "live u"
    and auth: "\<And>rq :: unit request. extract_bearer_token rq = Inr (ss_access_token s) \<Longrightarrow>
      authenticate (dp_libs D) (dp_env D) rq (dp_reader (is_db (dp_service D))) (gw_identity g) =
        (Inr (u_id u), (gw_identity g)\<lparr>w_tick := w_tick (gw_identity g) + 3\<rparr>)"
  shows "\<exists>g'. user_info_handler D s g = (Inr (plain 200 (User_Info_Json (profile_of (dp_libs D) u))), g')"
proof -
  let ?rq = "\<lparr>rq_authorization = Some (Some (''Bearer '' @ ss_access_token s)), rq_message = ()\<rparr>"
  obtain c g1 where c: "identity_client (dp_genv D) g = (Inr c, g1)" "gw_identity g1 = gw_identity g"
    using identity_client_calm [OF G] by blast
  have "extract_bearer_token ?rq = Inr (ss_access_token s)" by (simp add: bearer_iff)
  from user_info_served [OF V I u auth [OF this]] obtain resp w' where r:
    "serve (dp_libs D) (dp_env D) (dp_service D) (UserInfo ?rq) (gw_identity g) = (Inr (UserInfoIs resp), w')"
    "uir_sub resp = uuid_to_string (l_uuid (dp_libs D)) (u_id u)"
    "uir_name resp = u_given_name u @ '' '' @ u_family_name u" "uir_given_name resp = u_given_name u"
    "uir_family_name resp = u_family_name u" "uir_username resp = u_username u"
    "uir_email resp = u_email u" "uir_email_verified resp = u_email_verified u"
    by blast
  have "rpc D (UserInfo ?rq) g1 = (Inr (UserInfoIs resp), g1\<lparr>gw_tick := Suc (gw_tick g1), gw_identity := w'\<rparr>)"
    by (rule rpc_calm [OF G]) (simp only: c(2) r(1))
  then show ?thesis
    using c(1) r(2-)
    by (simp add: with_auth_visible [OF H vis] user_info_handler_def andThen_def mapErr_def pureX_def ret_def profile_of_def)
qed

section \<open>Dispatch\<close>

lemma find_route_user_info: "find_route True ''/api/v1/userinfo'' = Some (GET, Ep_User_Info)"
  by (simp add: find_route_def routes_def)

lemma router_Inr:
  assumes "find_route b (hr_path rq) = Some (m, ep)" and "hr_method rq = m" and "m \<noteq> HEAD"
    and "run_endpoint D B ep rq g = (Inr r, g')"
  shows "router D B b rq g = (Inr (fold override_header security_headers r), g')"
  using assms by (simp add: router_def dispatch_def method_allowed_def andThen_def respond_def ret_def)

lemma override_headers_keep [simp]:
  "hp_status (fold override_header hs r) = hp_status r"
  "hp_body (fold override_header hs r) = hp_body r"
  by (induction hs arbitrary: r) (simp_all add: override_header_def)

section \<open>Overriding headers\<close>

lemma override_headers:
  "hp_headers (override_header h r) = filter (\<lambda>(name, _). name \<noteq> fst h) (hp_headers r) @ [h]"
  by (simp add: override_header_def)

lemma filter_other_name:
  "fst h \<noteq> n \<Longrightarrow> filter (\<lambda>x. fst x = n) (filter (\<lambda>(name, _). name \<noteq> fst h) xs) =
     filter (\<lambda>x. fst x = n) xs"
  by (induction xs) auto

lemma filter_same_name:
  "filter (\<lambda>x. fst x = n) (filter (\<lambda>(name, _). name \<noteq> n) xs) = []"
  by (induction xs) auto

lemma override_untouched:
  "n \<notin> fst ` set hs \<Longrightarrow> filter (\<lambda>h. fst h = n) (hp_headers (fold override_header hs r)) =
     filter (\<lambda>h. fst h = n) (hp_headers r)"
proof (induction hs arbitrary: r)
  case (Cons h hs)
  from Cons.prems have "fst h \<noteq> n" and "n \<notin> fst ` set hs" by auto
  then show ?case by (simp add: Cons.IH override_headers filter_other_name del: filter_filter)
qed simp

lemma override_present:
  "distinct (map fst hs) \<Longrightarrow> h \<in> set hs \<Longrightarrow>
     filter (\<lambda>x. fst x = fst h) (hp_headers (fold override_header hs r)) = [h]"
proof (induction hs arbitrary: r)
  case (Cons k hs)
  show ?case
  proof (cases "h = k")
    case True
    have "fst k \<notin> fst ` set hs" using Cons.prems(1) by simp
    from override_untouched [OF this] show ?thesis
      by (simp add: True override_headers filter_same_name del: filter_filter)
  next
    case False
    then show ?thesis using Cons by simp
  qed
qed simp

end
