(* ===== verification/Account_Laws.thy ===== *)
theory Account_Laws
  imports Account Login_Laws
begin

text \<open>
  What a password or profile change does to the database, and the bootstrap of the signing-key
  store.
\<close>

section \<open>Users by id\<close>

lemma get_user_by_id_Inr:
  assumes "env_keeps (db_inv low) V" and "db_inv low (w_db w)"
    and "get_user_by_id V (Conn Primary) i w = (Inr r, w')"
  shows "w_db w' = e_others V (w_tick w) (w_db w)" and "db_inv low (w_db w')"
    and "\<And>usr. r = Some usr \<Longrightarrow> \<exists>u \<in> set (users (w_db w')). live u \<and> u_id u = i \<and> usr = user_of u"
    and "r = None \<Longrightarrow> \<forall>u \<in> set (users (w_db w')). live u \<longrightarrow> u_id u \<noteq> i"
proof -
  let ?d = "e_others V (w_tick w) (w_db w)"
  have I: "db_inv low ?d" using assms(1,2) by (simp add: env_keeps_def)
  from assms(3) obtain row w1 where
      ex: "exec V (Conn Primary) (sql_user_by_id i) w = (Inr row, w1)" 
    and eu: "(expect_user row w1 :: (pg_error exit + user option) \<times> world) = (Inr r, w')"
    by (auto simp: get_user_by_id_def andThen_Inr_iff)
  from ex have w1: "w1 = \<lparr>w_db = ?d, w_tick = Suc (w_tick w)\<rparr>"
    and row: "case row of None \<Rightarrow> \<forall>u \<in> set (users ?d). live u \<longrightarrow> u_id u \<noteq> i
      | Some u \<Rightarrow> u \<in> set (users ?d) \<and> live u \<and> u_id u = i"
    by (auto simp: exec_Inr_iff sql_user_by_id_iff [OF I])
  from row have "\<forall>r. row = Some r \<longrightarrow> valid_status (u_status r)"
    using db_inv_statuses [OF I] by auto
  with eu have r: "r = map_option user_of row" and w': "w' = w1"
    by (simp_all add: expect_user_valid)
  show "w_db w' = e_others V (w_tick w) (w_db w)" "db_inv low (w_db w')" using w' w1 I by simp_all
  show "\<And>usr. r = Some usr \<Longrightarrow> \<exists>u \<in> set (users (w_db w')). live u \<and> u_id u = i \<and> usr = user_of u"
    using r row w' w1 by (cases row) auto
  show "r = None \<Longrightarrow> \<forall>u \<in> set (users (w_db w')). live u \<longrightarrow> u_id u \<noteq> i"
    using r row w' w1 by (cases row) auto
qed

section \<open>Password change\<close>

definition set_password :: "uuid \<Rightarrow> string \<Rightarrow> instant \<Rightarrow> db \<Rightarrow> db" where
  "set_password i h now d = d\<lparr>users := map (\<lambda>u. if u_id u = i \<and> live u
     then u\<lparr>u_password_hash := h, u_updated_at := now\<rparr> else u) (users d)\<rparr>"

lemma sql_update_password_Inr_iff:
  assumes "users_violation low (users d) = None"
  shows "sql_update_password low i h now d = Inr (n, d') \<longleftrightarrow>
    n = affected (\<lambda>u. u_id u = i \<and> live u) (users d) \<and> d' = set_password i h now d"
proof -
  have "users_violation low (update_where (\<lambda>u. u_id u = i \<and> live u)
      (\<lambda>u. u\<lparr>u_password_hash := h, u_updated_at := now\<rparr>) (users d)) = None"
    using assms by (subst users_violation_update) auto
  then show ?thesis
    by (auto simp: sql_update_password_def Let_def update_where_def set_password_def)
qed

lemma verify_password_blocking_Inr_iff:
  "verify_password_blocking L V f e pw h w = (Inr x, w') \<longleftrightarrow>
     e_join V (w_tick w) \<and> verify_password (l_password L) (l_feature L) pw h = Inr () \<and>
     w' = w\<lparr>w_tick := Suc (w_tick w)\<rparr>"
  by (auto simp: verify_password_blocking_def io_Inr_iff)

text \<open>\<open>d1\<close> is the database the user was read from, \<open>d2\<close> the one the change was applied to.\<close>

lemma update_password_Inr:
  assumes "env_keeps (inv L) V" and "inv L (w_db w)"
    and "update_password L V i cur new w = (Inr (), w')"
  shows "\<exists>t1 t2 d1 d2 u h salt oid payload tr sp at1 at2 now.
    d1 = e_others V t1 (w_db w) \<and> d2 = e_others V t2 d1 \<and>
    8 \<le> length new \<and> length new \<le> 128 \<and>
    u \<in> set (users d1) \<and> live u \<and> u_id u = i \<and>
    verify_password (l_password L) (l_feature L) cur (u_password_hash u) = Inr () \<and>
    hash_password (l_password L) (l_feature L) salt new = Inr h \<and>
    payload = l_encode L (password_changed_event L oid (user_of u) tr sp at1 at2) \<and>
    w_db w' = add_rows [] [] [new_event oid i payload tr sp now] (set_password i h now d2)"
proof -
  from assms(3) obtain w1 usr w2 w3 h salt oid tr sp at1 at2 where
      new: "8 \<le> length new" "length new \<le> 128"
    and usr: "get_user_by_id V (Conn Primary) i (w\<lparr>w_tick := Suc (w_tick w)\<rparr>) = (Inr (Some usr), w1)"
    and pw: "verify_password (l_password L) (l_feature L) cur (usr_password_hash usr) = Inr ()"
    and h: "hash_password (l_password L) (l_feature L) salt new = Inr h"
    and tx: "transaction V UPW_Db (\<lambda>tx.
       andThen (mapErr UPW_Db (exec V tx (sql_update_password (l_lower L) i h))) (\<lambda>_.
       mapErr UPW_Outbox (insert_event V tx oid ''user'' i ''auth_email''
         (l_encode L (password_changed_event L oid usr tr sp at1 at2)) tr sp))) w2 = (Inr (), w')"
    and w2: "w_db w2 = w_db w1"
    unfolding update_password_def
    by (auto simp: andThen_Inr_iff pureR_Inr_iff mapErr_Inr_iff pool_get_Inr_iff ask_Inr_iff
        verify_password_blocking_Inr_iff hash_password_blocking_Inr_iff extract_trace_context_Inr_iff
        validate_password_iff Let_def)
  have "inv L (w_db (w\<lparr>w_tick := Suc (w_tick w)\<rparr>))" using assms(2) by simp
  note found = get_user_by_id_Inr [OF assms(1) this usr]
  from found(3) [OF refl] obtain u where u: "u \<in> set (users (w_db w1))" "live u" "u_id u = i" "usr = user_of u"
    by blast
  let ?d2 = "e_others V (w_tick w2) (w_db w1)"
  have "inv L ?d2" using assms(1) found(2) by (simp add: env_keeps_def)
  then have uv: "users_violation (l_lower L) (users ?d2) = None" by (simp add: db_inv_def)
  from tx obtain now where w': "w_db w' = add_rows [] [] [new_event oid i
      (l_encode L (password_changed_event L oid (user_of u) tr sp at1 at2)) tr sp now] (set_password i h now ?d2)"
    unfolding transaction_Inr_iff w2 u(4)
    by (auto simp: andThen_Inr_iff mapErr_Inr_iff exec_Inr_iff insert_event_tx_Inr_iff
        sql_update_password_Inr_iff [OF uv])
  have d1: "w_db w1 = e_others V (Suc (w_tick w)) (w_db w)" using found(1) by simp
  show ?thesis
    by (intro exI conjI) (rule d1, rule refl, rule new(1), rule new(2), rule u(1), rule u(2), rule u(3),
      rule pw [unfolded u(4) user_of_simps], rule h, rule refl, rule w')
qed

section \<open>Profile change\<close>

definition set_profile :: "uuid \<Rightarrow> string option \<Rightarrow> string option \<Rightarrow> string option \<Rightarrow> instant \<Rightarrow> db \<Rightarrow> db" where
  "set_profile i gn fn un now d = d\<lparr>users := map (\<lambda>u. if u_id u = i \<and> live u
     then u\<lparr>u_given_name := coalesce gn (u_given_name u), u_family_name := coalesce fn (u_family_name u),
            u_username := coalesce un (u_username u), u_updated_at := now\<rparr> else u) (users d)\<rparr>"

lemma update_profile_db_error_iff:
  "update_profile_db_error e = UPR_UsernameTaken \<longleftrightarrow> e = Constraint ''idx_users_username''"
  by (cases e) auto

lemma sql_update_profile_eq:
  "sql_update_profile low i gn fn un now d =
     (case users_violation low (users (set_profile i gn fn un now d)) of
        Some c \<Rightarrow> Inl (Constraint c)
      | None \<Rightarrow> Inr (affected (\<lambda>u. u_id u = i \<and> live u) (users d), set_profile i gn fn un now d))"
  by (simp add: sql_update_profile_def Let_def write_checked_def set_profile_def update_where_def
      split: option.splits)

lemma update_profile_calm:
  assumes "calm V" and "gn \<noteq> None \<or> fn \<noteq> None \<or> un \<noteq> None"
    and "\<forall>u. un = Some u \<longrightarrow> validate_username u = Inr ()"
  shows "update_profile L V i gn fn un w =
    (let d' = set_profile i gn fn un (e_db_now V (Suc (w_tick w))) (w_db w) in
     case users_violation (l_lower L) (users d') of
       None \<Rightarrow> (Inr (), \<lparr>w_db = d', w_tick = w_tick w + 2\<rparr>)
     | Some c \<Rightarrow> (Inl (Err (if c = ''idx_users_username'' then UPR_UsernameTaken else UPR_Db (Constraint c))),
         w\<lparr>w_tick := w_tick w + 2\<rparr>))"
proof -
  have "(case un of Some u \<Rightarrow> pureR UPR_InvalidUsername (validate_username u) | None \<Rightarrow> ret ()) w = (Inr (), w)"
    using assms(3) by (auto simp: pureR_def ret_def split: option.splits)
  then show ?thesis
    using assms(2)
    by (auto simp: update_profile_def andThen_def pool_get_def ask_def ret_def mapErr_def calmD [OF assms(1)]
        calm_exec [OF assms(1)] sql_update_profile_eq Let_def split: option.splits)
qed

section \<open>Bootstrap of the signing-key store\<close>

lemma ensure_signing_key_noop:
  assumes "calm V" and "newest_active (w_db w) \<noteq> None"
  shows "ensure_signing_key L V Primary kek w = (Inr (), w\<lparr>w_tick := w_tick w + 2\<rparr>)"
proof -
  have "affected (\<lambda>k. sk_status k = ''active'') (signing_keys (w_db w)) \<noteq> 0"
    using assms(2) by (auto simp: newest_active_def affected_def)
  then show ?thesis
    by (simp add: ensure_signing_key_def andThen_def pool_get_def ask_def ret_def mapErr_def
        calmD [OF assms(1)] calm_exec [OF assms(1)] sql_count_active_keys_def world_fold)
qed

text \<open>A generated key, wrapped and stored as \<open>ensure_signing_key\<close> does, forms a well-formed row.\<close>

lemma wrapped_row_ok:
  assumes "libs_ok L" and "\<forall>n. rnd = Some n \<longrightarrow> length n = NONCE_LEN"
    and "generate_key_pair (l_b64 L) (l_ecdsa L) generated kid alg = Inr g"
    and "encrypt_private_key (l_aead L) rnd (kek_bytes kek) (gen_private_key_pkcs8 g) (as_bytes (gen_kid g)) = Inr e"
    and "jwk_to_value (l_json L) (gen_public_jwk g) = Some v" and "gen_private_key_pkcs8 g \<noteq> []"
    and "sk_kid row = gen_kid g" and "sk_algorithm row = algorithm_as_str (gen_algorithm g)"
    and "sk_encrypted_private_key row = encrypted_key_as_bytes e" and "sk_public_jwk row = v"
  shows "key_row_ok L kek row"
proof -
  note L = libs_okD [OF assms(1)]
  from assms(3) have g: "gen_kid g = kid" "gen_algorithm g = alg"
    "public_jwk_from_pkcs8 (l_b64 L) (l_ecdsa L) kid alg (gen_private_key_pkcs8 g) = Inr (gen_public_jwk g)"
    by (auto simp: generate_Inr_iff)
  from g(3) obtain kp where "key_from_pkcs8 (l_ecdsa L) (signing_algorithm alg) (gen_private_key_pkcs8 g) = Some kp"
    by (auto simp: public_jwk_Inr_iff)
  moreover have "try_r (no_panic (encrypted_key_from_bytes (encrypted_key_as_bytes e)))
      (\<lambda>w. decrypt_private_key (l_aead L) (kek_bytes kek) w (as_bytes (gen_kid g))) = Inr (gen_private_key_pkcs8 g)"
    by (rule aes_gcm.reload [OF L(3) assms(2,6,4)])
  ultimately show ?thesis
    using g assms(7-10) jwk_json [OF L(5) assms(5)] unfolding key_row_ok_def by auto
qed

lemma ensure_signing_key_creates:
  assumes "calm V" and "libs_ok L" and "\<forall>t n. e_rand V t NONCE_LEN = Some n \<longrightarrow> length n = NONCE_LEN"
    and "\<forall>t a. e_pkcs8 V t a \<noteq> Some []"
    and "newest_active (w_db w) = None" and "ensure_signing_key L V Primary kek w = (Inr (), w')"
  shows "\<exists>row. sk_status row = ''active'' \<and> key_row_ok L kek row \<and>
    w_db w' = (w_db w)\<lparr>signing_keys := signing_keys (w_db w) @ [row]\<rparr>"
proof -
  have n0: "affected (\<lambda>k. sk_status k = ''active'') (signing_keys (w_db w)) = 0"
    using assms(5) by (auto simp: newest_active_def affected_def)
  from assms(6) obtain t g kid t2 e v now where
      g: "generate_key_pair (l_b64 L) (l_ecdsa L) (e_pkcs8 V t) kid ES256 = Inr g"
    and e: "encrypt_private_key (l_aead L) (e_rand V t2 NONCE_LEN) (kek_bytes kek)
        (gen_private_key_pkcs8 g) (as_bytes (gen_kid g)) = Inr e"
    and v: "jwk_to_value (l_json L) (gen_public_jwk g) = Some v"
    and w': "w_db w' = (w_db w)\<lparr>signing_keys := signing_keys (w_db w) @ [\<lparr>sk_kid = gen_kid g,
        sk_algorithm = algorithm_as_str (gen_algorithm g),
        sk_encrypted_private_key = encrypted_key_as_bytes e, sk_public_jwk = v,
        sk_status = ''active'', sk_created_at = now\<rparr>]\<rparr>"
    unfolding ensure_signing_key_def
    by (auto simp: io_Inr_iff exec_Inr_iff sql_count_active_keys_def n0 calmD [OF assms(1)]
        sql_insert_signing_key_def Let_def)
  have "gen_private_key_pkcs8 g \<noteq> []"
    using g assms(4) by (auto simp: generate_Inr_iff)
  from wrapped_row_ok [OF assms(2) _ g e v this, of "\<lparr>sk_kid = gen_kid g,
        sk_algorithm = algorithm_as_str (gen_algorithm g),
        sk_encrypted_private_key = encrypted_key_as_bytes e, sk_public_jwk = v,
        sk_status = ''active'', sk_created_at = now\<rparr>"] assms(3) w'
  show ?thesis by (intro exI [of _ "\<lparr>sk_kid = gen_kid g,
        sk_algorithm = algorithm_as_str (gen_algorithm g),
        sk_encrypted_private_key = encrypted_key_as_bytes e, sk_public_jwk = v,
        sk_status = ''active'', sk_created_at = now\<rparr>"]) simp
qed

end
