(* ===== verification/No_Panic.thy ===== *)
theory No_Panic
  imports Identity_Service Account_Laws
begin

text \<open>
  Panics. The service can panic where a stored status cannot be parsed (\<open>expect\<close>), where stored key
  material is sliced, and where claim times are added. None of these happens in a release build on
  a database that satisfies the invariant.
\<close>

section \<open>Steps that do not panic\<close>

definition safe :: "(db \<Rightarrow> bool) \<Rightarrow> ('e, 'a) io \<Rightarrow> bool" where
  "safe I m \<longleftrightarrow> (\<forall>w r w'. I (w_db w) \<longrightarrow> m w = (r, w') \<longrightarrow> r \<noteq> Inl Panic \<and> I (w_db w'))"

named_theorems safe_intros

lemma safeI: "(\<And>w r w'. I (w_db w) \<Longrightarrow> m w = (r, w') \<Longrightarrow> r \<noteq> Inl Panic) \<Longrightarrow> io_keeps I m \<Longrightarrow> safe I m"
  by (auto simp: safe_def io_keeps_def)

lemma safeD: "safe I m \<Longrightarrow> I (w_db w) \<Longrightarrow> m w = (r, w') \<Longrightarrow> r \<noteq> Inl Panic \<and> I (w_db w')"
  by (auto simp: safe_def)

lemma safe_pure [safe_intros]:
  "safe I (ret a)" "safe I (throw e)" "safe I (pureR f r)" "safe I (ask h)"
  by (auto simp: safe_def ret_def throw_def pureR_def ask_def map_err_def split: sum.splits)

lemma map_exit_Panic: "map_exit f x = Panic \<longleftrightarrow> x = Panic"
  by (cases x) auto

lemma safe_pureX: "r \<noteq> Inl Panic \<Longrightarrow> safe I (pureX f r)"
  by (auto simp: safe_def pureX_def map_err_def map_exit_Panic split: sum.splits)

lemma safe_andThen [safe_intros]:
  assumes "safe I m" and "\<And>a. safe I (k a)"
  shows "safe I (andThen m k)"
  unfolding safe_def
proof (intro allI impI)
  fix w r w' assume I: "I (w_db w)" and m: "andThen m k w = (r, w')"
  obtain r1 w1 where r1: "m w = (r1, w1)" by (cases "m w")
  from safeD [OF assms(1) I r1] have s1: "r1 \<noteq> Inl Panic" "I (w_db w1)" by simp_all
  show "r \<noteq> Inl Panic \<and> I (w_db w')"
  proof (cases r1)
    case (Inl x)
    with m r1 s1 show ?thesis by (auto simp: andThen_def)
  next
    case (Inr a)
    with m r1 have "k a w1 = (r, w')" by (simp add: andThen_def)
    then show ?thesis by (rule safeD [OF assms(2) s1(2)])
  qed
qed

lemma safe_control [safe_intros]:
  "safe I m \<Longrightarrow> safe I n \<Longrightarrow> safe I (if b then m else n)"
  "safe I m \<Longrightarrow> (\<And>a. safe I (s a)) \<Longrightarrow> safe I (case x of None \<Rightarrow> m | Some a \<Rightarrow> s a)"
  "(\<And>a b. safe I (p a b)) \<Longrightarrow> safe I (case y of (a, b) \<Rightarrow> p a b)"
  "(\<And>a. safe I (l a)) \<Longrightarrow> (\<And>b. safe I (q b)) \<Longrightarrow> safe I (case z of Inl a \<Rightarrow> l a | Inr b \<Rightarrow> q b)"
  "(\<And>a. safe I (g a)) \<Longrightarrow> safe I (let a = c in g a)"
  by (auto split: option.split prod.split sum.split simp: Let_def)

lemma safe_mapErr [safe_intros]: "safe I m \<Longrightarrow> safe I (mapErr f m)"
  by (fastforce simp: safe_def mapErr_def map_err_def map_exit_Panic split: prod.splits sum.splits)

lemma safe_attempt [safe_intros]: "safe I m \<Longrightarrow> safe I (attempt m)"
  by (fastforce simp: safe_def attempt_def split: prod.splits sum.splits exit.splits)

lemma safe_spawn_blocking [safe_intros]: "safe I m \<Longrightarrow> safe I (spawn_blocking V e m)"
  unfolding spawn_blocking_def by (intro safe_intros)

lemma safe_pool_get [safe_intros]: "safe I (pool_get V p e)"
  unfolding pool_get_def by (intro safe_intros)

lemma exec_no_panic: "fst (exec V c s w) \<noteq> Inl Panic"
proof -
  consider "c = Conn Primary" | "c = Conn Replica" | now where "c = Tx now"
    by (cases c; cases "case c of Conn p \<Rightarrow> p | _ \<Rightarrow> Primary") auto
  then show ?thesis
    by cases (auto simp: exec.simps Let_def split: outcome.splits sum.splits prod.splits)
qed

lemma safe_exec [safe_intros]: "env_keeps I V \<Longrightarrow> sql_keeps I s \<Longrightarrow> safe I (exec V c s)"
  using exec_no_panic [of V c s] by (intro safeI keeps_exec) (metis fst_conv)

lemma safe_transaction [safe_intros]:
  assumes "env_keeps I V" and "\<And>c. safe I (body c)"
  shows "safe I (transaction V f body)"
proof (rule safeI)
  have "io_keeps I (body c)" for c using assms(2) by (auto simp: safe_def io_keeps_def)
  then show "io_keeps I (transaction V f body)" by (intro keeps_transaction assms(1))
  fix w r w' assume I: "I (w_db w)" and m: "transaction V f body w = (r, w')"
  have I0: "I (e_others V (w_tick w) (w_db w))" using assms(1) I by (simp add: env_keeps_def)
  show "r \<noteq> Inl Panic"
    using m safeD [OF assms(2), of "\<lparr>w_db = e_others V (w_tick w) (w_db w), w_tick = Suc (w_tick w)\<rparr>"] I0
    by (auto simp: transaction_def Let_def split: outcome.splits prod.splits sum.splits)
qed

section \<open>The operations\<close>

lemma query_opt_in: "query_opt rows d = Inr (Some r, d') \<Longrightarrow> r \<in> set rows \<and> d' = d"
  by (auto simp: query_opt_def split: list.splits)

text \<open>A user statement that returns a stored row returns one whose status can be parsed.\<close>

lemma safe_user_lookup:
  assumes "env_keeps (db_inv low) V" and "sql_keeps (db_inv low) s"
    and "\<And>now d r d'. s now d = Inr (Some r, d') \<Longrightarrow> r \<in> set (users d)"
  shows "safe (db_inv low) (andThen (exec V c s) expect_user)"
proof (rule safeI)
  show "io_keeps (db_inv low) (andThen (exec V c s) expect_user)"
    using assms(1,2) by (intro db_keeps)
  fix w r w' assume I: "db_inv low (w_db w)" and m: "andThen (exec V c s) expect_user w = (r, w')"
  obtain r1 w1 where e: "exec V c s w = (r1, w1)" by (cases "exec V c s w")
  show "r \<noteq> Inl Panic"
  proof (cases r1)
    case (Inl x)
    then show ?thesis using exec_no_panic [of V c s w] e m by (auto simp: andThen_def)
  next
    case (Inr row)
    have "valid_status (u_status u)" if "row = Some u" for u
    proof -
      have "exec V c s w = (Inr (Some u), w1)" using e Inr that by simp
      then obtain now d d' where d: "s now d = Inr (Some u, d')" "db_inv low d"
        using I assms(1) by (cases c; cases "case c of Conn p \<Rightarrow> p | _ \<Rightarrow> Primary")
          (auto simp: exec_Inr_iff env_keeps_def)
      then show ?thesis using assms(3) db_inv_statuses by blast
    qed
    then have "\<forall>r. row = Some r \<longrightarrow> valid_status (u_status r)" by blast
    then show ?thesis using e Inr m by (auto simp: andThen_def expect_user_valid)
  qed
qed

lemma safe_get_user [safe_intros]:
  assumes "env_keeps (db_inv low) V"
  shows "safe (db_inv low) (get_user_by_id V c i)"
    and "l_lower L = low \<Longrightarrow> safe (db_inv low) (get_user_by_email L V c em)"
  unfolding get_user_by_id_def get_user_by_email_def
  by (intro safe_user_lookup assms db_keeps;
      auto simp: sql_user_by_id_def sql_user_by_email_def dest!: query_opt_in)+

lemma load_signing_key_no_panic: "load_signing_key L kek row \<noteq> Inl Panic"
  using aes_gcm.reload_no_panic [of "sk_encrypted_private_key row" "l_aead L" "kek_bytes kek" "as_bytes (sk_kid row)"]
  by (auto simp: load_signing_key_def Let_def try_r_Inl_iff)

lemma safe_keys [safe_intros]:
  assumes "env_keeps (inv L) V"
  shows "safe (inv L) (get_active_signing_key L V p k)"
    and "safe (inv L) (list_public_jwks L V p)" and "safe (inv L) (get_jwks L V p)"
  unfolding get_active_signing_key_def get_jwks_def list_public_jwks_def
  by (intro safe_intros safe_pureX load_signing_key_no_panic db_keeps assms)+

lemma safe_parts [safe_intros]:
  assumes "env_keeps (inv L) V"
  shows "safe (inv L) (insert_token V c i u h e)"
    and "safe (inv L) (insert_event V c j at ai ''auth_email'' p tr sp)"
    and "safe (inv L) (extract_trace_context V)"
    and "safe (inv L) (hash_password_blocking L V f pw)"
    and "safe (inv L) (verify_password_blocking L V g e' pw ph)"
  unfolding insert_token_def insert_event_def extract_trace_context_def hash_password_blocking_def
    verify_password_blocking_def
  by (intro safe_intros db_keeps assms)+

lemma safe_operations [safe_intros]:
  assumes "env_keeps (inv L) V"
  shows "safe (inv L) (sign_up L V un em gn fn pw url)"
    and "safe (inv L) (verify_email L V tok)"
    and "safe (inv L) (resend_verification L V em url)"
    and "safe (inv L) (login L V em pass k)"
    and "safe (inv L) (user_info V p i)"
    and "safe (inv L) (update_password L V i cur new)"
    and "safe (inv L) (update_profile L V i gn' fn' un')"
  unfolding sign_up_def sign_up_prepare_def insert_user_def verify_email_def get_token_by_hash_def
    consume_token_def mark_email_verified_def resend_verification_def resend_to_user_def
    resend_prepare_def count_recent_tokens_def login_def issue_tokens_def insert_refresh_token_def
    user_info_def update_password_def update_profile_def
  by (intro safe_intros db_keeps assms refl valid_status_as_str)+

lemma safe_authenticate [safe_intros]:
  assumes "env_keeps (inv L) V" and "\<not> l_checks L"
  shows "safe (inv L) (authenticate L V rq p)"
  unfolding authenticate_def using assms(2)
  by (intro safe_intros safe_pureX assms(1)) (simp add: release_verify_no_panic)

lemma safe_serve:
  assumes "env_keeps (inv L) V" and "\<not> l_checks L"
  shows "safe (inv L) (serve L V S rq)"
  by (cases rq; simp only: serve.simps handle_sign_up_def handle_login_def handle_user_info_def
      handle_verify_email_def handle_resend_verification_def handle_get_jwks_def
      handle_update_profile_def handle_update_password_def Let_def; intro safe_intros assms)

end
