(* ===== verification/Identity_Props.thy ===== *)
theory Identity_Props
  imports No_Panic Sample_Identity
begin

text \<open>The properties of the identity service, with their witnesses on the sample deployment.\<close>

section \<open>Login and authentication\<close>

text \<open>C2. The access token of a successful login authenticates its user: in an environment without
  faults, presented as a bearer token between thirty seconds before its issue and thirty seconds
  after its expiry while the stored keys are unchanged, it makes \<open>authenticate\<close> return the id of
  the user that the email belongs to.\<close>
theorem login_then_authenticate:
  assumes "libs_ok L" and "calm V" and "inv L (w_db w)"
    and "\<forall>r \<in> set (signing_keys (w_db w)). key_row_ok L kek r"
    and "login L V em pw kek w = (Inr res, w1)"
    and "signing_keys (w_db w2) = signing_keys (w_db w1)"
    and "extract_bearer_token rq = Inr (lr_access_token res)"
    and "e_unix_time V (w_tick w2 + 2) = Some n"
    and "900 \<le> timestamp (lr_expires_at res)" and "timestamp (lr_expires_at res) < 2 ^ 63"
    and "timestamp (lr_expires_at res) - 930 \<le> int (unat n)"
    and "int (unat n) \<le> timestamp (lr_expires_at res) + 30"
  shows "\<exists>u. email_owner (l_lower L) (w_db w) em = Some u \<and>
    authenticate L V rq p w2 = (Inr (u_id u), w2\<lparr>w_tick := w_tick w2 + 3\<rparr>)"
  by (rule login_authenticates [OF assms])

lemma sample_key_row_ok: "key_row_ok login_libs sample_kek sample_key_row"
proof -
  have "jwk_from_value login_json [] = Some \<lparr>jwk_kty = ''EC'', jwk_use = ''sig'', jwk_kid = ''k1'',
      jwk_alg = ''ES256'', jwk_crv = ''P-256'', jwk_x = hex_encode (replicate 32 7), jwk_y = hex_encode (replicate 32 7)\<rparr>"
    by (simp add: login_json_def byte_json_def table_json_def table_from_def)
  moreover have "public_jwk_from_pkcs8 hex64 sample_ecdsa ''k1'' ES256 sample_der = Inr \<lparr>jwk_kty = ''EC'',
      jwk_use = ''sig'', jwk_kid = ''k1'', jwk_alg = ''ES256'', jwk_crv = ''P-256'',
      jwk_x = hex_encode (replicate 32 7), jwk_y = hex_encode (replicate 32 7)\<rparr>"
    by code_simp
  moreover obtain der where "try_r (no_panic (encrypted_key_from_bytes (sk_encrypted_private_key sample_key_row)))
      (\<lambda>w. decrypt_private_key sample_aead (kek_bytes sample_kek) w (as_bytes (sk_kid sample_key_row))) = Inr der"
    "key_from_pkcs8 sample_ecdsa (signing_algorithm ES256) der = Some sample_der"
    using sample_key_loads by (auto simp: load_signing_key_iff)
  moreover from this(2) have "der = sample_der"
    by (simp add: sample_ecdsa_def Let_def split: if_splits)
  ultimately show ?thesis
    unfolding key_row_ok_def
    by (intro exI [of _ ES256] exI [of _ sample_der]) (auto simp: sample_key_row_def)
qed

lemma sample_inv: "inv login_libs (w_db sample_world)"
  by (simp add: sample_db_inv)

lemma sample_login_expires:
  "login login_libs sample_env em pw kek w = (Inr res, w') \<Longrightarrow> lr_expires_at res = minutes 10 + seconds 900"
  by (auto simp: login_def io_Inr_iff issue_tokens_def Let_def ACCESS_TOKEN_LIFETIME_SECS_def
      split: if_splits)

theorem login_then_authenticate_witness:
  "\<exists>res w1. login login_libs sample_env ''a@b.c'' ''password'' sample_kek sample_world = (Inr res, w1) \<and>
     authenticate login_libs sample_env
       \<lparr>rq_authorization = Some (Some (''Bearer '' @ lr_access_token res)), rq_message = ()\<rparr> Primary w1
       = (Inr 1, w1\<lparr>w_tick := w_tick w1 + 3\<rparr>)"
proof -
  obtain res w1 where l: "login login_libs sample_env ''a@b.c'' ''password'' sample_kek sample_world = (Inr res, w1)"
    using sample_login by blast
  then have "lr_expires_at res = minutes 10 + seconds 900" by (rule sample_login_expires)
  then have e: "timestamp (lr_expires_at res) = 1500"
    by (simp add: timestamp_def minutes_def seconds_def one_second_def)
  have "\<exists>u. email_owner (l_lower login_libs) (w_db sample_world) ''a@b.c'' = Some u \<and>
    authenticate login_libs sample_env
       \<lparr>rq_authorization = Some (Some (''Bearer '' @ lr_access_token res)), rq_message = ()\<rparr> Primary w1
       = (Inr (u_id u), w1\<lparr>w_tick := w_tick w1 + 3\<rparr>)"
    by (rule login_then_authenticate [OF sample_libs_ok sample_env_calm _ _ l refl, where n = 700])
      (simp_all add: sample_db_inv bearer_iff e, simp add: sample_db_def sample_key_row_ok)
  with l show ?thesis by (auto simp: sample_owner)
qed

text \<open>C3. Login admits only active users with the right password: whatever other clients do and
  whichever statements fail, tokens are returned only if, in the database as it was read, the email
  belongs to a live user whose status is active and whose stored hash the password verifies
  against; the only lasting effect is a refresh-token row for that user that stores the digest of
  the returned token and expires after seven days.\<close>
theorem login_sound:
  assumes "env_keeps (inv L) V" and "inv L (w_db w)" and "login L V em pw kek w = (Inr res, w')"
  shows "\<exists>t1 t2 t3 u now h i. let d1 = e_others V t1 (w_db w); d3 = e_others V t3 (e_others V t2 d1) in
    u \<in> set (users d1) \<and> live u \<and> l_lower L (u_email u) = l_lower L em \<and>
    u_status u = user_status_as_str Active \<and>
    verify_password (l_password L) (l_feature L) pw (u_password_hash u) = Inr () \<and>
    (\<exists>rnd. generate_verification_token (l_b64 L) (l_sha256 L) rnd = Inr (lr_refresh_token res, h)) \<and>
    lr_expires_at res = now + seconds 900 \<and>
    w_db w' = d3\<lparr>refresh_tokens := refresh_tokens d3 @ [new_refresh i (u_id u) h (now + days 7) (e_db_now V t3)]\<rparr>"
proof -
  from login_Inr [OF assms] obtain t1 t2 t u row k now rnd h i where *:
    "email_owner (l_lower L) (e_others V t1 (w_db w)) em = Some u"
    "verify_password (l_password L) (l_feature L) pw (u_password_hash u) = Inr ()"
    "u_status u = user_status_as_str Active" "issued L (user_of u) k now res"
    "generate_verification_token (l_b64 L) (l_sha256 L) rnd = Inr (lr_refresh_token res, h)"
    "w_db w' = (e_others V t (e_others V t2 (e_others V t1 (w_db w))))\<lparr>refresh_tokens :=
       refresh_tokens (e_others V t (e_others V t2 (e_others V t1 (w_db w)))) @
       [new_refresh i (u_id u) h (now + days 7) (e_db_now V t)]\<rparr>"
    by blast
  moreover have "lr_expires_at res = now + seconds 900" using *(4) by (auto simp: issued_def)
  ultimately show ?thesis
    unfolding Let_def using email_owner_Some [OF *(1)] by blast
qed

theorem login_sound_witness:
  "\<exists>res w'. login login_libs sample_env ''a@b.c'' ''password'' sample_kek sample_world = (Inr res, w') \<and>
     length (refresh_tokens (w_db w')) = 1"
proof -
  obtain res w1 where l: "login login_libs sample_env ''a@b.c'' ''password'' sample_kek sample_world = (Inr res, w1)"
    using sample_login by blast
  have "\<exists>r. refresh_tokens (w_db w1) = [r]"
    using login_sound [OF calm_keeps [OF sample_env_calm] sample_inv l]
    by (auto simp: Let_def sample_db_def)
  with l show ?thesis by auto
qed

text \<open>C4. Authentication is sound: it returns a user id only for a bearer token that a key of the
  \<open>signing_keys\<close> table which is not revoked vouches for, with claims inside their validity window
  (with thirty seconds of leeway), this service as issuer, the API as audience, and that id as subject. The table is as the
  statement of this call (its second effect) reads it, and the window is that of the time which
  the system clock gives to this call, after that read (its third effect). No assumption on the
  environment is needed.\<close>
theorem authenticate_sound:
  "authenticate L V rq p w = (Inr uid, w') \<longrightarrow>
     (\<exists>token row k now c sub.
        rq_authorization rq = Some (Some (''Bearer '' @ token)) \<and>
        row \<in> set (signing_keys (case p of Primary \<Rightarrow> e_others V (Suc (w_tick w)) (w_db w)
          | Replica \<Rightarrow> e_replica V (Suc (w_tick w)) (w_db w))) \<and>
        sk_status row \<noteq> ''revoked'' \<and> jwk_from_value (l_json L) (sk_public_jwk row) = Some k \<and>
        carries (l_b64 L) (l_ecdsa L) (l_json L) [ES256, ES384] k token c \<and>
        e_unix_time V (w_tick w + 2) = Some now \<and>
        (\<forall>e. cl_exp c = Some e \<longrightarrow> unat now \<le> unat e + 30) \<and>
        (\<forall>n. cl_nbf c = Some n \<longrightarrow> unat n \<le> unat now + 30) \<and>
        cl_iss c = Some ''https://home.ryanseipp.com'' \<and>
        (\<exists>aud. cl_aud c = Some aud \<and> audience_contains aud ''https://api.home.ryanseipp.com'') \<and>
        cl_sub c = Some sub \<and> uuid_parse (l_uuid L) sub = Some uid)"
proof
  assume "authenticate L V rq p w = (Inr uid, w')"
  then obtain token jwks w1 k now c sub and header :: jwt_header where
      rq: "extract_bearer_token rq = Inr token"
    and jwks: "list_public_jwks L V p w = (Inr jwks, w1)"
    and k: "List.find (\<lambda>k. jwk_kid k = hdr_kid header) jwks = Some k"
    and now: "e_unix_time V (w_tick w1) = Some now"
    and v: "verify_jwt (l_checks L) (l_b64 L) (l_ecdsa L) (l_json L) token k (auth_options now) = Inr c"
    and sub: "cl_sub c = Some sub" "uuid_parse (l_uuid L) sub = Some uid"
    unfolding authenticate_Inr_iff by (elim exE conjE) (rule that)
  let ?d = "case p of Primary \<Rightarrow> e_others V (Suc (w_tick w)) (w_db w) | Replica \<Rightarrow> e_replica V (Suc (w_tick w)) (w_db w)"
  from jwks have m: "map (\<lambda>r. jwk_from_value (l_json L) (sk_public_jwk r))
      (filter (\<lambda>r. sk_status r \<noteq> ''revoked'') (signing_keys ?d)) = map Some jwks"
    and t: "w_tick w1 = w_tick w + 2"
    by (auto simp: list_public_jwks_Inr_iff Let_def)
  have "Some k \<in> set (map Some jwks)" using k by (auto simp: find_Some_iff)
  then obtain row where row: "row \<in> set (signing_keys ?d)" "sk_status row \<noteq> ''revoked''"
      "jwk_from_value (l_json L) (sk_public_jwk row) = Some k"
    unfolding m [symmetric] by auto
  have "carries (l_b64 L) (l_ecdsa L) (l_json L) [ES256, ES384] k token c"
    "in_window (auth_options now) c" "cl_iss c = Some ''https://home.ryanseipp.com''"
    "\<exists>aud. cl_aud c = Some aud \<and> audience_contains aud ''https://api.home.ryanseipp.com''"
    using v check_times_sound
    by (auto simp: verify_Inr_iff expected_party_def auth_options_def ISSUER_def API_AUDIENCE_def)
  moreover from this(2) have "\<forall>e. cl_exp c = Some e \<longrightarrow> unat now \<le> unat e + 30"
    "\<forall>n. cl_nbf c = Some n \<longrightarrow> unat n \<le> unat now + 30"
    by (simp_all add: in_window_def auth_options_def)
  moreover have "e_unix_time V (w_tick w + 2) = Some now" using now t by simp
  ultimately show "\<exists>token row k now c sub.
        rq_authorization rq = Some (Some (''Bearer '' @ token)) \<and> row \<in> set (signing_keys ?d) \<and>
        sk_status row \<noteq> ''revoked'' \<and> jwk_from_value (l_json L) (sk_public_jwk row) = Some k \<and>
        carries (l_b64 L) (l_ecdsa L) (l_json L) [ES256, ES384] k token c \<and>
        e_unix_time V (w_tick w + 2) = Some now \<and>
        (\<forall>e. cl_exp c = Some e \<longrightarrow> unat now \<le> unat e + 30) \<and>
        (\<forall>n. cl_nbf c = Some n \<longrightarrow> unat n \<le> unat now + 30) \<and>
        cl_iss c = Some ''https://home.ryanseipp.com'' \<and>
        (\<exists>aud. cl_aud c = Some aud \<and> audience_contains aud ''https://api.home.ryanseipp.com'') \<and>
        cl_sub c = Some sub \<and> uuid_parse (l_uuid L) sub = Some uid"
    using rq row sub unfolding bearer_iff by blast
qed

theorem authenticate_sound_witness:
  "\<exists>rq w w'. authenticate login_libs sample_env rq Primary w = (Inr 1, w') \<and>
     rq_authorization (rq :: unit request) \<noteq> None"
proof -
  obtain res w1 where l: "login login_libs sample_env ''a@b.c'' ''password'' sample_kek sample_world = (Inr res, w1)"
    using sample_login by blast
  from login_Inr [OF calm_keeps [OF sample_env_calm] sample_inv l] obtain k now where
      "issued login_libs (user_of sample_user) k now res"
    and k: "load_signing_key login_libs sample_kek sample_key_row = Inr k"
    by (auto simp: sample_owner sample_newest)
  moreover from this have "now = minutes 10"
    using sample_login_expires [OF l] by (auto simp: issued_def)
  ultimately have iss: "issued login_libs (user_of sample_user) k (minutes 10) res" by simp
  have "authenticate login_libs sample_env
       \<lparr>rq_authorization = Some (Some (''Bearer '' @ lr_access_token res)), rq_message = ()\<rparr> Primary sample_world
       = (Inr (usr_id (user_of sample_user)), sample_world\<lparr>w_tick := w_tick sample_world + 3\<rparr>)"
    by (rule issued_token_accepted [OF sample_libs_ok sample_env_calm _ _ _ _ k iss, where n = 700])
      (simp_all add: bearer_iff valid_clock_def timestamp_def minutes_def seconds_def one_second_def,
        simp_all add: sample_db_def sample_key_row_ok, simp add: sample_key_row_def)
  then have a: "authenticate login_libs sample_env
       \<lparr>rq_authorization = Some (Some (''Bearer '' @ lr_access_token res)), rq_message = ()\<rparr> Primary sample_world
       = (Inr 1, sample_world\<lparr>w_tick := w_tick sample_world + 3\<rparr>)" by (simp add: user_of_simps)
  from authenticate_sound [rule_format, OF a] a show ?thesis by (metis option.distinct(1))
qed

end
