(* ===== verification/Gateway_Props.thy ===== *)
theory Gateway_Props
  imports Gateway_Laws Identity_Props
begin

text \<open>
  The properties of the gateway, with their witnesses on a sample deployment in which the gateway's
  calls run the identity service.
\<close>

section \<open>The sample deployment\<close>

definition sample_http :: http_lib where
  "sample_http = \<lparr>hl_to_str = (\<lambda>s. if visible s then Some s else None),
     hl_metadata = (\<lambda>s. if visible s then Some s else None),
     hl_from_timestamp = (\<lambda>s n. Some (seconds s + n)),
     hl_sub = (\<lambda>b. map_option cl_sub (claims_from_slice login_json b))\<rparr>"

lemma sample_http_ok: "http_ok login_json sample_http"
  by (auto simp: http_ok_def sample_http_def get_put_claims)

definition sample_genv :: genv where
  "sample_genv = \<lparr>ge_scylla = (\<lambda>t. Delivered), ge_scylla_now = (\<lambda>t. minutes 10),
     ge_others = (\<lambda>t tbl. tbl), ge_rand = (\<lambda>t. Some (replicate 32 5)), ge_utc = (\<lambda>t. minutes 10),
     ge_svid_seq = (\<lambda>t. 1), ge_rebuilt = (\<lambda>t ch. ch), ge_tls_config = (\<lambda>t. True), ge_connect = (\<lambda>t. True),
     ge_call = (\<lambda>t. Delivered), ge_status = (\<lambda>t. mk_status Unavailable [])\<rparr>"

lemma sample_genv_simps [simp]:
  "ge_scylla_now sample_genv t = minutes 10" "ge_utc sample_genv t = minutes 10" "ge_rand sample_genv t = Some (replicate 32 5)"
  "hl_from_timestamp sample_http x y = Some (seconds x + y)"
  by (simp_all add: sample_genv_def sample_http_def)

lemma sample_genv_calm: "gcalm sample_genv"
  by (simp add: gcalm_def sample_genv_def)

definition sample_deployment :: "bytes deployment" where
  "sample_deployment = \<lparr>dp_libs = login_libs, dp_env = sample_env,
     dp_service = \<lparr>is_db = database_pool_from_pool Primary, is_web_base_url = ''https://h'', is_kek = sample_kek\<rparr>,
     dp_http = sample_http, dp_genv = sample_genv\<rparr>"

definition sample_gateway :: gateway where
  "sample_gateway = \<lparr>gw_sessions = (\<lambda>_. None), gw_channel = \<lparr>ic_created_seq = 1, ic_connection = 0\<rparr>,
     gw_identity = sample_world, gw_tick = 0\<rparr>"

lemma sample_deployment_simps [simp]:
  "dp_libs sample_deployment = login_libs" "dp_env sample_deployment = sample_env"
  "dp_http sample_deployment = sample_http" "dp_genv sample_deployment = sample_genv"
  "is_kek (dp_service sample_deployment) = sample_kek"
  by (simp_all add: sample_deployment_def)

definition sample_body_lib :: body_lib where
  "sample_body_lib = \<lparr>bl_json_content_type = (\<lambda>_. True),
     bl_sign_up = (\<lambda>_. Inl (plain 422 No_Body)), bl_verify_email = (\<lambda>_. Inl (plain 422 No_Body)),
     bl_login = (\<lambda>_. Inr \<lparr>lb_email = ''a@b.c'', lb_password = ''password''\<rparr>),
     bl_update_profile = (\<lambda>_. Inl (plain 422 No_Body)), bl_update_password = (\<lambda>_. Inl (plain 422 No_Body)),
     bl_resend_verification = (\<lambda>_. Inr ''b@b.c'')\<rparr>"

section \<open>Login and the session it starts\<close>

text \<open>From login to profile, across both services: a login through the gateway that succeeds sets a
  cookie, and a later request for the user's profile that carries the cookie's value, while the
  access token is valid and the session's row is neither expired nor deleted, is answered with the
  profile of the very account whose email and password were given, which was active.\<close>
lemma gateway_profile_after_login:
  assumes libs: "libs_ok (dp_libs D)" and http: "http_ok (l_json (dp_libs D)) (dp_http D)"
    and G: "gcalm (dp_genv D)" and V: "calm (dp_env D)" and I: "inv (dp_libs D) (w_db (gw_identity g))"
    and keys: "\<forall>r \<in> set (signing_keys (w_db (gw_identity g))). key_row_ok (dp_libs D) (is_kek (dp_service D)) r"
    and login: "login_handler D b g = (Inr resp, g1)"
    and cookie: "(''set-cookie'', set_session_cookie tok) \<in> set (hp_headers resp)" "hp_body resp = Expires_At_Json ex"
    and later: "gw_sessions g2 = gw_sessions g1" "w_db (gw_identity g2) = w_db (gw_identity g1)"
    and ttl: "\<forall>t t'. ge_scylla_now (dp_genv D) t < ge_scylla_now (dp_genv D) t' + seconds DEFAULT_TIME_TO_LIVE"
    and rq: "hr_method rq = GET" "hr_path rq = ''/api/v1/userinfo''"
      "extract_session_cookie (dp_http D) (hr_headers rq) = Inr tok"
    and now: "e_unix_time (dp_env D) (w_tick (gw_identity g2) + 2) = Some n"
      "900 \<le> ex" "ex < 2 ^ 63" "ex - 930 \<le> int (unat n)" "int (unat n) \<le> ex + 30"
  shows "\<exists>u r g3. email_owner (l_lower (dp_libs D)) (w_db (gw_identity g)) (lb_email b) = Some u \<and>
    u_status u = user_status_as_str Active \<and>
    verify_password (l_password (dp_libs D)) (l_feature (dp_libs D)) (lb_password b) (u_password_hash u) = Inr () \<and>
    router D B True rq g2 = (Inr r, g3) \<and> hp_status r = 200 \<and>
    hp_body r = User_Info_Json (profile_of (dp_libs D) u)"
proof -
  let ?L = "dp_libs D" and ?kek = "is_kek (dp_service D)"
  from login obtain ga lr where call: "call D (Login \<lparr>rq_authorization = None, rq_message =
       \<lparr>lrq_email = lb_email b, lrq_password = lb_password b\<rparr>\<rparr>) g = (Inr (LoggedIn lr), ga)"
    and start: "start_session D lr ga = (Inr resp, g1)"
    by (rule login_handler_Inr)
  from call obtain gb c where gb: "rpc D (Login \<lparr>rq_authorization = None, rq_message =
       \<lparr>lrq_email = lb_email b, lrq_password = lb_password b\<rparr>\<rparr>) gb = (Inr (LoggedIn lr), ga)"
    "identity_client (dp_genv D) g = (Inr c, gb)"
    by (rule call_Inr) blast
  have "gw_identity gb = gw_identity g" using identity_client_keeps [of "dp_genv D" g] gb(2) by simp
  with rpc_Inr [OF gb(1)] obtain res where
      l: "login ?L (dp_env D) (lb_email b) (lb_password b) ?kek (gw_identity g) = (Inr res, gw_identity ga)"
    and lr: "lr = \<lparr>lrs_access_token = lr_access_token res, lrs_refresh_token = lr_refresh_token res,
         lrs_id_token = lr_id_token res, lrs_expires_at = Some (proto_timestamp_of (lr_expires_at res))\<rparr>"
    by (fastforce dest: serve_login_Inr)
  from start obtain tok' uid ts exp h where s:
    "lrs_expires_at lr = Some ts"
    "generate_session_token (l_b64 ?L) (l_sha256 ?L) (ge_rand (dp_genv D) (gw_tick ga)) = Inr (tok', h)"
    "gw_sessions g1 = cql_insert \<lparr>ss_token_hash = h, ss_user_id = uid, ss_access_token = lrs_access_token lr,
       ss_id_token = lrs_id_token lr, ss_refresh_token = lrs_refresh_token lr, ss_expires_at = exp,
       ss_created_at = ge_utc (dp_genv D) (gw_tick ga + 1)\<rparr> (ge_scylla_now (dp_genv D) (gw_tick ga + 2))
       (ge_others (dp_genv D) (gw_tick ga + 2) (gw_sessions ga))"
    "gw_identity g1 = gw_identity ga"
    "resp = append_headers [(''set-cookie'', set_session_cookie tok')] (plain 200
       (Expires_At_Json (ts_seconds ts)))"
    by (rule start_session_Inr)
  have tok: "tok' = tok" using cookie(1) s(5) by (simp add: set_session_cookie_eq_iff)
  have ex: "timestamp (lr_expires_at res) = ex"
    using cookie(2) s(1,5) lr by (auto simp: proto_timestamp_of_def)
  obtain u row k iss rt where
      u: "email_owner (l_lower ?L) (w_db (gw_identity g)) (lb_email b) = Some u"
        "verify_password (l_password ?L) (l_feature ?L) (lb_password b) (u_password_hash u) = Inr ()"
        "u_status u = user_status_as_str Active"
    and iss: "issued ?L (user_of u) k iss res"
    and db: "w_db (gw_identity ga) = (w_db (gw_identity g))\<lparr>refresh_tokens := rt\<rparr>"
    using login_Inr [OF calm_keeps [OF V] I l] by (auto simp: calmD [OF V])
  let ?sel = "cql_select h (ge_scylla_now (dp_genv D) (gw_tick g2)) (gw_sessions g2)"
  obtain ss where sel: "?sel = Some ss" "ss_access_token ss = lr_access_token res"
    using ttl by (simp add: later(1) s(3) session_rows.find_put lr)
  have found: "auth_session ?L (dp_http D) (dp_genv D) (hr_headers rq) g2 =
      (Inr ss, g2\<lparr>gw_tick := Suc (gw_tick g2)\<rparr>)"
    by (rule auth_session_found [OF G libs_okD(1) [OF libs] rq(3) s(2) [unfolded tok] sel(1)])
  have I': "inv ?L (w_db (gw_identity g2))"
    using io_keepsD [OF constraints_kept.keeps_login [OF calm_keeps [OF V]] I l] by (simp add: later(2) s(4))
  have auth: "authenticate ?L (dp_env D) rq' p (gw_identity g2) =
      (Inr (u_id u), (gw_identity g2)\<lparr>w_tick := w_tick (gw_identity g2) + 3\<rparr>)"
    if "extract_bearer_token rq' = Inr (lr_access_token res)" for rq' :: "unit request" and p
    using login_authenticates [OF libs V I keys l _ that now(1)] now(2-) u(1) later(2) s(4) by (simp add: ex)
  have "u \<in> set (users (w_db (gw_identity g2))) \<and> live u"
    using email_owner_Some [OF u(1)] later(2) s(4) db by simp
  then obtain g3 where "user_info_handler D ss (g2\<lparr>gw_tick := Suc (gw_tick g2)\<rparr>) =
      (Inr (plain 200 (User_Info_Json (profile_of ?L u))), g3)"
    using user_info_calm [OF G V _ http, of "g2\<lparr>gw_tick := Suc (gw_tick g2)\<rparr>" ss u] I' sel(2)
      issued_token_decodes [OF libs http iss] auth by auto
  then have "run_endpoint D B Ep_User_Info rq g2 = (Inr (plain 200 (User_Info_Json (profile_of ?L u))), g3)"
    by (simp add: found andThen_def)
  from router_Inr [OF _ rq(1) _ this, of True] find_route_user_info rq(2) u show ?thesis
    by (simp add: plain_def)
qed

lemma sample_login_handler:
  "\<exists>resp g1 tok. login_handler sample_deployment \<lparr>lb_email = ''a@b.c'', lb_password = ''password''\<rparr> sample_gateway
     = (Inr resp, g1) \<and> (''set-cookie'', set_session_cookie tok) \<in> set (hp_headers resp) \<and>
     hp_body resp = Expires_At_Json 1500 \<and> tok = b64url_encode hex64 (replicate 32 5)"
proof -
  let ?D = sample_deployment
  let ?m = "\<lparr>lrq_email = ''a@b.c'', lrq_password = ''password''\<rparr>"
  obtain res w1 where l: "login login_libs sample_env ''a@b.c'' ''password'' sample_kek sample_world = (Inr res, w1)"
    using sample_login by blast
  let ?lr = "\<lparr>lrs_access_token = lr_access_token res, lrs_refresh_token = lr_refresh_token res,
    lrs_id_token = lr_id_token res, lrs_expires_at = Some (proto_timestamp_of (lr_expires_at res))\<rparr>"
  have e: "timestamp (lr_expires_at res) = 1500"
    by (simp add: sample_login_expires [OF l] timestamp_def minutes_def seconds_def one_second_def)
  obtain c g1 where c: "identity_client sample_genv sample_gateway = (Inr c, g1)"
      "gw_identity g1 = sample_world"
    using identity_client_calm [OF sample_genv_calm, of sample_gateway] by (auto simp: sample_gateway_def)
  have "serve (dp_libs ?D) (dp_env ?D) (dp_service ?D) (Login \<lparr>rq_authorization = None, rq_message = ?m\<rparr>)
      (gw_identity g1) = (Inr (LoggedIn ?lr), w1)"
    using l c(2) by (simp add: handle_login_def andThen_def mapErr_def ret_def)
  from rpc_calm [OF _ this] have call: "call ?D (Login \<lparr>rq_authorization = None, rq_message = ?m\<rparr>) sample_gateway =
      (Inr (LoggedIn ?lr), g1\<lparr>gw_tick := Suc (gw_tick g1), gw_identity := w1\<rparr>)"
    using c(1) by (simp add: call_def andThen_def mapErr_def sample_genv_calm)
  obtain u k iss where "issued login_libs (user_of u) k iss res"
    using login_Inr [OF calm_keeps [OF sample_env_calm] sample_inv l] by blast
  from issued_token_decodes [OF sample_libs_ok _ this, of sample_http] obtain uid where
    "decode_sub_from_jwt (dp_libs ?D) (dp_http ?D) (lrs_access_token ?lr) = Inr uid"
    using sample_http_ok by simp
  then have "\<exists>r g2. start_session ?D ?lr (g1\<lparr>gw_tick := Suc (gw_tick g1), gw_identity := w1\<rparr>) = (Inr r, g2)"
    by (rule start_session_calm [rotated, where ts = "proto_timestamp_of (lr_expires_at res)"
        and ex = "seconds (ts_seconds (proto_timestamp_of (lr_expires_at res))) +
          nanos_u32 (ts_nanos (proto_timestamp_of (lr_expires_at res)))" and raw = "replicate 32 5"])
      (simp_all add: sample_genv_calm)
  then obtain r g2 where
    r: "start_session ?D ?lr (g1\<lparr>gw_tick := Suc (gw_tick g1), gw_identity := w1\<rparr>) = (Inr r, g2)"
    by blast
  then have "login_handler ?D \<lparr>lb_email = ''a@b.c'', lb_password = ''password''\<rparr> sample_gateway = (Inr r, g2)"
    using call by (simp add: login_handler_def andThen_def)
  moreover from r have "(''set-cookie'', set_session_cookie (b64url_encode hex64 (replicate 32 5))) \<in> set (hp_headers r)
      \<and> hp_body r = Expires_At_Json 1500"
    by (rule start_session_Inr)
      (auto simp: proto_timestamp_of_def e generate_session_token_def Let_def)
  ultimately show ?thesis by blast
qed

lemma session_cookie_found:
  assumes "http_ok J H" and "base64_ok B"
    and "map_of hs ''cookie'' = Some (join_with CHR '';'' (pre @ [lead @ SESSION_COOKIE @ ''='' @ b64url_encode B x] @ post))"
    and "\<forall>p \<in> set (pre @ post). CHR '';'' \<notin> set p \<and> visible p" and "\<forall>p \<in> set pre. \<not> is_session_pair p"
    and "lead \<in> {[], '' ''}"
  shows "extract_session_cookie H hs = Inr (b64url_encode B x)"
proof -
  let ?pair = "SESSION_COOKIE @ ''='' @ b64url_encode B x"
  let ?ps = "pre @ [lead @ ?pair] @ post"
  have "CHR '';'' \<notin> set (lead @ ?pair)" "visible (lead @ ?pair)"
    using assms(6) b64url_encode_no_special(2) [OF assms(2)] b64url_visible [OF assms(2)]
    by (auto simp: SESSION_COOKIE_def)
  then have pieces: "\<forall>p \<in> set ?ps. CHR '';'' \<notin> set p" "\<forall>p \<in> set ?ps. visible p" using assms(4) by auto
  have "visible (join_with CHR '';'' ps)" if "\<forall>p \<in> set ps. visible p" for ps
    using that by (induction "CHR '';''" ps rule: join_with.induct) auto
  then have "hl_to_str H (join_with CHR '';'' ?ps) = Some (join_with CHR '';'' ?ps)"
    using http_okD(1) [OF assms(1)] pieces(2) by blast
  moreover have "split_on CHR '';'' (join_with CHR '';'' ?ps) = ?ps"
    by (rule split_on_join_with) (use pieces(1) in auto)
  moreover have "trim (lead @ ?pair) = ?pair"
    using assms(6) trim_cookie [OF assms(2)] by (auto simp: trim_space)
  then have "session_pair ?ps = Inr (b64url_encode B x)"
    using session_pair_found [OF assms(5), of "lead @ ?pair" "b64url_encode B x" post] by simp
  ultimately show ?thesis
    using assms(3) by (simp add: extract_session_cookie_def)
qed

abbreviation sample_cookie_value :: string where
  "sample_cookie_value \<equiv> b64url_encode hex64 (replicate 32 5)"

definition sample_cookie_header :: headers where
  "sample_cookie_header = [(''cookie'', join_with CHR '';'' ([''theme=dark''] @
     ['' '' @ SESSION_COOKIE @ ''='' @ sample_cookie_value] @ []))]"

lemma sample_other_cookie: "\<not> is_session_pair ''theme=dark''"
proof -
  have "trim ''theme=dark'' = ''theme=dark''" by (rule trim_id) (simp add: white_space_def)
  then show ?thesis by (simp add: is_session_pair_def strip_prefix_def SESSION_COOKIE_def)
qed

lemma sample_cookie: "extract_session_cookie sample_http sample_cookie_header = Inr sample_cookie_value"
  by (rule session_cookie_found [OF sample_http_ok hex64_ok, where pre = "[''theme=dark'']" and lead = "'' ''" and post = "[]"])
    (simp_all add: sample_cookie_header_def sample_other_cookie)

text \<open>The session cookie is found again: whatever other cookies a client sends before and after it
  (with names that do not begin like the session cookie's), and with or without the customary
  space, the value that \<open>set_session_cookie\<close> was given is what \<open>extract_session_cookie\<close> returns.\<close>
lemma session_cookie_roundtrip:
  assumes "http_ok J H" and "base64_ok B" and "generate_session_token B sha256 rnd = Inr (tok, h)"
    and "map_of hs ''cookie'' = Some (join_with CHR '';'' (pre @ [lead @ SESSION_COOKIE @ ''='' @ tok] @ post))"
    and "\<forall>p \<in> set (pre @ post). CHR '';'' \<notin> set p \<and> visible p" and "\<forall>p \<in> set pre. \<not> is_session_pair p"
    and "lead \<in> {[], '' ''}"
  shows "extract_session_cookie H hs = Inr tok \<and> hash_session_token B sha256 tok = Inr h \<and>
    (\<exists>attributes. set_session_cookie tok = SESSION_COOKIE @ ''='' @ tok @ '';'' @ attributes)"
proof -
  obtain raw where "tok = b64url_encode B raw"
    using assms(3) by (auto simp: generate_session_token_def Let_def)
  then have "extract_session_cookie H hs = Inr tok"
    using session_cookie_found [OF assms(1,2) _ assms(5-7), of hs raw] assms(4) by simp
  moreover have "hash_session_token B sha256 tok = Inr h"
    by (rule session_token.hash_generate [OF assms(2,3)])
  ultimately show ?thesis by (simp add: set_session_cookie_def)
qed

text \<open>A cookie whose name only begins like the session cookie's hides the session cookie after it.\<close>

lemma cookie_with_longer_name_rejected:
  assumes "trim p = SESSION_COOKIE @ c # v" and "c \<noteq> CHR ''=''"
  shows "session_pair (p # ps) = Inl Unauthorized"
  using assms by (simp add: strip_prefix_def)

text \<open>C15. A session lives for seven days to the instant: whatever is inserted or deleted under other
  keys meanwhile, a lookup by the token's digest returns what login stored, with timestamps cut to
  milliseconds, exactly until 604800 seconds after the row was written.\<close>
theorem session_lifetime:
  assumes "base64_ok (l_b64 L)" and "create_session L G uid at it rt expiry g = (Inr tok, g1)"
    and "hash_session_token (l_b64 L) (l_sha256 L) tok = Inr h"
    and "gw_sessions g2 = fold id fs (gw_sessions g1)" and "\<forall>f \<in> set fs. session_rows.leaves h f"
    and "ge_others G (gw_tick g2) (gw_sessions g2) = gw_sessions g2"
    and "get_session G h g2 = (Inr r, g3)"
  shows "r = (if ge_scylla_now G (gw_tick g2) < ge_scylla_now G (gw_tick g + 2) + seconds 604800
    then Some \<lparr>ss_token_hash = h, ss_user_id = uid, ss_access_token = at, ss_id_token = it,
      ss_refresh_token = rt, ss_expires_at = stored_timestamp expiry,
      ss_created_at = stored_timestamp (ge_utc G (gw_tick g + 1))\<rparr>
    else None)"
proof -
  obtain h' where h': "generate_session_token (l_b64 L) (l_sha256 L) (ge_rand G (gw_tick g)) = Inr (tok, h')"
    and g1: "gw_sessions g1 = cql_insert \<lparr>ss_token_hash = h', ss_user_id = uid, ss_access_token = at,
            ss_id_token = it, ss_refresh_token = rt, ss_expires_at = expiry,
            ss_created_at = ge_utc G (gw_tick g + 1)\<rparr> (ge_scylla_now G (gw_tick g + 2))
            (ge_others G (gw_tick g + 2) (gw_sessions g))"
    using assms(2) by (auto simp: create_session_Inr_iff)
  have "h' = h" using session_token.hash_generate [OF assms(1) h'] assms(3) by simp
  then show ?thesis
    using assms(5-7) session_rows.find_later [of fs h "ge_scylla_now G (gw_tick g2)" "gw_sessions g1"]
    by (simp add: get_session_Inr_iff assms(4) g1 session_rows.find_put stored_session_def DEFAULT_TIME_TO_LIVE_def)
qed

theorem session_lifetime_witness:
  "\<exists>tok g1 r g3. create_session login_libs sample_genv 7 ''a'' ''i'' ''r'' 5 sample_gateway = (Inr tok, g1) \<and>
     get_session sample_genv (replicate 32 5) (g1\<lparr>gw_sessions := cql_delete [1] (gw_sessions g1)\<rparr>) = (Inr (Some r), g3) \<and>
     ss_user_id r = 7"
proof -
  have gen: "generate_session_token hex64 rev (Some (replicate 32 5)) = Inr (sample_cookie_value, replicate 32 5)"
    by (simp add: generate_session_token_def)
  obtain g1 where c: "create_session login_libs sample_genv 7 ''a'' ''i'' ''r'' 5 sample_gateway = (Inr sample_cookie_value, g1)"
    using gen gcalmD(1) [OF sample_genv_calm] by (auto simp: create_session_Inr_iff)
  let ?g2 = "g1\<lparr>gw_sessions := cql_delete [1] (gw_sessions g1)\<rparr>"
  obtain r g3 where f: "get_session sample_genv (replicate 32 5) ?g2 = (Inr r, g3)"
    using gcalmD(1) [OF sample_genv_calm] by (auto simp: get_session_Inr_iff)
  have ne: "[1] \<noteq> (replicate 32 5 :: bytes)" by (simp add: numeral_eq_Suc)
  have leaves: "session_rows.leaves (replicate 32 5) (cql_delete [1])"
    unfolding session_rows.leaves_def using ne by blast
  have h: "hash_session_token (l_b64 login_libs) (l_sha256 login_libs) sample_cookie_value = Inr (replicate 32 5)"
    using session_token.hash_generate [OF hex64_ok gen] by simp
  have "r = Some \<lparr>ss_token_hash = replicate 32 5, ss_user_id = 7, ss_access_token = ''a'', ss_id_token = ''i'',
      ss_refresh_token = ''r'', ss_expires_at = stored_timestamp 5, ss_created_at = stored_timestamp (minutes 10)\<rparr>"
    using session_lifetime [OF _ c h, of ?g2 "[cql_delete [1]]" r g3] f hex64_ok leaves gcalmD(4) [OF sample_genv_calm]
    by (simp add: seconds_def one_second_def)
  then show ?thesis using c f by auto
qed

section \<open>Who gets through\<close>

definition protected :: "endpoint \<Rightarrow> bool" where
  "protected ep \<longleftrightarrow> ep \<in> {Ep_Logout, Ep_User_Info, Ep_Update_Profile, Ep_Update_Password}"

lemma auth_session_Inl:
  assumes "auth_session L H G hs g = (Inl x, g')"
  shows "gw_identity g' = gw_identity g \<and> x \<in> {Err Unauthorized, Err (Session_Err Execution)}"
proof -
  have "\<forall>e. session_pair ps = Inl e \<longrightarrow> e = Unauthorized" for ps
    by (induction ps) (auto simp: ok_or_Inl_iff split: option.splits)
  then have "extract_session_cookie H hs = Inl e \<Longrightarrow> e = Unauthorized" for e
    by (auto simp: extract_session_cookie_def try_r_Inl_iff ok_or_Inl_iff)
  then show ?thesis
    using assms
    by (auto simp: auth_session_def andThen_Inl_iff pureR_def mapErr_def get_session_def scylla_def Let_def
        map_err_Inl_iff ok_or_Inl_iff split: prod.splits sum.splits outcome.splits)
qed

text \<open>C14. The account endpoints need a session: a request to log out, read the profile or change
  profile or password either carries a cookie whose decoded digest is the key of an unexpired row of
  the session table, or it is refused with 401, 405 or 500 and the identity service is not called.\<close>
theorem protected_needs_session:
  assumes "find_route b (hr_path rq) = Some (m, ep)" and "protected ep"
    and "router D B b rq g = (r, g')"
  shows "(\<exists>tok h s written. extract_session_cookie (dp_http D) (hr_headers rq) = Inr tok \<and>
      hash_session_token (l_b64 (dp_libs D)) (l_sha256 (dp_libs D)) tok = Inr h \<and>
      ge_others (dp_genv D) (gw_tick g) (gw_sessions g) h = Some (s, written) \<and>
      ge_scylla_now (dp_genv D) (gw_tick g) < written + seconds DEFAULT_TIME_TO_LIVE) \<or>
    gw_identity g' = gw_identity g \<and> (\<exists>resp. r = Inr resp \<and> hp_status resp \<in> {401, 405, 500})"
proof (cases "method_allowed m (hr_method rq)")
  case False
  then show ?thesis using assms(1,3) by (auto simp: router_def dispatch_def andThen_def ret_def plain_def)
next
  case True
  obtain a g1 where a: "auth_session (dp_libs D) (dp_http D) (dp_genv D) (hr_headers rq) g = (a, g1)" by fastforce
  show ?thesis
  proof (cases a)
    case (Inr s)
    with a obtain tok h where "extract_session_cookie (dp_http D) (hr_headers rq) = Inr tok"
      "hash_session_token (l_b64 (dp_libs D)) (l_sha256 (dp_libs D)) tok = Inr h"
      "cql_select h (ge_scylla_now (dp_genv D) (gw_tick g)) (ge_others (dp_genv D) (gw_tick g) (gw_sessions g)) = Some s"
      by (auto simp: auth_session_Inr_iff get_session_Inr_iff)
    then show ?thesis unfolding cql_select_Some_iff by blast
  next
    case (Inl x)
    with a have x: "gw_identity g1 = gw_identity g" "x \<in> {Err Unauthorized, Err (Session_Err Execution)}"
      using auth_session_Inl by blast+
    have "run_endpoint D B ep rq g = (Inl x, g1)"
      using assms(2) a Inl by (auto simp: protected_def andThen_def)
    moreover obtain e where e: "x = Err e" "hp_status (error_response e) \<in> {401, 500}"
      using x(2) by (auto simp: error_response_def plain_def)
    ultimately have "respond (run_endpoint D B ep rq) g = (Inr (error_response e), g1)"
      by (simp add: respond_def)
    then show ?thesis
      using assms(1,3) True x(1) e(2)
      by (auto simp: router_def dispatch_def andThen_def ret_def without_body_def split: if_splits)
  qed
qed

theorem protected_needs_session_witness:
  "\<exists>r g'. router sample_deployment sample_body_lib True
      \<lparr>hr_method = GET, hr_path = ''/api/v1/userinfo'', hr_headers = [], hr_body = []\<rparr> sample_gateway = (Inr r, g') \<and>
     hp_status r \<in> {401, 405, 500} \<and> gw_identity g' = sample_world"
proof -
  let ?rq = "\<lparr>hr_method = GET, hr_path = ''/api/v1/userinfo'', hr_headers = [], hr_body = []\<rparr>"
  obtain r g' where r: "router sample_deployment sample_body_lib True ?rq sample_gateway = (r, g')" by fastforce
  have f: "find_route True (hr_path ?rq) = Some (GET, Ep_User_Info)" by (simp add: find_route_user_info)
  have p: "protected Ep_User_Info" by (simp add: protected_def)
  show ?thesis
    using protected_needs_session [OF f p r] r by (auto simp: extract_session_cookie_def) (simp_all add: sample_gateway_def)
qed

text \<open>C16. Logging out ends the session: after a logout that is acknowledged, and as long as no new row
  is written under its key, the session's cookie is refused for ever.\<close>
theorem logout_ends_session:
  assumes "logout_handler D s g = (Inr resp, g1)"
    and "gw_sessions g2 = fold id fs (gw_sessions g1)" and "\<forall>f \<in> set fs. session_rows.leaves (ss_token_hash s) f"
    and "ge_others (dp_genv D) (gw_tick g2) (gw_sessions g2) = gw_sessions g2"
    and "extract_session_cookie (dp_http D) hs = Inr tok"
    and "hash_session_token (l_b64 (dp_libs D)) (l_sha256 (dp_libs D)) tok = Inr (ss_token_hash s)"
  shows "hp_headers resp = [(''set-cookie'', clear_session_cookie)] \<and>
    (\<exists>x g3. auth_session (dp_libs D) (dp_http D) (dp_genv D) hs g2 = (Inl x, g3))"
proof -
  have g1: "\<exists>tbl. gw_sessions g1 = cql_delete (ss_token_hash s) tbl" and r: "hp_headers resp = [(''set-cookie'', clear_session_cookie)]"
    using assms(1) by (auto simp: logout_handler_def andThen_Inr_iff mapErr_Inr_iff delete_session_def scylla_Inr_iff ret_def)
  then have none: "cql_select (ss_token_hash s) now (gw_sessions g2) = None" for now
    using session_rows.removed_for_good [OF assms(3)] assms(2) by auto
  have "fst (auth_session (dp_libs D) (dp_http D) (dp_genv D) hs g2) \<noteq> Inr x" for x
    using assms(4-6) none
    by (cases "auth_session (dp_libs D) (dp_http D) (dp_genv D) hs g2")
      (auto simp: auth_session_Inr_iff get_session_Inr_iff)
  then show ?thesis
    using r by (cases "auth_session (dp_libs D) (dp_http D) (dp_genv D) hs g2"; cases "fst (auth_session (dp_libs D) (dp_http D) (dp_genv D) hs g2)") auto
qed

theorem logout_ends_session_witness:
  "\<exists>resp g1 x g3. logout_handler sample_deployment \<lparr>ss_token_hash = replicate 32 5, ss_user_id = 1,
       ss_access_token = [], ss_id_token = [], ss_refresh_token = [], ss_expires_at = 0, ss_created_at = 0\<rparr>
       sample_gateway = (Inr resp, g1) \<and>
     auth_session login_libs sample_http sample_genv sample_cookie_header g1 = (Inl x, g3)"
proof -
  let ?s = "\<lparr>ss_token_hash = replicate 32 5, ss_user_id = 1, ss_access_token = [], ss_id_token = [],
       ss_refresh_token = [], ss_expires_at = 0, ss_created_at = 0\<rparr>"
  obtain resp g1 where l: "logout_handler sample_deployment ?s sample_gateway = (Inr resp, g1)"
    by (simp add: logout_handler_def delete_session_def andThen_def mapErr_def scylla_def Let_def
        gcalmD [OF sample_genv_calm] ret_def)
  have "hash_session_token (l_b64 (dp_libs sample_deployment)) (l_sha256 (dp_libs sample_deployment)) sample_cookie_value =
      Inr (ss_token_hash ?s)"
    using session_token.hash_generate [OF hex64_ok, of rev "Some (replicate 32 5)" sample_cookie_value "replicate 32 5"]
    by (simp add: generate_session_token_def)
  from logout_ends_session [OF l, of g1 "[]" sample_cookie_header, OF _ _ _ _ this] l show ?thesis
    by (auto simp: sample_cookie gcalmD [OF sample_genv_calm])
qed

section \<open>No panics and opaque failures\<close>

text \<open>
  \<open>gsafe P m\<close>: on a session table whose access tokens are visible strings, \<open>m\<close> does not panic,
  keeps the table so, and returns only values with \<open>P\<close>.
\<close>

definition sessions_visible :: "session_table \<Rightarrow> bool" where
  "sessions_visible tbl \<longleftrightarrow> (\<forall>h s t. tbl h = Some (s, t) \<longrightarrow> visible (ss_access_token s))"

definition gsafe :: "('a \<Rightarrow> bool) \<Rightarrow> ('e, 'a) gio \<Rightarrow> bool" where
  "gsafe P m \<longleftrightarrow> (\<forall>g r g'. sessions_visible (gw_sessions g) \<longrightarrow> m g = (r, g') \<longrightarrow>
     r \<noteq> Inl Panic \<and> sessions_visible (gw_sessions g') \<and> (\<forall>a. r = Inr a \<longrightarrow> P a))"

lemma gsafeI:
  "(\<And>g r g'. sessions_visible (gw_sessions g) \<Longrightarrow> m g = (r, g') \<Longrightarrow>
     r \<noteq> Inl Panic \<and> sessions_visible (gw_sessions g') \<and> (\<forall>a. r = Inr a \<longrightarrow> P a)) \<Longrightarrow> gsafe P m"
  by (auto simp: gsafe_def)

lemma gsafeD:
  assumes "gsafe P m" and "sessions_visible (gw_sessions g)" and "m g = (r, g')"
  shows "r \<noteq> Inl Panic" and "sessions_visible (gw_sessions g')" and "r = Inr a \<Longrightarrow> P a"
  using assms unfolding gsafe_def by blast+

lemma gsafe_ret: "P a \<Longrightarrow> gsafe P (ret a)"
  by (auto simp: gsafe_def ret_def)

lemma gsafe_throw: "gsafe P (throw e)"
  by (auto simp: gsafe_def throw_def)

lemma gsafe_pureR: "(\<And>a. r = Inr a \<Longrightarrow> P a) \<Longrightarrow> gsafe P (pureR f r)"
  by (cases r) (auto simp: gsafe_def pureR_def)

lemma gsafe_andThen:
  assumes "gsafe Q m" and "\<And>a. Q a \<Longrightarrow> gsafe P (k a)"
  shows "gsafe P (andThen m k)"
proof (rule gsafeI)
  fix g r g' assume v: "sessions_visible (gw_sessions g)" and m: "andThen m k g = (r, g')"
  obtain r1 g1 where r1: "m g = (r1, g1)" by fastforce
  note safe1 = gsafeD [OF assms(1) v r1]
  show "r \<noteq> Inl Panic \<and> sessions_visible (gw_sessions g') \<and> (\<forall>a. r = Inr a \<longrightarrow> P a)"
  proof (cases r1)
    case (Inl x)
    then show ?thesis using m r1 safe1 by (auto simp: andThen_def)
  next
    case (Inr a)
    then have "k a g1 = (r, g')" using m r1 by (simp add: andThen_def)
    then show ?thesis using gsafeD [OF assms(2) [OF safe1(3) [OF Inr]] safe1(2)] by blast
  qed
qed

lemma map_exit_Panic_iff [simp]: "map_exit f x = Panic \<longleftrightarrow> x = Panic" "Panic = map_exit f x \<longleftrightarrow> x = Panic"
  by (cases x; simp)+

lemma gsafe_mapErr: "gsafe P m \<Longrightarrow> gsafe P (mapErr f m)"
proof (rule gsafeI)
  fix g r g' assume s: "gsafe P m" and v: "sessions_visible (gw_sessions g)" and m: "mapErr f m g = (r, g')"
  obtain r1 where r1: "m g = (r1, g')" "r = map_err (map_exit f) r1"
    using m by (auto simp: mapErr_def split: prod.splits)
  show "r \<noteq> Inl Panic \<and> sessions_visible (gw_sessions g') \<and> (\<forall>a. r = Inr a \<longrightarrow> P a)"
    using gsafeD [OF s v r1(1)] r1(2) by (auto simp: map_err_Inl_iff)
qed

lemma gsafe_weaken: "gsafe P m \<Longrightarrow> (\<And>a. P a \<Longrightarrow> Q a) \<Longrightarrow> gsafe Q m"
  by (auto simp: gsafe_def)

definition others_visible :: "genv \<Rightarrow> bool" where
  "others_visible G \<longleftrightarrow> (\<forall>t tbl. sessions_visible tbl \<longrightarrow> sessions_visible (ge_others G t tbl))"

lemma gsafe_scylla:
  assumes "others_visible G"
    and "\<And>now tbl. sessions_visible tbl \<Longrightarrow> sessions_visible (snd (f now tbl)) \<and> P (fst (f now tbl))"
  shows "gsafe P (scylla G e f)"
proof (rule gsafeI)
  fix g r g' assume v: "sessions_visible (gw_sessions g)" and m: "scylla G e f g = (r, g')"
  have "sessions_visible (ge_others G (gw_tick g) (gw_sessions g))"
    using assms(1) v by (simp add: others_visible_def)
  with m assms(2) [of "ge_others G (gw_tick g) (gw_sessions g)" "ge_scylla_now G (gw_tick g)"]
  show "r \<noteq> Inl Panic \<and> sessions_visible (gw_sessions g') \<and> (\<forall>a. r = Inr a \<longrightarrow> P a)"
    by (auto simp: scylla_def Let_def split: outcome.splits prod.splits if_splits)
qed

lemma gsafe_gask: "gsafe (\<lambda>_. True) (gask f)"
  by (auto simp: gsafe_def gask_def)

lemma gsafe_identity_client: "gsafe (\<lambda>_. True) (identity_client G)"
proof (rule gsafeI)
  fix g r g' assume "sessions_visible (gw_sessions g)" and m: "identity_client G g = (r, g')"
  moreover have "fst (identity_client G g) \<noteq> Inl Panic"
    by (simp add: identity_client_def load_created_seq_def andThen_def gask_def Let_def lock_channel_def
        connect_channel_def store_channel_def ret_def)
  ultimately show "r \<noteq> Inl Panic \<and> sessions_visible (gw_sessions g') \<and> (\<forall>a. r = Inr a \<longrightarrow> True)"
    using identity_client_keeps [of G g] by simp
qed

lemma gsafe_rpc:
  assumes "\<And>w resp w'. serve (dp_libs D) (dp_env D) (dp_service D) rq w = (Inr resp, w') \<Longrightarrow> P resp"
  shows "gsafe P (rpc D rq)"
  unfolding gsafe_def
  using assms
  by (auto simp: rpc_def Let_def split: outcome.splits prod.splits sum.splits exit.splits if_splits)

lemma login_token_visible:
  assumes "base64_ok (l_b64 L)" and "login L V em pw kek w = (Inr res, w')"
  shows "visible (lr_access_token res)"
proof -
  from assms(2) obtain u k w1 where "issue_tokens L V u k w1 = (Inr res, w')"
    by (auto simp: login_def io_Inr_iff verify_password_blocking_def split: if_splits)
  from issue_tokens_Inr(1) [OF this] obtain rnd j at where
    "sign_jwt (l_b64 L) (l_ecdsa L) (l_json L) rnd (ask_algorithm k) (ask_kid k)
       (access_claims L u (e_utc V (w_tick w1)) j) (ask_key_pair k) = Inr at" "lr_access_token res = jwt_token at"
    by (auto simp: issued_def)
  with jwt_visible [OF assms(1)] show ?thesis by auto
qed

lemma gsafe_call: "gsafe P (rpc D rq) \<Longrightarrow> gsafe P (call D rq)"
  unfolding call_def by (rule gsafe_andThen [OF gsafe_mapErr [OF gsafe_identity_client]])

definition not_500 :: "http_response \<Rightarrow> bool" where
  "not_500 r \<longleftrightarrow> hp_status r \<noteq> 500"

lemma gsafe_start_session:
  assumes "others_visible (dp_genv D)" and "visible (lrs_access_token resp)"
  shows "gsafe not_500 (start_session D resp)"
proof -
  have create: "gsafe (\<lambda>_. True) (create_session (dp_libs D) (dp_genv D) uid (lrs_access_token resp) it rt ex)"
    for uid it rt ex
    unfolding create_session_def
    by (intro gsafe_andThen [OF gsafe_gask] gsafe_andThen [OF gsafe_pureR, where Q = "\<lambda>_. True"] TrueI)
      (auto intro!: gsafe_andThen [OF gsafe_gask] gsafe_andThen [OF gsafe_scylla [OF assms(1)], where Q = "\<lambda>_. True"]
        gsafe_ret simp: cql_insert_def sessions_visible_def assms(2))
  show ?thesis
    unfolding start_session_def
    by (intro gsafe_andThen [OF gsafe_pureR, where Q = "\<lambda>_. True"] TrueI gsafe_andThen [OF gsafe_mapErr [OF create]]
        gsafe_ret) (simp add: not_500_def)
qed

lemma gsafe_call_any: "gsafe (\<lambda>_. True) (call D rq)"
  by (rule gsafe_call, rule gsafe_rpc) simp

lemma not_500_simps [simp]: "not_500 no_content" "not_500 health_check" "not_500 (plain 200 b)"
  "not_500 (plain 413 b)" "not_500 (plain 415 b)" "not_500 (plain 404 b)" "not_500 (plain 405 b)"
  by (simp_all add: not_500_def no_content_def health_check_def plain_def)

lemma gsafe_then_no_content: "gsafe (\<lambda>_. True) m \<Longrightarrow> gsafe not_500 (andThen m (\<lambda>_. ret no_content))"
  by (erule gsafe_andThen) (simp add: gsafe_ret)

lemma gsafe_unauthenticated:
  "gsafe not_500 (sign_up_handler D sb)" "gsafe not_500 (verify_email_handler D tok)"
  "gsafe not_500 (resend_verification_handler D em)"
  unfolding sign_up_handler_def verify_email_handler_def resend_verification_handler_def
  by (intro gsafe_then_no_content gsafe_call_any)+

lemma gsafe_login:
  assumes "others_visible (dp_genv D)" and "base64_ok (l_b64 (dp_libs D))"
  shows "gsafe not_500 (login_handler D b)"
  unfolding login_handler_def
proof (rule gsafe_andThen)
  show "gsafe (\<lambda>r. \<forall>resp. r = LoggedIn resp \<longrightarrow> visible (lrs_access_token resp))
      (call D (Login \<lparr>rq_authorization = None, rq_message = \<lparr>lrq_email = lb_email b, lrq_password = lb_password b\<rparr>\<rparr>))"
    using login_token_visible [OF assms(2)] by (intro gsafe_call gsafe_rpc) (fastforce dest: serve_login_Inr)
  fix r assume "\<forall>resp. r = LoggedIn resp \<longrightarrow> visible (lrs_access_token resp)"
  then show "gsafe not_500 (case r of LoggedIn resp \<Rightarrow> start_session D resp | _ \<Rightarrow> throw unexpected)"
    by (cases r) (auto intro: gsafe_start_session [OF assms(1)] gsafe_throw)
qed

lemma gsafe_auth_session:
  assumes "others_visible G"
  shows "gsafe (\<lambda>s. visible (ss_access_token s)) (auth_session L H G hs)"
proof -
  have found: "gsafe (\<lambda>f. \<forall>s. f = Some s \<longrightarrow> visible (ss_access_token s)) (get_session G h)" for h
    unfolding get_session_def
    by (rule gsafe_scylla [OF assms]) (auto simp: cql_select_def sessions_visible_def split: option.splits)
  show ?thesis
    unfolding auth_session_def
    by (intro gsafe_andThen [OF gsafe_pureR, where Q = "\<lambda>_. True"] TrueI gsafe_andThen [OF gsafe_mapErr [OF found]])
      (auto intro: gsafe_pureR)
qed

lemma gsafe_with_auth:
  "http_ok J H \<Longrightarrow> visible (ss_access_token s) \<Longrightarrow> gsafe (\<lambda>_. True) (pureX (\<lambda>e. e) (with_auth H s m))"
  by (simp add: with_auth_visible gsafe_def pureX_def)

lemma gsafe_with_session:
  assumes "http_ok J (dp_http D)" and "others_visible (dp_genv D)" and "visible (ss_access_token s)"
  shows "gsafe not_500 (user_info_handler D s)" and "gsafe not_500 (update_profile_handler D s up)"
    and "gsafe not_500 (update_password_handler D s pb)" and "gsafe not_500 (logout_handler D s)"
proof -
  note client = gsafe_andThen [OF gsafe_mapErr [OF gsafe_identity_client]]
    and auth = gsafe_andThen [OF gsafe_with_auth [OF assms(1,3)]]
    and any_rpc = gsafe_rpc [where P = "\<lambda>_. True", OF TrueI]
  show "gsafe not_500 (user_info_handler D s)"
    unfolding user_info_handler_def
  proof (intro client auth gsafe_andThen [OF any_rpc])
    fix r show "gsafe not_500 (case r of UserInfoIs resp \<Rightarrow> ret (plain 200 (User_Info_Json
         \<lparr>uj_sub = uir_sub resp, uj_name = uir_name resp, uj_given_name = uir_given_name resp,
          uj_family_name = uir_family_name resp, uj_username = uir_username resp,
          uj_email = uir_email resp, uj_email_verified = uir_email_verified resp\<rparr>)) | _ \<Rightarrow> throw unexpected)"
      by (cases r) (auto intro: gsafe_ret gsafe_throw)
  qed
  show "gsafe not_500 (update_profile_handler D s up)" "gsafe not_500 (update_password_handler D s pb)"
    unfolding update_profile_handler_def update_password_handler_def
    by (intro client auth gsafe_then_no_content any_rpc)+
  have "gsafe (\<lambda>_. True) (delete_session (dp_genv D) (ss_token_hash s))"
    unfolding delete_session_def
    by (rule gsafe_scylla [OF assms(2)]) (auto simp: cql_delete_def sessions_visible_def)
  then show "gsafe not_500 (logout_handler D s)"
    unfolding logout_handler_def
    by (intro gsafe_andThen [OF gsafe_mapErr] gsafe_ret) (auto simp: not_500_def)
qed

text \<open>axum's rejections are client errors.\<close>

definition rejections_ok :: "body_lib \<Rightarrow> bool" where
  "rejections_ok B \<longleftrightarrow> (\<forall>b r. bl_sign_up B b = Inl r \<or> bl_verify_email B b = Inl r \<or> bl_login B b = Inl r \<or>
     bl_update_profile B b = Inl r \<or> bl_update_password B b = Inl r \<or> bl_resend_verification B b = Inl r \<longrightarrow>
     not_500 r)"

lemma gsafe_with_body:
  "(\<And>r. decode (hr_body rq) = Inl r \<Longrightarrow> not_500 r) \<Longrightarrow> (\<And>b. gsafe not_500 (k b)) \<Longrightarrow>
     gsafe not_500 (with_body B decode rq k)"
  by (auto simp: with_body_def gsafe_ret split: sum.split)

lemma gsafe_endpoint:
  assumes "http_ok J (dp_http D)" and "base64_ok (l_b64 (dp_libs D))" and "others_visible (dp_genv D)"
    and "rejections_ok B"
  shows "gsafe not_500 (run_endpoint D B ep rq)"
proof -
  note rej = assms(4) [unfolded rejections_ok_def]
  show ?thesis
    by (cases ep; simp only: run_endpoint.simps;
      intro gsafe_ret gsafe_with_body gsafe_unauthenticated gsafe_login [OF assms(3,2)]
        gsafe_andThen [OF gsafe_auth_session [OF assms(3)]] gsafe_with_session [OF assms(1,3)];
      use rej in \<open>simp; fail\<close> | assumption | (use rej in blast))
qed

lemma error_response_500:
  "hp_status (error_response e) = 500 \<Longrightarrow> hp_body (error_response e) = Error_Json internal_message"
  by (cases e) (auto simp: error_response_def plain_def split: grpc_code.splits)

lemma respond_gsafe:
  assumes "gsafe not_500 m" and "sessions_visible (gw_sessions g)" and "respond m g = (r, g')"
  shows "\<exists>resp. r = Inr resp \<and> sessions_visible (gw_sessions g') \<and>
    (hp_status resp = 500 \<longrightarrow> hp_body resp = Error_Json internal_message)"
proof -
  obtain r1 g1 where m: "m g = (r1, g1)" by fastforce
  note safe = gsafeD [OF assms(1,2) m]
  show ?thesis
  proof (cases r1)
    case (Inl x)
    then obtain e where "x = Err e" using safe(1) by (cases x) auto
    then show ?thesis using assms(3) m Inl safe(2) error_response_500 by (auto simp: respond_def)
  next
    case (Inr a)
    then show ?thesis using assms(3) m safe(2) safe(3) [OF Inr] by (auto simp: respond_def not_500_def)
  qed
qed

text \<open>C35. Every request is answered: with sessions whose access tokens are visible strings, as every
  login of this gateway stores them, no request makes a handler of the gateway panic; the sessions
  stay that way; and a response with status 500 says nothing but \<open>internal server error\<close>.\<close>
theorem gateway_answers:
  assumes "http_ok J (dp_http D)" and "base64_ok (l_b64 (dp_libs D))" and "others_visible (dp_genv D)"
    and "rejections_ok B" and "sessions_visible (gw_sessions g)" and "router D B b rq g = (r, g')"
  shows "\<exists>resp. r = Inr resp \<and> sessions_visible (gw_sessions g') \<and>
    (hp_status resp = 500 \<longrightarrow> hp_body resp \<in> {Error_Json internal_message, No_Body})"
proof (cases "find_route b (hr_path rq)")
  case None
  then show ?thesis using assms(5,6) by (auto simp: router_def dispatch_def andThen_def ret_def plain_def)
next
  case (Some route)
  obtain m ep where route: "route = (m, ep)" by fastforce
  show ?thesis
  proof (cases "method_allowed m (hr_method rq)")
    case False
    then show ?thesis
      using assms(5,6) Some route by (auto simp: router_def dispatch_def andThen_def ret_def plain_def)
  next
    case True
    obtain r1 g1 where r1: "respond (run_endpoint D B ep rq) g = (r1, g1)" by fastforce
    from respond_gsafe [OF gsafe_endpoint [OF assms(1-4)] assms(5) r1] show ?thesis
      using assms(6) Some route True r1
      by (auto simp: router_def dispatch_def andThen_def ret_def without_body_def)
  qed
qed

theorem gateway_answers_witness:
  "\<exists>resp g'. router sample_deployment sample_body_lib True
      \<lparr>hr_method = POST, hr_path = ''/api/v1/login'', hr_headers = [], hr_body = [1]\<rparr> sample_gateway = (Inr resp, g') \<and>
     sessions_visible (gw_sessions g')"
proof -
  let ?rq = "\<lparr>hr_method = POST, hr_path = ''/api/v1/login'', hr_headers = [], hr_body = [1]\<rparr>"
  obtain r g' where r: "router sample_deployment sample_body_lib True ?rq sample_gateway = (r, g')" by fastforce
  have "rejections_ok sample_body_lib" by (simp add: rejections_ok_def sample_body_lib_def not_500_def plain_def)
  moreover have "sessions_visible (gw_sessions sample_gateway)" by (simp add: sessions_visible_def sample_gateway_def)
  moreover have "others_visible (dp_genv sample_deployment)"
    by (simp add: others_visible_def gcalmD [OF sample_genv_calm])
  ultimately show ?thesis
    using gateway_answers [OF _ _ _ _ _ r, of login_json] r sample_http_ok hex64_ok by auto
qed

text \<open>Every response carries each security header exactly once with its fixed value, whatever
  the request, the route and the outcome, errors and unknown paths included.\<close>
lemma security_headers_once:
  assumes "router D B b rq g = (Inr r, g')" and "(name, value) \<in> set security_headers"
  shows "filter (\<lambda>h. fst h = name) (hp_headers r) = [(name, value)]"
proof -
  obtain r0 where "r = fold override_header security_headers r0"
    using assms(1) by (auto simp: router_def andThen_Inr_iff ret_def)
  moreover have "distinct (map fst security_headers)" by (simp add: security_headers_def)
  ultimately show ?thesis using override_present [OF _ assms(2)] by simp
qed

section \<open>Errors of the identity service over HTTP\<close>

text \<open>The rate limit of the identity service is reported as a server error.\<close>

lemma rate_limit_is_server_error:
  "error_response (Grpc (resend_status RateLimited)) = plain 500 (Error_Json internal_message)"
  by (simp add: error_response_def mk_status_def)

section \<open>The channel\<close>

text \<open>
  Without other tasks in between, \<open>client\<close> keeps the connection while the sequence number is the one
  it was made at, replaces it after a rotation, and where the reconnection fails keeps the old
  state, so that the next call tries again.
\<close>

lemma channel_follows_rotation:
  assumes "\<And>t ch. ge_rebuilt G t ch = ch" and "identity_client G g = (r, g')"
  shows "(if ge_svid_seq G (gw_tick g) = ic_created_seq (gw_channel g)
     then r = Inr (ic_connection (gw_channel g)) \<and> gw_channel g' = gw_channel g
     else if ge_connect G (gw_tick g + 2)
     then r = Inr (gw_tick g + 2) \<and>
       gw_channel g' = \<lparr>ic_created_seq = ge_svid_seq G (gw_tick g), ic_connection = gw_tick g + 2\<rparr>
     else r = Inl (Err Channel_Transport) \<and> gw_channel g' = gw_channel g)"
  using assms(2)
  by (auto simp: identity_client_def load_created_seq_def andThen_def gask_def Let_def lock_channel_def
      connect_channel_def store_channel_def ret_def assms(1) split: if_splits)

text \<open>Starting a gateway empties the session table.\<close>

lemma connect_drops_sessions:
  assumes "connect_store G g = (Inr (), g')" and "\<And>t tbl. ge_others G t tbl = tbl"
  shows "gw_sessions g' = (\<lambda>_. None)"
  using assms(1)
  by (auto simp: connect_store_def create_schema_def andThen_Inr_iff scylla_Inr_iff assms(2))

end
