(* ===== verification/Web_Props.thy ===== *)
theory Web_Props
  imports Web_Proxy Gateway_Props "HOL-Library.Sublist"
begin

text \<open>
  What the reverse proxy does to requests and responses, and the web server and the gateway taken
  together: a client of the web server talks to the gateway's router.
\<close>

section \<open>Forwarded headers\<close>

lemma filter_name_kept:
  "\<not> is_dropped_request_header n \<Longrightarrow>
     filter (\<lambda>h. fst h = n) (filter (\<lambda>(name, _). \<not> is_dropped_request_header name) hs) = filter (\<lambda>h. fst h = n) hs"
  by (induction hs) auto

lemma filter_name_dropped:
  "is_dropped_request_header n \<Longrightarrow>
     filter (\<lambda>h. fst h = n) (filter (\<lambda>(name, _). \<not> is_dropped_request_header name) hs) = []"
  by (induction hs) auto

lemma map_of_kept:
  "\<not> is_dropped_request_header n \<Longrightarrow>
     map_of (filter (\<lambda>(name, _). \<not> is_dropped_request_header name) hs) n = map_of hs n"
  by (induction hs) auto

lemma forwarded_host_names: "h \<in> set (forwarded_host hs) \<Longrightarrow> fst h = ''x-forwarded-host''"
  by (auto simp: forwarded_host_def split: option.splits)

lemma map_of_forwarded:
  assumes "\<not> is_dropped_request_header n"
  shows "map_of (forwarded_headers H ip hs @ extra) n = (case map_of hs n of Some v \<Rightarrow> Some v | None \<Rightarrow> map_of extra n)"
proof -
  from assms have n: "n \<noteq> ''x-forwarded-for''" "n \<noteq> ''x-forwarded-proto''" "n \<noteq> ''x-forwarded-host''"
    by (auto simp: is_dropped_request_header_def)
  then have "map_of (forwarded_host hs) n = None"
    using forwarded_host_names [of _ hs] by (auto simp: map_of_eq_None_iff)
  with n show ?thesis
    by (simp add: forwarded_headers_def map_of_kept [OF assms] map_add_def split: option.split)
qed

section \<open>What the gateway's router reads of the headers\<close>

text \<open>\<open>axum::Json\<close> looks at the content type only.\<close>

definition content_type_only :: "body_lib \<Rightarrow> bool" where
  "content_type_only B \<longleftrightarrow>
     (\<forall>hs hs'. map_of hs ''content-type'' = map_of hs' ''content-type'' \<longrightarrow>
        bl_json_content_type B hs = bl_json_content_type B hs')"

lemma router_reads:
  assumes "content_type_only B" and "map_of hs' ''cookie'' = map_of hs ''cookie''"
    and "map_of hs' ''content-type'' = map_of hs ''content-type''"
  shows "router D B b \<lparr>hr_method = m, hr_path = path, hr_headers = hs', hr_body = body\<rparr> =
    router D B b \<lparr>hr_method = m, hr_path = path, hr_headers = hs, hr_body = body\<rparr>"
proof -
  let ?rq = "\<lambda>hs. \<lparr>hr_method = m, hr_path = path, hr_headers = hs, hr_body = body\<rparr>"
  note hr_proj = http_request.select_convs
  have "extract_session_cookie H hs' = extract_session_cookie H hs" for H
    by (simp add: extract_session_cookie_def assms(2))
  then have auth: "auth_session L H G hs' = auth_session L H G hs" for L :: "'a libs" and H G
    unfolding auth_session_def by simp
  have type: "bl_json_content_type B hs' = bl_json_content_type B hs"
    using assms(1,3) unfolding content_type_only_def by blast
  have body: "with_body B decode (?rq hs') = with_body B decode (?rq hs)"
    for decode :: "bytes \<Rightarrow> http_response + 'b"
    by (intro ext) (simp only: with_body_def hr_proj type)
  have "run_endpoint D B ep (?rq hs') = run_endpoint D B ep (?rq hs)" for ep
    by (cases ep) (simp_all only: run_endpoint.simps hr_proj auth body)
  then show ?thesis
    by (intro ext) (simp only: router_def dispatch_def hr_proj)
qed

section \<open>The web server in front of the gateway\<close>

text \<open>
  A gateway reached over \<open>reqwest\<close>: \<open>resolve\<close> yields the path that the gateway sees for a URL, \<open>extra\<close>
  the headers that the client library adds. A handler that panics drops the connection.
\<close>

definition to_gateway ::
    "'kp deployment \<Rightarrow> body_lib \<Rightarrow> bool \<Rightarrow> (string \<Rightarrow> string option) \<Rightarrow> headers \<Rightarrow> gateway sender" where
  "to_gateway D B b resolve extra fr g =
     (case resolve (fr_url fr) of
        None \<Rightarrow> (None, g)
      | Some path \<Rightarrow>
          (case router D B b
             \<lparr>hr_method = fr_method fr, hr_path = path, hr_headers = fr_headers fr @ extra,
              hr_body = (case fr_body fr of Some body \<Rightarrow> body | None \<Rightarrow> [])\<rparr> g of
             (Inr r, g') \<Rightarrow>
               (Some \<lparr>up_status = hp_status r, up_headers = hp_headers r, up_body = Some (hp_body r)\<rparr>, g')
           | (Inl _, g') \<Rightarrow> (None, g')))"

text \<open>The gateway's answer as the web server passes it on.\<close>

definition passed_on :: "http_response \<Rightarrow> http_response" where
  "passed_on r = fold override_header web_security_headers
     (relayed \<lparr>up_status = hp_status r, up_headers = hp_headers r, up_body = Some (hp_body r)\<rparr>)"

definition bad_gateway :: http_response where
  "bad_gateway = fold override_header web_security_headers (plain 502 No_Body)"

lemma passed_on_simps: "hp_status (passed_on r) = hp_status r" "hp_body (passed_on r) = hp_body r"
  by (simp_all add: passed_on_def relayed_def)

lemma proxy_to_gateway:
  assumes "content_type_only B" and "\<forall>h \<in> set extra. fst h \<notin> {''cookie'', ''content-type''}"
    and "resolve (proxy_url S rest q) = Some path" and "length body \<le> MAX_BODY_SIZE"
  shows "proxy_handler H S (to_gateway D B b resolve extra) ip
      \<lparr>pr_method = m, pr_path = rest, pr_query = q, pr_headers = hs, pr_body = Some body\<rparr> g =
    (case router D B b \<lparr>hr_method = m, hr_path = path, hr_headers = hs, hr_body = body\<rparr> g of
       (Inr r, g') \<Rightarrow>
         (relayed \<lparr>up_status = hp_status r, up_headers = hp_headers r, up_body = Some (hp_body r)\<rparr>, g')
     | (Inl _, g') \<Rightarrow> (plain 502 No_Body, g'))"
proof -
  have kept: "map_of (forwarded_headers H ip hs @ extra) n = map_of hs n" if "n \<in> {''cookie'', ''content-type''}" for n
  proof -
    have "\<not> is_dropped_request_header n" using that by (auto simp: is_dropped_request_header_def)
    moreover have "map_of extra n = None" using that assms(2) by (auto simp: map_of_eq_None_iff)
    ultimately show ?thesis by (simp add: map_of_forwarded del: map_of_append split: option.split)
  qed
  have "router D B b \<lparr>hr_method = m, hr_path = path, hr_headers = forwarded_headers H ip hs @ extra, hr_body = body\<rparr> =
      router D B b \<lparr>hr_method = m, hr_path = path, hr_headers = hs, hr_body = body\<rparr>"
    by (rule router_reads [OF assms(1)]) (simp_all only: kept insert_iff simp_thms)
  moreover have "(case if body \<noteq> [] then Some body else None of Some b \<Rightarrow> b | None \<Rightarrow> []) = body" by simp
  ultimately show ?thesis
    using assms(3,4)
    by (simp add: proxy_handler_def to_gateway_def Let_def split: prod.split sum.split)
qed

text \<open>C13. The web server is transparent: for a request below \<open>/api/v1\<close> with a body of at most the limit, whose URL the
  client library resolves to the same path, the client gets from the web server what the gateway's
  router answers to the same method, path, headers and body (status, body and all headers that are
  not hop-by-hop, after the web server's own), and the session store, the channel and the identity
  service end in the same state; where the gateway's handler panics it gets 502.\<close>
theorem web_is_gateway:
  assumes "content_type_only B" and "\<forall>h \<in> set extra. fst h \<notin> {''cookie'', ''content-type''}"
    and "proxied_path path = Some rest" and "resolve (proxy_url S rest q) = Some path"
    and "length body \<le> MAX_BODY_SIZE"
  shows "web_router H S (to_gateway D B b resolve extra) pages ip
      \<lparr>pr_method = m, pr_path = path, pr_query = q, pr_headers = hs, pr_body = Some body\<rparr> g =
    (case router D B b \<lparr>hr_method = m, hr_path = path, hr_headers = hs, hr_body = body\<rparr> g of
       (Inr r, g') \<Rightarrow> (passed_on r, g')
     | (Inl _, g') \<Rightarrow> (bad_gateway, g'))"
  using proxy_to_gateway [where H = H and S = S and q = q and ip = ip and m = m and hs = hs and D = D and b = b and g = g
      and resolve = resolve and rest = rest and path = path, OF assms(1,2,4,5)]
  by (simp add: web_router_def assms(3) passed_on_def bad_gateway_def split: prod.split sum.split)

definition sample_resolve :: "string \<Rightarrow> string option" where
  "sample_resolve url = map_option (takeWhile (\<lambda>c. c \<noteq> CHR ''?'')) (strip_prefix ''http://g'' url)"

theorem web_is_gateway_witness:
  "\<exists>r g'. web_router sample_http (api_proxy ''http://g/'')
       (to_gateway sample_deployment sample_body_lib True sample_resolve [(''accept'', ''*/*'')]) (\<lambda>_ g. (plain 200 No_Body, g))
       ''10.0.0.1'' \<lparr>pr_method = GET, pr_path = ''/api/v1/userinfo'', pr_query = Some ''x=1'', pr_headers = [(''host'', ''h'')],
         pr_body = Some []\<rparr> sample_gateway = (r, g') \<and> hp_status r = 401"
proof -
  let ?S = "api_proxy ''http://g/''"
  have B: "content_type_only sample_body_lib"
    by (simp add: content_type_only_def sample_body_lib_def)
  have extra: "\<forall>h \<in> set [(''accept'', ''*/*'')]. fst h \<notin> {''cookie'', ''content-type''}" by simp
  have path: "proxied_path ''/api/v1/userinfo'' = Some ''/userinfo''"
    by (simp add: proxied_path_def strip_prefix_def)
  have url: "sample_resolve (proxy_url ?S ''/userinfo'' (Some ''x=1'')) = Some ''/api/v1/userinfo''"
    by (simp add: sample_resolve_def proxy_url_def api_proxy_def strip_prefix_def)
  have len: "length ([] :: bytes) \<le> MAX_BODY_SIZE" by simp
  let ?rq = "\<lparr>hr_method = GET, hr_path = ''/api/v1/userinfo'', hr_headers = [(''host'', ''h'')], hr_body = []\<rparr>"
  obtain r g' where r: "router sample_deployment sample_body_lib True ?rq sample_gateway = (Inr r, g')" "hp_status r = 401"
    by (simp add: router_def dispatch_def find_route_user_info method_allowed_def andThen_def respond_def ret_def
        auth_session_def extract_session_cookie_def pureR_def error_response_def)
  from web_is_gateway [where H = sample_http and D = sample_deployment and b = True and ip = "''10.0.0.1''" and m = GET
      and resolve = sample_resolve and hs = "[(''host'', ''h'')]" and g = sample_gateway and pages = "\<lambda>_ g. (plain 200 No_Body, g)", OF B extra path url len] r
  show ?thesis by (simp add: passed_on_simps)
qed

text \<open>C37. What the gateway receives: a request whose body fits is sent with its method and body, whatever
  becomes of it, and these headers. Of every name but the ones below, the client's values reach the
  gateway unchanged and in order. Hop-by-hop headers, the content length and the host are dropped.
  There is exactly one \<open>x-forwarded-for\<close>: the client's first value, if it had one, followed by the
  client's address; exactly one \<open>x-forwarded-proto\<close>, the client's first value or else \<open>https\<close>; and an
  \<open>x-forwarded-host\<close> where the client named one, or else where it sent a host.\<close>
theorem proxied_request_headers:
  assumes "pr_body rq = Some body" and "length body \<le> 1048576"
  shows "\<exists>req. (\<forall>send g. proxy_handler H S send ip rq g =
       (case send req g of (Some resp, g') \<Rightarrow> (relayed resp, g') | (None, g') \<Rightarrow> (plain 502 No_Body, g'))) \<and>
     fr_method req = pr_method rq \<and> fr_body req = (if body = [] then None else Some body) \<and>
     (\<forall>n. filter (\<lambda>h. fst h = n) (fr_headers req) =
       (if n = ''x-forwarded-for''
        then [(n, case map_of (pr_headers rq) n of None \<Rightarrow> ip
                    | Some v \<Rightarrow> (case hl_to_str H v of Some s \<Rightarrow> s | None \<Rightarrow> []) @ '', '' @ ip)]
        else if n = ''x-forwarded-proto''
        then [(n, case map_of (pr_headers rq) n of None \<Rightarrow> ''https'' | Some v \<Rightarrow> v)]
        else if n = ''x-forwarded-host''
        then (case map_of (pr_headers rq) n of Some v \<Rightarrow> [(n, v)]
              | None \<Rightarrow> (case map_of (pr_headers rq) ''host'' of Some v \<Rightarrow> [(n, v)] | None \<Rightarrow> []))
        else if n \<in> {''connection'', ''te'', ''trailer'', ''transfer-encoding'', ''upgrade'', ''keep-alive'',
          ''proxy-authenticate'', ''proxy-authorization'', ''content-length'', ''host''} then []
        else filter (\<lambda>h. fst h = n) (pr_headers rq)))"
proof -
  let ?hs = "pr_headers rq"
  have host: "filter (\<lambda>h. fst h = n) (forwarded_host ?hs) = (if n = ''x-forwarded-host'' then forwarded_host ?hs else [])" for n
    using forwarded_host_names [of _ ?hs] by (auto simp: filter_id_conv filter_empty_conv)
  have own: "is_dropped_request_header ''x-forwarded-for''" "is_dropped_request_header ''x-forwarded-proto''"
    "is_dropped_request_header ''x-forwarded-host''"
    by (simp_all add: is_dropped_request_header_def)
  have "filter (\<lambda>h. fst h = n) (filter (\<lambda>(name, _). \<not> is_dropped_request_header name) ?hs) =
      (if is_dropped_request_header n then [] else filter (\<lambda>h. fst h = n) ?hs)" for n
    by (cases "is_dropped_request_header n") (simp_all add: filter_name_kept filter_name_dropped del: filter_filter)
  then have headers: "filter (\<lambda>h. fst h = n) (forwarded_headers H ip ?hs) =
     (if n = ''x-forwarded-for'' then [(n, forwarded_for H ip ?hs)]
      else if n = ''x-forwarded-proto'' then [(n, forwarded_proto ?hs)]
      else if n = ''x-forwarded-host'' then forwarded_host ?hs
      else if is_dropped_request_header n then []
      else filter (\<lambda>h. fst h = n) ?hs)" for n
    using own host by (auto simp: forwarded_headers_def)
  let ?req = "\<lparr>fr_method = pr_method rq, fr_url = proxy_url S (pr_path rq) (pr_query rq),
    fr_headers = forwarded_headers H ip ?hs, fr_body = (if body \<noteq> [] then Some body else None)\<rparr>"
  show ?thesis
  proof (intro exI [of _ ?req] conjI allI)
    show "proxy_handler H S send ip rq g =
        (case send ?req g of (Some resp, g') \<Rightarrow> (relayed resp, g') | (None, g') \<Rightarrow> (plain 502 No_Body, g'))" for send g
      using assms by (simp add: proxy_handler_def MAX_BODY_SIZE_def Let_def)
    show "filter (\<lambda>h. fst h = n) (fr_headers ?req) =
       (if n = ''x-forwarded-for''
        then [(n, case map_of ?hs n of None \<Rightarrow> ip
                    | Some v \<Rightarrow> (case hl_to_str H v of Some s \<Rightarrow> s | None \<Rightarrow> []) @ '', '' @ ip)]
        else if n = ''x-forwarded-proto''
        then [(n, case map_of ?hs n of None \<Rightarrow> ''https'' | Some v \<Rightarrow> v)]
        else if n = ''x-forwarded-host''
        then (case map_of ?hs n of Some v \<Rightarrow> [(n, v)]
              | None \<Rightarrow> (case map_of ?hs ''host'' of Some v \<Rightarrow> [(n, v)] | None \<Rightarrow> []))
        else if n \<in> {''connection'', ''te'', ''trailer'', ''transfer-encoding'', ''upgrade'', ''keep-alive'',
          ''proxy-authenticate'', ''proxy-authorization'', ''content-length'', ''host''} then []
        else filter (\<lambda>h. fst h = n) ?hs)" for n
      by (auto simp: headers forwarded_for_def forwarded_proto_def forwarded_host_def is_dropped_request_header_def
          split: option.split)
  qed simp_all
qed

theorem proxied_request_headers_witness:
  "\<exists>req. (\<forall>send g. fst (proxy_handler sample_http (api_proxy ''http://g/'') send ''10.0.0.1''
       \<lparr>pr_method = POST, pr_path = ''/auth/login'', pr_query = None, pr_headers = [(''te'', ''trailers''), (''cookie'', ''a=b''),
          (''x-forwarded-for'', ''8.8.8.8''), (''host'', ''h'')], pr_body = Some [1, 2]\<rparr> (g :: nat)) =
       (case send req g of (Some resp, g') \<Rightarrow> relayed resp | (None, g') \<Rightarrow> plain 502 No_Body)) \<and>
     filter (\<lambda>h. fst h = ''cookie'') (fr_headers req) = [(''cookie'', ''a=b'')] \<and>
     filter (\<lambda>h. fst h = ''te'') (fr_headers req) = [] \<and>
     filter (\<lambda>h. fst h = ''x-forwarded-for'') (fr_headers req) = [(''x-forwarded-for'', ''8.8.8.8, 10.0.0.1'')] \<and>
     filter (\<lambda>h. fst h = ''x-forwarded-host'') (fr_headers req) = [(''x-forwarded-host'', ''h'')]"
proof -
  let ?rq = "\<lparr>pr_method = POST, pr_path = ''/auth/login'', pr_query = None, pr_headers = [(''te'', ''trailers''),
    (''cookie'', ''a=b''), (''x-forwarded-for'', ''8.8.8.8''), (''host'', ''h'')], pr_body = Some [1, 2]\<rparr>"
  have body: "pr_body ?rq = Some [1, 2]" "length [1, 2 :: byte] \<le> 1048576" by simp_all
  obtain req where req: "\<forall>send (g :: nat). proxy_handler sample_http (api_proxy ''http://g/'') send ''10.0.0.1'' ?rq g =
       (case send req g of (Some resp, g') \<Rightarrow> (relayed resp, g') | (None, g') \<Rightarrow> (plain 502 No_Body, g'))"
    and hs: "\<forall>n. filter (\<lambda>h. fst h = n) (fr_headers req) =
       (if n = ''x-forwarded-for''
        then [(n, case map_of (pr_headers ?rq) n of None \<Rightarrow> ''10.0.0.1''
                    | Some v \<Rightarrow> (case hl_to_str sample_http v of Some s \<Rightarrow> s | None \<Rightarrow> []) @ '', '' @ ''10.0.0.1'')]
        else if n = ''x-forwarded-proto''
        then [(n, case map_of (pr_headers ?rq) n of None \<Rightarrow> ''https'' | Some v \<Rightarrow> v)]
        else if n = ''x-forwarded-host''
        then (case map_of (pr_headers ?rq) n of Some v \<Rightarrow> [(n, v)]
              | None \<Rightarrow> (case map_of (pr_headers ?rq) ''host'' of Some v \<Rightarrow> [(n, v)] | None \<Rightarrow> []))
        else if n \<in> {''connection'', ''te'', ''trailer'', ''transfer-encoding'', ''upgrade'', ''keep-alive'',
          ''proxy-authenticate'', ''proxy-authorization'', ''content-length'', ''host''} then []
        else filter (\<lambda>h. fst h = n) (pr_headers ?rq))"
    using proxied_request_headers [OF body, where H = sample_http and S = "api_proxy ''http://g/''" and ip = "''10.0.0.1''"]
    by blast
  have "visible ''8.8.8.8''" by code_simp
  then show ?thesis
    using req by (intro exI [of _ req]) (simp add: hs sample_http_def split: prod.split option.split)
qed

text \<open>A response of the gateway reaches the client with a second content type.\<close>

lemma content_type_twice:
  "filter (\<lambda>h. fst h = ''content-type'') (hp_headers (passed_on (plain st (Error_Json m)))) =
     [(''content-type'', ''application/octet-stream''), (''content-type'', ''application/json'')]"
proof -
  have "''content-type'' \<notin> fst ` set web_security_headers" by (simp add: web_security_headers_def)
  from override_untouched [OF this] show ?thesis
    by (simp add: passed_on_def relayed_def is_hop_by_hop_response_def)
qed

text \<open>A response whose body is lost on the way keeps its status and gets an empty body.\<close>

lemma lost_body_passes:
  assumes "send \<lparr>fr_method = pr_method rq, fr_url = proxy_url S (pr_path rq) (pr_query rq),
      fr_headers = forwarded_headers H ip (pr_headers rq), fr_body = None\<rparr> g =
      (Some \<lparr>up_status = 200, up_headers = hs, up_body = None\<rparr>, g')" and "pr_body rq = Some []"
  shows "\<exists>r. proxy_handler H S send ip rq g = (r, g') \<and> hp_status r = 200 \<and> hp_body r = No_Body"
  using assms by (simp add: proxy_handler_def relayed_def)

end
