(* ===== verification/Web_Pages.thy ===== *)
theory Web_Pages
  imports Web_Props
begin

text \<open>
  What the pages of the web server decide beside their markup (\<open>services/web/src/app.rs\<close>, \<open>pages/\<close>,
  \<open>components/\<close>): which page a path shows, the forms and where they are sent, the content security
  policy, and the variants of alerts and buttons. It ends with what a visitor can do with them.
\<close>

section \<open>Pages and their routes\<close>

datatype page = HomePage | LoginPage | SignUpPage | NotFoundPage

text \<open>\<open>Routes\<close> in \<open>App\<close>: three static segments and a fallback; a trailing slash does not matter.\<close>

definition app_page :: "string \<Rightarrow> page" where
  "app_page path =
     (let p = trim_end_slash path
      in if p = [] then HomePage
         else if p = ''/login'' then LoginPage
         else if p = ''/sign-up'' then SignUpPage
         else NotFoundPage)"

section \<open>Forms\<close>

record form_input =
  fi_name :: string
  fi_type :: string
  fi_required :: bool

record page_form =
  pf_method :: string
  pf_action :: string
  pf_inputs :: "form_input list"

text \<open>\<open>Input\<close>: the type is \<open>text\<close> where none is given.\<close>

definition input_field :: "string \<Rightarrow> string option \<Rightarrow> bool \<Rightarrow> form_input" where
  "input_field name type must =
     \<lparr>fi_name = name, fi_type = (case type of Some t \<Rightarrow> t | None \<Rightarrow> ''text''), fi_required = must\<rparr>"

definition login_form :: page_form where
  "login_form = \<lparr>pf_method = ''post'', pf_action = ''/api/v1/login'',
     pf_inputs = [input_field ''email'' (Some ''email'') True,
                  input_field ''password'' (Some ''password'') True]\<rparr>"

definition sign_up_form :: page_form where
  "sign_up_form = \<lparr>pf_method = ''post'', pf_action = ''/api/v1/sign-up'',
     pf_inputs = [input_field ''username'' None True,
                  input_field ''email'' (Some ''email'') True,
                  input_field ''password'' (Some ''password'') True]\<rparr>"

fun form_of :: "page \<Rightarrow> page_form option" where
  "form_of LoginPage = Some login_form"
| "form_of SignUpPage = Some sign_up_form"
| "form_of _ = None"

section \<open>Content security policy\<close>

text \<open>A word in single quotes.\<close>

definition quoted :: "string \<Rightarrow> string" where
  "quoted s = CHR 0x27 # s @ [CHR 0x27]"

definition connect_src :: "bool \<Rightarrow> string" where
  "connect_src debug_assertions =
     (if debug_assertions
      then ''connect-src '' @ quoted ''self'' @ '' ws://localhost:3001 ws://127.0.0.1:3001''
      else ''connect-src '' @ quoted ''self'')"

definition csp :: "bool \<Rightarrow> string \<Rightarrow> string" where
  "csp debug_assertions nonce =
     ''default-src '' @ quoted ''self'' @ ''; '' @
     ''script-src '' @ quoted ''strict-dynamic'' @ '' '' @ quoted (''nonce-'' @ nonce) @ '' '' @
       quoted ''wasm-unsafe-eval'' @ ''; '' @
     ''style-src '' @ quoted ''self'' @ ''; '' @
     ''img-src '' @ quoted ''self'' @ ''; '' @
     ''font-src '' @ quoted ''self'' @ ''; '' @
     connect_src debug_assertions @ ''; '' @
     ''frame-ancestors '' @ quoted ''none'' @ ''; '' @
     ''base-uri '' @ quoted ''self'' @ ''; '' @
     ''form-action '' @ quoted ''self''"

text \<open>The header that a rendered page inserts, where there are a response and a nonce; \<open>valid\<close> is
  \<open>HeaderValue::from_str\<close>.\<close>

definition set_csp_header :: "(string \<Rightarrow> bool) \<Rightarrow> bool \<Rightarrow> bool \<Rightarrow> string option \<Rightarrow> unit exit + headers" where
  "set_csp_header valid debug_assertions response nonce =
     (case nonce of
        Some n \<Rightarrow>
          (if \<not> response then Inr []
           else if valid (csp debug_assertions n)
           then Inr [(''content-security-policy'', csp debug_assertions n)]
           else Inl Panic)
      | None \<Rightarrow> Inr [])"

section \<open>Components\<close>

datatype alert_variant = Alert_Info | Alert_Success | Alert_Warning | Alert_Error

fun alert_classes :: "alert_variant \<Rightarrow> string" where
  "alert_classes Alert_Info = ''border-border text-foreground''"
| "alert_classes Alert_Success = ''border-green-500/50 text-green-700 dark:text-green-400''"
| "alert_classes Alert_Warning = ''border-yellow-500/50 text-yellow-700 dark:text-yellow-400''"
| "alert_classes Alert_Error = ''border-destructive/50 text-destructive dark:text-red-400''"

fun alert_role :: "alert_variant \<Rightarrow> string" where
  "alert_role Alert_Info = ''status''"
| "alert_role Alert_Success = ''status''"
| "alert_role Alert_Warning = ''alert''"
| "alert_role Alert_Error = ''alert''"

datatype button_variant = Primary_Button | Secondary_Button | Outline_Button | Ghost_Button | Destructive_Button

datatype button_size = Button_Sm | Button_Md | Button_Lg

fun button_variant_classes :: "button_variant \<Rightarrow> string" where
  "button_variant_classes Primary_Button = ''bg-primary text-primary-foreground shadow hover:bg-primary/90''"
| "button_variant_classes Secondary_Button =
     ''bg-secondary text-secondary-foreground shadow-sm hover:bg-secondary/80''"
| "button_variant_classes Outline_Button =
     ''border border-input bg-background shadow-sm hover:bg-accent hover:text-accent-foreground''"
| "button_variant_classes Ghost_Button = ''hover:bg-accent hover:text-accent-foreground''"
| "button_variant_classes Destructive_Button =
     ''bg-destructive text-destructive-foreground shadow-sm hover:bg-destructive/90''"

fun button_size_classes :: "button_size \<Rightarrow> string" where
  "button_size_classes Button_Sm = ''h-8 rounded-md px-3 text-xs''"
| "button_size_classes Button_Md = ''h-9 rounded-md px-4 py-2 text-sm''"
| "button_size_classes Button_Lg = ''h-10 rounded-md px-8 text-base''"

lemma trim_directive:
  assumes "hd d \<in> set ''dsifcb''" and "last d \<in> {CHR 0x27, CHR ''1''}"
  shows "trim d = d"
proof -
  have "list_all (\<lambda>w. hd w \<notin> set ''dsifcb'' \<and> last w \<notin> {CHR 0x27, CHR ''1''}) white_space" by code_simp
  then have "hd d \<notin> hd ` set white_space" "last d \<notin> last ` set white_space"
    using assms by (fastforce simp only: list_all_iff)+
  then show ?thesis by (intro trim_id disjI2 conjI)
qed

text \<open>The policy as a browser splits it: a nonce without a semicolon cannot add a directive, and no
  directive allows inline code or a host other than the site's own, but for the reload socket of
  a debug build.\<close>

lemma csp_directives:
  assumes "CHR '';'' \<notin> set nonce"
  shows "map trim (split_on CHR '';'' (csp debug nonce)) =
    [''default-src '' @ quoted ''self'',
     ''script-src '' @ quoted ''strict-dynamic'' @ '' '' @ quoted (''nonce-'' @ nonce) @ '' '' @ quoted ''wasm-unsafe-eval'',
     ''style-src '' @ quoted ''self'', ''img-src '' @ quoted ''self'', ''font-src '' @ quoted ''self'',
     connect_src debug, ''frame-ancestors '' @ quoted ''none'', ''base-uri '' @ quoted ''self'',
     ''form-action '' @ quoted ''self'']"
proof -
  let ?ds = "[''default-src '' @ quoted ''self'',
     '' script-src '' @ quoted ''strict-dynamic'' @ '' '' @ quoted (''nonce-'' @ nonce) @ '' '' @ quoted ''wasm-unsafe-eval'',
     '' style-src '' @ quoted ''self'', '' img-src '' @ quoted ''self'', '' font-src '' @ quoted ''self'',
     CHR '' '' # connect_src debug, '' frame-ancestors '' @ quoted ''none'', '' base-uri '' @ quoted ''self'',
     '' form-action '' @ quoted ''self'']"
    and ?es = "[''default-src '' @ quoted ''self'',
     ''script-src '' @ quoted ''strict-dynamic'' @ '' '' @ quoted (''nonce-'' @ nonce) @ '' '' @ quoted ''wasm-unsafe-eval'',
     ''style-src '' @ quoted ''self'', ''img-src '' @ quoted ''self'', ''font-src '' @ quoted ''self'',
     connect_src debug, ''frame-ancestors '' @ quoted ''none'', ''base-uri '' @ quoted ''self'',
     ''form-action '' @ quoted ''self'']"
  have "csp debug nonce = join_with CHR '';'' ?ds" by (simp add: csp_def)
  moreover have "split_on CHR '';'' (join_with CHR '';'' ?ds) = ?ds"
    by (rule split_on_join_with) (use assms in \<open>simp_all add: quoted_def connect_src_def\<close>)
  moreover have "map trim ?ds = map trim ?es" by (simp add: trim_space)
  moreover have "map trim ?es = ?es"
  proof (rule map_idI)
    fix d assume "d \<in> set ?es"
    moreover have "list_all (\<lambda>d. hd d \<in> set ''dsifcb'' \<and> last d \<in> {CHR 0x27, CHR ''1''}) ?es"
      by (cases debug) (simp_all add: quoted_def connect_src_def)
    ultimately have "hd d \<in> set ''dsifcb'' \<and> last d \<in> {CHR 0x27, CHR ''1''}" unfolding list_all_iff by blast
    then show "trim d = d" by (intro trim_directive) simp_all
  qed
  ultimately show ?thesis by simp
qed

section \<open>What a visitor can do\<close>

text \<open>A submitted form, as browsers encode it: the fields as the body, under a content type that is
  not JSON.\<close>

definition submission :: "page_form \<Rightarrow> headers \<Rightarrow> bytes \<Rightarrow> proxy_request" where
  "submission f hs body = \<lparr>pr_method = (if pf_method f = ''post'' then POST else GET),
     pr_path = pf_action f, pr_query = None, pr_headers = hs, pr_body = Some body\<rparr>"

lemma find_route_forms:
  "find_route True ''/api/v1/login'' = Some (POST, Ep_Login)"
  "find_route True ''/api/v1/sign-up'' = Some (POST, Ep_Sign_Up)"
  by (simp_all add: find_route_def routes_def)

lemma proxied_path_forms:
  "proxied_path ''/api/v1/login'' = Some ''/login''" "proxied_path ''/api/v1/sign-up'' = Some ''/sign-up''"
  by (simp_all add: proxied_path_def strip_prefix_def)

lemma form_routes:
  assumes "form_of pg = Some f"
  shows "\<exists>ep. find_route True (pf_action f) = Some (POST, ep) \<and> ep \<in> {Ep_Login, Ep_Sign_Up}"
    and "pf_method f = ''post''" and "\<exists>rest. proxied_path (pf_action f) = Some rest"
  using assms
  by (cases pg; auto simp: login_form_def sign_up_form_def find_route_forms proxied_path_forms)+

lemma gateway_refuses_form:
  assumes "form_of pg = Some f" and "\<not> bl_json_content_type B hs"
  shows "\<exists>r. router D B True \<lparr>hr_method = POST, hr_path = pf_action f, hr_headers = hs, hr_body = body\<rparr> g = (Inr r, g) \<and>
    hp_status r = 415"
proof -
  obtain ep where "find_route True (pf_action f) = Some (POST, ep)" "ep \<in> {Ep_Login, Ep_Sign_Up}"
    using form_routes(1) [OF assms(1)] by blast
  then show ?thesis
    using assms(2)
    by (auto simp: router_def dispatch_def method_allowed_def andThen_def respond_def with_body_def ret_def)
qed

text \<open>C40. The pages lead nowhere: whatever a visitor enters, submitting the form of the login or of the
  sign-up page is answered with 415 and changes nothing, since browsers do not send forms as JSON;
  and the link in a verification mail, relative to the web server that it names, is neither proxied
  nor the path of a page, so it shows the not-found page.\<close>
theorem pages_lead_nowhere:
  assumes "content_type_only B" and "\<forall>h \<in> set extra. fst h \<notin> {''cookie'', ''content-type''}"
    and "form_of (app_page p) = Some f" and "\<not> bl_json_content_type B hs" and "length body \<le> MAX_BODY_SIZE"
    and "\<forall>rest. proxied_path (pf_action f) = Some rest \<longrightarrow> resolve (proxy_url S rest None) = Some (pf_action f)"
  shows "(\<exists>r. web_router H S (to_gateway D B True resolve extra) pages ip (submission f hs body) g = (r, g) \<and>
      hp_status r = 415) \<and>
    (\<exists>path vm. em_payload (verification_event L url oid em name tr sp at tok) = Some (EmailVerification vm) \<and>
      vm_verification_link vm = url @ path @ ''?token='' @ tok \<and> proxied_path path = None \<and>
      app_page path = NotFoundPage)"
proof
  obtain rest where rest: "proxied_path (pf_action f) = Some rest" using form_routes(3) [OF assms(3)] by blast
  obtain r where r: "router D B True \<lparr>hr_method = POST, hr_path = pf_action f, hr_headers = hs, hr_body = body\<rparr> g = (Inr r, g)"
    "hp_status r = 415" using gateway_refuses_form [OF assms(3,4)] by blast
  show "\<exists>r. web_router H S (to_gateway D B True resolve extra) pages ip (submission f hs body) g = (r, g) \<and> hp_status r = 415"
    using proxy_to_gateway [where H = H and S = S and q = None and ip = ip and m = POST and hs = hs and D = D and b = True
        and g = g and resolve = resolve and rest = rest and path = "pf_action f", OF assms(1,2) _ assms(5)] assms(6) rest r
    by (simp add: web_router_def submission_def form_routes(2) [OF assms(3)] relayed_def append_headers_simps)
  show "\<exists>path vm. em_payload (verification_event L url oid em name tr sp at tok) = Some (EmailVerification vm) \<and>
      vm_verification_link vm = url @ path @ ''?token='' @ tok \<and> proxied_path path = None \<and> app_page path = NotFoundPage"
    by (rule exI [of _ "''/verify-email''"]) (simp add: verification_event_def proxied_path_def strip_prefix_def app_page_def)
qed

theorem pages_lead_nowhere_witness:
  "\<exists>r. web_router sample_http (api_proxy ''http://g'')
       (to_gateway sample_deployment
         (sample_body_lib\<lparr>bl_json_content_type := (\<lambda>hs. map_of hs ''content-type'' = Some ''application/json'')\<rparr>)
         True sample_resolve []) (\<lambda>_ g. (plain 200 No_Body, g)) ''10.0.0.1''
       (submission login_form [(''content-type'', ''application/x-www-form-urlencoded'')] (as_bytes ''email=a%40b.c''))
       sample_gateway = (r, sample_gateway) \<and> hp_status r = 415"
proof -
  let ?B = "sample_body_lib\<lparr>bl_json_content_type := (\<lambda>hs. map_of hs ''content-type'' = Some ''application/json'')\<rparr>"
    and ?hs = "[(''content-type'', ''application/x-www-form-urlencoded'')]"
  have B: "content_type_only ?B" by (simp add: content_type_only_def)
  have page: "form_of (app_page ''/login'') = Some login_form" by (simp add: app_page_def)
  have len: "length (as_bytes ''email=a%40b.c'') \<le> MAX_BODY_SIZE" by (simp add: MAX_BODY_SIZE_def)
  have url: "\<forall>rest. proxied_path (pf_action login_form) = Some rest \<longrightarrow>
      sample_resolve (proxy_url (api_proxy ''http://g'') rest None) = Some (pf_action login_form)"
    by (simp add: login_form_def proxied_path_forms sample_resolve_def proxy_url_def api_proxy_def strip_prefix_def)
  show ?thesis
    by (rule conjunct1 [OF pages_lead_nowhere [OF B _ page _ len url]]) simp_all
qed

end
