(* ===== verification/Account_Props.thy ===== *)
theory Account_Props
  imports No_Panic Sample_Identity
begin

text \<open>
  The properties of account changes, password storage, the signing-key bootstrap and of the service
  as a whole, with their witnesses on the sample deployment.
\<close>

section \<open>Passwords\<close>

text \<open>A password verifies against the hash stored for it, in both builds (Argon2id and the FIPS
  build's PBKDF2): whatever \<open>hash_password\<close> returns, \<open>verify_password\<close> accepts for that password.\<close>
lemma hash_then_verify:
  assumes "password_lib_ok L" and "hash_password L feature salt pw = Inr s"
  shows "verify_password L feature pw s = Inr ()"
  using assms by (rule verify_hash)

text \<open>The FIPS build accepts exactly the hashes with an iteration parameter, a salt and an output
  that PBKDF2 recomputes, whatever algorithm they name; in particular a hash without an iteration
  parameter, as Argon2 writes them, is never accepted and never a format error.\<close>
lemma fips_verify_exact:
  assumes "password_lib_ok L"
  shows "(verify_password L Fips_Feature pw s = Inr () \<longleftrightarrow>
      (\<exists>h k v i salt out. phc_parse L s = Some h \<and>
         List.find (\<lambda>(key, _). key = ''i'') (phc_params h) = Some (k, v) \<and> parse_decimal L v = Some i \<and>
         i \<noteq> 0 \<and> phc_salt h = Some salt \<and> phc_hash h = Some out \<and>
         pbkdf2_derive L i (as_bytes salt) (as_bytes pw) (length out) = out)) \<and>
    (\<forall>h. phc_parse L s = Some h \<and> ''i'' \<notin> fst ` set (phc_params h) \<longrightarrow>
       verify_password L Fips_Feature pw s = Inl VerificationFailed)"
proof (intro conjI allI impI)
  show "verify_password L Fips_Feature pw s = Inr () \<longleftrightarrow>
      (\<exists>h k v i salt out. phc_parse L s = Some h \<and>
         List.find (\<lambda>(key, _). key = ''i'') (phc_params h) = Some (k, v) \<and> parse_decimal L v = Some i \<and>
         i \<noteq> 0 \<and> phc_salt h = Some salt \<and> phc_hash h = Some out \<and>
         pbkdf2_derive L i (as_bytes salt) (as_bytes pw) (length out) = out)"
    by (auto simp: verify_password_def pbkdf2_verify_Inr_iff [OF assms])
  fix h assume "phc_parse L s = Some h \<and> ''i'' \<notin> fst ` set (phc_params h)"
  moreover from this have "List.find (\<lambda>(key, _). key = ''i'') (phc_params h) = None"
    by (auto simp: find_None_iff rev_image_eqI)
  ultimately show "verify_password L Fips_Feature pw s = Inl VerificationFailed"
    by (simp add: verify_password_def pbkdf2_verify_password_def)
qed

section \<open>Account changes\<close>

text \<open>C33. A successful password change was authorised and takes effect: the user as read was live and
  the current password verified; the stored hash of that user becomes one that the new password
  verifies against, one \<open>auth_email\<close> event tells the user, and nothing else changes.\<close>
theorem update_password_effect:
  assumes "libs_ok L" and "env_keeps (inv L) V" and "inv L (w_db w)"
    and "update_password L V i cur new w = (Inr (), w')"
  shows "\<exists>t1 t2 d1 d2 u h oid payload tr sp now.
    d1 = e_others V t1 (w_db w) \<and> d2 = e_others V t2 d1 \<and>
    u \<in> set (users d1) \<and> live u \<and> u_id u = i \<and>
    verify_password (l_password L) (l_feature L) cur (u_password_hash u) = Inr () \<and>
    verify_password (l_password L) (l_feature L) new h = Inr () \<and> 8 \<le> length new \<and> length new \<le> 128 \<and>
    w_db w' = add_rows [] [] [new_event oid i payload tr sp now] (set_password i h now d2)"
proof -
  from update_password_Inr [OF assms(2-4)] obtain t1 t2 u h salt oid payload tr sp now where *:
    "8 \<le> length new" "length new \<le> 128" "u \<in> set (users (e_others V t1 (w_db w)))" "live u" "u_id u = i"
    "verify_password (l_password L) (l_feature L) cur (u_password_hash u) = Inr ()"
    "hash_password (l_password L) (l_feature L) salt new = Inr h"
    "w_db w' = add_rows [] [] [new_event oid i payload tr sp now]
       (set_password i h now (e_others V t2 (e_others V t1 (w_db w))))"
    by blast
  have "verify_password (l_password L) (l_feature L) new h = Inr ()"
    by (rule verify_hash [OF libs_okD(6) [OF assms(1)] *(7)])
  with * show ?thesis by blast
qed

lemma sample_user_by_id:
  "get_user_by_id sample_env (Conn Primary) 1 (sample_world\<lparr>w_tick := t\<rparr>) =
     (Inr (Some (user_of sample_user)), sample_world\<lparr>w_tick := Suc t\<rparr>)"
proof -
  have "sql_user_by_id 1 now sample_db = Inr (Some sample_user, sample_db)" for now
    by (simp add: sql_user_by_id_def sample_db_def query_opt_def) (simp add: live_def sample_user_def)
  moreover have "valid_status (u_status sample_user)"
    using valid_status_as_str [of Active] by (simp add: sample_user_def)
  ultimately show ?thesis
    by (simp add: get_user_by_id_def andThen_def calm_exec [OF sample_env_calm] expect_user_valid sample_world_def)
qed

lemma sample_update_password:
  "\<exists>w'. update_password login_libs sample_env 1 ''password'' ''new-password'' sample_world = (Inr (), w')"
proof -
  have "\<exists>w2. transaction sample_env UPW_Db (\<lambda>tx.
       andThen (mapErr UPW_Db (exec sample_env tx (sql_update_password (\<lambda>s. s) 1 h))) (\<lambda>_.
       mapErr UPW_Outbox (insert_event sample_env tx oid ''user'' 1 ''auth_email'' p tr sp)))
       (sample_world\<lparr>w_tick := t\<rparr>) = (Inr (), w2)" for h oid p tr sp t
  proof -
    have "users_violation (\<lambda>s. s) (users sample_db) = None" using sample_db_inv by (simp add: db_inv_def)
    from sql_update_password_Inr_iff [OF this] show ?thesis
      by (auto simp: transaction_Inr_iff andThen_Inr_iff mapErr_Inr_iff exec_Inr_iff insert_event_tx_Inr_iff
          set_password_def sample_db_def outbox_violation_def)
  qed
  moreover have "validate_password ''new-password'' = Inr ()" by (simp add: validate_password_def)
  moreover have "\<exists>h. hash_password sample_password Argon2_Feature ''salt'' ''new-password'' = Inr h"
    by (simp add: hash_password_def sample_password_def)
  ultimately show ?thesis
    using sample_user_by_id
    by (auto simp: update_password_def andThen_Inr_iff pureR_Inr_iff mapErr_Inr_iff pool_get_Inr_iff
        ask_Inr_iff verify_password_blocking_Inr_iff hash_password_blocking_Inr_iff
        extract_trace_context_Inr_iff user_of_simps sample_pw Let_def)
qed

theorem update_password_effect_witness:
  "\<exists>w'. update_password login_libs sample_env 1 ''password'' ''new-password'' sample_world = (Inr (), w') \<and>
     length (outbox (w_db w')) = 1"
proof -
  obtain w' where s: "update_password login_libs sample_env 1 ''password'' ''new-password'' sample_world = (Inr (), w')"
    using sample_update_password by blast
  have "inv login_libs (w_db sample_world)" by (simp add: sample_db_inv)
  from update_password_effect [OF sample_libs_ok calm_keeps [OF sample_env_calm] this s] s
  show ?thesis by (auto simp: set_password_def sample_db_def)
qed



section \<open>Signing keys\<close>

text \<open>Bootstrapping the key store: where an active key exists \<open>ensure_signing_key\<close> changes nothing;
  where none does, it stores one active key whose wrapped private half unwraps under the same KEK
  and whose public half describes it.\<close>
lemma ensure_signing_key_effect:
  assumes "calm V" and "libs_ok L" and "\<forall>t n. e_rand V t NONCE_LEN = Some n \<longrightarrow> length n = NONCE_LEN"
    and "\<forall>t a. e_pkcs8 V t a \<noteq> Some []" and "ensure_signing_key L V Primary kek w = (Inr (), w')"
  shows "if newest_active (w_db w) \<noteq> None then w_db w' = w_db w
    else \<exists>row. sk_status row = ''active'' \<and> key_row_ok L kek row \<and>
      w_db w' = (w_db w)\<lparr>signing_keys := signing_keys (w_db w) @ [row]\<rparr>"
  using ensure_signing_key_noop [OF assms(1), of w L kek] ensure_signing_key_creates [OF assms(1-4) _ assms(5)]
    assms(5) by auto

section \<open>The service\<close>

text \<open>Every sequence of requests, whatever their outcome and whatever other replicas do that keep
  the invariant, leaves a database that satisfies it.\<close>
lemma serve_all_keeps_inv:
  assumes "env_keeps (inv L) V" and "inv L (w_db w)" and "serve_all (serve L V S) rqs w = (rs, w')"
  shows "inv L (w_db w')"
  using assms by (rule identity_server.serve_all_keeps)

text \<open>C24. In a release build no request makes a handler panic: on a database that satisfies the
  invariant, with other clients keeping it, every call ends in a response or a status.\<close>
theorem serve_no_panic:
  assumes "env_keeps (inv L) V" and "\<not> l_checks L" and "inv L (w_db w)"
  shows "fst (serve L V S rq w) \<noteq> Inl Panic"
  using safeD [OF safe_serve [OF assms(1,2)] assms(3)] by (metis prod.collapse)

theorem serve_no_panic_witness:
  "fst (serve (login_libs\<lparr>l_checks := False\<rparr>) sample_env \<lparr>is_db = database_pool_from_pool Primary,
       is_web_base_url = ''https://h'', is_kek = sample_kek\<rparr>
       (UserInfo \<lparr>rq_authorization = Some (Some ''Bearer x.y.z''), rq_message = ()\<rparr>) sample_world) \<noteq> Inl Panic"
  by (rule serve_no_panic [OF calm_keeps [OF sample_env_calm]]) (simp_all add: sample_libs_def sample_db_inv)

definition opaque :: "status \<Rightarrow> bool" where
  "opaque st \<longleftrightarrow> (st_code st = Internal \<longrightarrow>
     st_message st \<in> {''internal error'', ''failed to load signing keys'', ''clock error'',
       ''database error'', ''pool error'', ''serialization failed''})"

lemma opaque_statuses:
  "opaque (sign_up_status e1)" "opaque (login_status e2)" "opaque (user_info_status e3)"
  "opaque (verify_email_status e4)" "opaque (resend_status e5)" "opaque (get_jwks_status e6)"
  "opaque (update_profile_status e7)" "opaque (update_password_status e8)"
proof -
  show "opaque (sign_up_status e1)" by (cases e1) (simp_all add: opaque_def mk_status_def)
  show "opaque (login_status e2)" by (cases e2) (simp_all add: opaque_def mk_status_def)
  show "opaque (user_info_status e3)" by (cases e3) (simp_all add: opaque_def mk_status_def)
  show "opaque (verify_email_status e4)" by (cases e4) (simp_all add: opaque_def mk_status_def)
  show "opaque (resend_status e5)" by (cases e5) (simp_all add: opaque_def mk_status_def)
  show "opaque (get_jwks_status e6)" by (cases e6) (simp_all add: opaque_def mk_status_def)
  show "opaque (update_profile_status e7)" by (cases e7) (simp_all add: opaque_def mk_status_def)
  show "opaque (update_password_status e8)" by (cases e8) (simp_all add: opaque_def mk_status_def)
qed

lemma opaque_authenticate: "errs opaque (authenticate L V rq p)"
  unfolding authenticate_def
  by (intro errs_intros)
    (auto simp: opaque_def mk_status_def extract_bearer_token_def decode_jwt_header_def Let_def
      try_r_Inl_iff ok_or_Inl_iff)

lemma opaque_serve: "errs opaque (serve L V S rq)"
  by (cases rq; simp only: serve.simps handle_sign_up_def handle_login_def handle_user_info_def
      handle_verify_email_def handle_resend_verification_def handle_get_jwks_def
      handle_update_profile_def handle_update_password_def;
      intro errs_intros opaque_authenticate opaque_statuses)

text \<open>Failures stay opaque: a status with code \<open>Internal\<close> carries one of six fixed messages, so
  nothing of a database, pool, crypto or hashing error reaches the client.\<close>
lemma internal_errors_opaque:
  "serve L V S rq w = (Inl (Err st), w') \<longrightarrow> st_code st = Internal \<longrightarrow>
     st_message st \<in> {''internal error'', ''failed to load signing keys'', ''clock error'',
       ''database error'', ''pool error'', ''serialization failed''}"
  using errsD [OF opaque_serve] unfolding opaque_def by blast

text \<open>The timestamps of responses denote the instant exactly: seconds and nanoseconds recombine
  to it, and the nanoseconds are a valid fraction despite the cast to 32 bits.\<close>
lemma proto_timestamp_exact:
  "seconds (ts_seconds (proto_timestamp_of t)) + ts_nanos (proto_timestamp_of t) = t \<and>
   0 \<le> ts_nanos (proto_timestamp_of t) \<and> ts_nanos (proto_timestamp_of t) < 1000000000"
proof -
  have b: "0 \<le> subsec_nanos t" "subsec_nanos t < 1000000000"
    using subsec_nanos_bounds [of t] by (simp_all add: one_second_def)
  then have "sint (word_of_int (subsec_nanos t) :: 32 word) = subsec_nanos t"
    by (simp add: signed_of_int signed_take_bit_int_eq_self)
  with b instant_split [of t] show ?thesis by (simp add: proto_timestamp_of_def)
qed

end
