(* ===== verification/Crypto_Props.thy ===== *)
theory Crypto_Props
  imports Sample_Libs Opaque_Token
begin

text \<open>
  The properties of the cryptographic components, each with a witness on the sample libraries
  where it has hypotheses.
\<close>

section \<open>Key encryption key\<close>

text \<open>C38. The startup key: \<open>load_kek\<close> succeeds with a key exactly when the first source that is
  configured (hex variable, else base64 variable, else file) holds a spelling of that key and the
  key has 32 bytes; a configured source that is malformed is never skipped in favour of the next.\<close>
theorem load_kek_exact:
  "load_kek B P = Inr k \<longleftrightarrow> length (kek_bytes k) = 32 \<and>
     (case env_var P KEK_ENV_HEX of
        Some s \<Rightarrow> map ascii_lower (as_bytes (trim s)) = hex_bytes (kek_bytes k)
      | None \<Rightarrow> (case env_var P KEK_ENV_BASE64 of
          Some s \<Rightarrow> b64_decode B s = Some (kek_bytes k)
        | None \<Rightarrow> (\<exists>path. env_var P KEK_FILE_ENV = Some path \<and> fs_read P path = Inr (kek_bytes k))))"
  by (auto simp: load_kek_def load_kek_from_file_def kek_from_bytes_iff decode_hex_iff
      split: option.splits)

section \<open>Wrapped private keys\<close>

text \<open>What \<open>get_active_signing_key\<close> does with the stored bytes.\<close>

definition unwrap_stored :: "aead_lib \<Rightarrow> bytes \<Rightarrow> bytes \<Rightarrow> bytes \<Rightarrow> crypto_error exit + bytes" where
  "unwrap_stored A kek bs aad =
     try_r (no_panic (encrypted_key_from_bytes bs)) (\<lambda>w. decrypt_private_key A kek w aad)"

text \<open>C29. A private key that was encrypted under the KEK with an identity as associated data,
  written to the database as bytes and read back, decrypts to the same key.\<close>
theorem wrapped_key_reload:
  assumes "aead_ok A" and "length nonce = NONCE_LEN" and "p \<noteq> []"
    and "encrypt_private_key A (Some nonce) kek p aad = Inr e"
  shows "unwrap_stored A kek (encrypted_key_as_bytes e) aad = Inr p"
  unfolding unwrap_stored_def by (rule aes_gcm.reload [OF assms(1) _ assms(3,4)]) (simp add: assms(2))

theorem wrapped_key_reload_witness:
  "\<exists>e. encrypt_private_key sample_aead (Some (replicate 12 9)) (replicate 32 1) [1, 2, 3] [5] = Inr e \<and>
     unwrap_stored sample_aead (replicate 32 1) (encrypted_key_as_bytes e) [5] = Inr [1, 2, 3]"
proof -
  obtain e where e: "encrypt_private_key sample_aead (Some (replicate 12 9)) (replicate 32 1) [1, 2, 3] [5] = Inr e"
    by (simp add: encrypt_private_key_def sample_aead_def AES_KEK_LEN_def)
  show ?thesis
    using wrapped_key_reload [OF sample_aead_ok _ _ e] e by (simp add: NONCE_LEN_def)
qed

text \<open>C30. Whatever bytes the database holds, unwrapping them never panics, and it yields a key only
  if those bytes are a nonce followed by the sealing of that very key under the same KEK and the
  same associated data.\<close>
theorem unwrap_authentic:
  assumes "aead_ok A"
  shows "unwrap_stored A kek bs aad \<noteq> Inl Panic \<and>
    (unwrap_stored A kek bs aad = Inr p \<longleftrightarrow> 29 \<le> length bs \<and> length kek = 32 \<and>
      (\<exists>nonce c. length nonce = NONCE_LEN \<and> bs = nonce @ c \<and> gcm_seal A kek nonce aad p = Some c))"
proof
  show "unwrap_stored A kek bs aad \<noteq> Inl Panic"
    unfolding unwrap_stored_def by (rule aes_gcm.reload_no_panic)
  show "unwrap_stored A kek bs aad = Inr p \<longleftrightarrow> 29 \<le> length bs \<and> length kek = 32 \<and>
      (\<exists>nonce c. length nonce = NONCE_LEN \<and> bs = nonce @ c \<and> gcm_seal A kek nonce aad p = Some c)"
    unfolding unwrap_stored_def
    by (auto simp: encrypted_key_from_bytes_iff decrypt_Inr_iff [OF assms(1)])
      (metis encrypted_key.select_convs(1))+
qed

theorem unwrap_authentic_witness:
  "unwrap_stored sample_aead (replicate 32 1) (replicate 30 0) [] \<noteq> Inl Panic \<and>
   unwrap_stored sample_aead (replicate 32 1) (replicate 14 0 @ replicate 16 1) [] = Inr [0, 0]"
proof -
  have "gcm_seal sample_aead (replicate 32 1) (replicate 12 0) [] [0, 0] = Some ([0, 0] @ replicate 16 1)"
    by (simp add: sample_aead_def)
  moreover have "replicate 14 0 @ replicate 16 1 = replicate 12 0 @ [0, 0] @ (replicate 16 1 :: bytes)"
    by (simp add: numeral_eq_Suc)
  moreover have "length (replicate 12 0 :: bytes) = NONCE_LEN"
    by (simp add: NONCE_LEN_def)
  ultimately have "\<exists>nonce c. length nonce = NONCE_LEN \<and> replicate 14 0 @ replicate 16 1 = nonce @ c \<and>
      gcm_seal sample_aead (replicate 32 1) nonce [] [0, 0] = Some c"
    by blast
  then show ?thesis
    using unwrap_authentic [OF sample_aead_ok] by simp
qed

section \<open>Tokens\<close>

text \<open>C27. A JWT that verifies was signed: whatever the build profile, \<open>verify_jwt\<close> returns claims
  only for a three-part token whose header names an allowed algorithm and the key's id, whose
  signature the key verifies over the first two parts, whose claims part is those claims, and
  whose claims are inside their validity window (as unbounded numbers) and name the expected
  issuer and audience.\<close>
theorem verify_jwt_sound:
  "verify_jwt chk B E J token k opts = Inr c \<longrightarrow>
     carries B E J (allowed_algorithms opts) k token c \<and> in_window opts c \<and> expected_party opts c"
  using check_times_sound by (auto simp: verify_Inr_iff)

text \<open>C28. Where no sum of claim times exceeds 64 bits, these conditions are also sufficient.\<close>
theorem verify_jwt_complete:
  assumes "carries B E J (allowed_algorithms opts) k token c" and "in_window opts c"
    and "expected_party opts c" and "times_fit opts c"
  shows "verify_jwt chk B E J token k opts = Inr c"
  using assms by (simp add: verify_Inr_iff check_times_complete)

text \<open>A token signed with a stored key verifies under the public JWK built from the same key:
  it yields the claims that were signed.\<close>
lemma sign_then_verify:
  assumes "base64_ok B" and "ecdsa_ok E" and "json_ok J"
    and "key_pair_from_pkcs8 E alg der = Inr kp"
    and "public_jwk_from_pkcs8 B E kid alg der = Inr k"
    and "sign_jwt B E J rnd alg kid c kp = Inr t"
    and "cl_custom c = []" and "alg \<in> set (allowed_algorithms opts)"
    and "in_window opts c" and "expected_party opts c" and "times_fit opts c"
  shows "verify_jwt chk B E J (jwt_token t) k opts = Inr c"
proof -
  have "key_from_pkcs8 E (signing_algorithm alg) der = Some kp"
    using assms(4) by (simp add: key_pair_from_pkcs8_def)
  then have "carries B E J (allowed_algorithms opts) k (jwt_token t) c"
    by (rule sign_carries [OF assms(1-3) _ assms(5-8)])
  with assms(9-11) show ?thesis
    by (simp add: verify_Inr_iff check_times_complete)
qed

definition sample_claims :: claims where
  "sample_claims = default_claims\<lparr>cl_iss := Some ''home.identity'', cl_sub := Some ''u1'',
     cl_aud := Some (Single ''home.api''), cl_exp := Some 2000, cl_iat := Some 1000\<rparr>"

definition sample_header :: jwt_header where
  "sample_header = \<lparr>hdr_alg = ''ES256'', hdr_typ = ''JWT'', hdr_kid = ''k1''\<rparr>"

definition sample_json :: json_lib where
  "sample_json = table_json [sample_header] [sample_claims] []"

definition sample_options :: verification_options where
  "sample_options = \<lparr>allowed_algorithms = [ES256, ES384], opt_issuer = Some ''home.identity'',
     opt_audience = Some ''home.api'', current_time = 1500, leeway = 60\<rparr>"

definition sample_jwk :: jwk where
  "sample_jwk = \<lparr>jwk_kty = ''EC'', jwk_use = ''sig'', jwk_kid = ''k1'', jwk_alg = ''ES256'',
     jwk_crv = ''P-256'', jwk_x = hex_encode (replicate 32 7), jwk_y = hex_encode (replicate 32 7)\<rparr>"

lemma sample_key: "key_from_pkcs8 sample_ecdsa (signing_algorithm ES256) sample_der = Some sample_der"
  by code_simp

lemma sample_public: "public_jwk_from_pkcs8 hex64 sample_ecdsa ''k1'' ES256 sample_der = Inr sample_jwk"
  by code_simp

lemma sample_times: "in_window sample_options sample_claims" "expected_party sample_options sample_claims"
  "times_fit sample_options sample_claims"
  by (auto simp: in_window_def expected_party_def times_fit_def sample_options_def sample_claims_def
      default_claims_def)

lemma sample_signed:
  "\<exists>t. sign_jwt hex64 sample_ecdsa sample_json [] ES256 ''k1'' sample_claims sample_der = Inr t"
  by (simp add: sign_jwt_def sample_json_def table_json_def table_to_def sample_header_def
      sample_ecdsa_def)

lemma sample_carried:
  "\<exists>t. carries hex64 sample_ecdsa sample_json [ES256, ES384] sample_jwk t sample_claims"
proof -
  obtain t where t: "sign_jwt hex64 sample_ecdsa sample_json [] ES256 ''k1'' sample_claims sample_der = Inr t"
    using sample_signed by blast
  have "carries hex64 sample_ecdsa sample_json [ES256, ES384] sample_jwk (jwt_token t) sample_claims"
    by (rule sign_carries [OF hex64_ok sample_ecdsa_ok _ sample_key sample_public t])
      (simp_all add: sample_json_def table_json_ok sample_claims_def default_claims_def)
  then show ?thesis by blast
qed

theorem verify_jwt_complete_witness:
  "\<exists>t. verify_jwt False hex64 sample_ecdsa sample_json t sample_jwk sample_options = Inr sample_claims"
proof -
  obtain t where "carries hex64 sample_ecdsa sample_json [ES256, ES384] sample_jwk t sample_claims"
    using sample_carried by blast
  then have "carries hex64 sample_ecdsa sample_json (allowed_algorithms sample_options) sample_jwk t sample_claims"
    by (simp add: sample_options_def)
  from verify_jwt_complete [OF this sample_times] show ?thesis by blast
qed

theorem verify_jwt_sound_witness:
  "\<exists>t. verify_jwt True hex64 sample_ecdsa sample_json t sample_jwk sample_options = Inr sample_claims \<and>
     carries hex64 sample_ecdsa sample_json [ES256, ES384] sample_jwk t sample_claims"
proof -
  obtain t where "carries hex64 sample_ecdsa sample_json [ES256, ES384] sample_jwk t sample_claims"
    using sample_carried by blast
  then have "verify_jwt True hex64 sample_ecdsa sample_json t sample_jwk sample_options = Inr sample_claims"
    using sample_times by (simp add: verify_Inr_iff check_times_complete) (simp add: sample_options_def)
  moreover from verify_jwt_sound [rule_format, OF this]
  have "carries hex64 sample_ecdsa sample_json [ES256, ES384] sample_jwk t sample_claims"
    by (simp add: sample_options_def)
  ultimately show ?thesis by blast
qed

text \<open>Verifying cannot panic in a release build, and in a build with overflow checks it can only
  where \<open>exp\<close> or the current time plus the leeway exceeds 64 bits.\<close>
theorem verify_jwt_panics_only_on_overflow:
  "verify_jwt chk B E J token k opts = Inl Panic \<longrightarrow> chk \<and>
     (\<exists>c. carries B E J (allowed_algorithms opts) k token c \<and> \<not> times_fit opts c)"
proof
  assume v: "verify_jwt chk B E J token k opts = Inl Panic"
  then obtain c where c: "carries B E J (allowed_algorithms opts) k token c"
    and p: "check_exp chk opts c = Inl Panic \<or> check_nbf chk opts c = Inl Panic"
    by (rule verify_panics)
  from p have "chk \<and> \<not> times_fit opts c"
    by (auto simp: check_exp_def check_nbf_def try_r_Inl_iff add_u64_panics times_fit_def
        split: option.splits if_splits)
  with c show "chk \<and> (\<exists>c. carries B E J (allowed_algorithms opts) k token c \<and> \<not> times_fit opts c)"
    by blast
qed

text \<open>A token that expires at the end of time, signed by a key of the service.\<close>

definition eternal_claims :: claims where
  "eternal_claims = sample_claims\<lparr>cl_exp := Some 18446744073709551615\<rparr>"

definition eternal_json :: json_lib where
  "eternal_json = table_json [sample_header] [eternal_claims] []"

theorem verify_jwt_panics_only_on_overflow_witness:
  "\<exists>t. verify_jwt True hex64 sample_ecdsa eternal_json t sample_jwk sample_options = Inl Panic \<and>
     (\<exists>c. carries hex64 sample_ecdsa eternal_json [ES256, ES384] sample_jwk t c \<and>
       \<not> times_fit sample_options c)"
proof -
  obtain t where t: "sign_jwt hex64 sample_ecdsa eternal_json [] ES256 ''k1'' eternal_claims sample_der = Inr t"
    by (auto simp: sign_jwt_def eternal_json_def table_json_def table_to_def sample_header_def
        sample_ecdsa_def)
  have c: "carries hex64 sample_ecdsa eternal_json (allowed_algorithms sample_options) sample_jwk
      (jwt_token t) eternal_claims"
    by (rule sign_carries [OF hex64_ok sample_ecdsa_ok _ sample_key sample_public t])
      (simp_all add: eternal_json_def table_json_ok eternal_claims_def sample_claims_def
        default_claims_def sample_options_def)
  have "verify_jwt True hex64 sample_ecdsa eternal_json (jwt_token t) sample_jwk sample_options = Inl Panic"
    unfolding verify_carried [OF c]
    by (simp add: check_exp_def add_u64_def eternal_claims_def sample_options_def)
  with verify_jwt_panics_only_on_overflow [rule_format, OF this] show ?thesis
    by (auto simp: sample_options_def)
qed

text \<open>Opaque tokens: the digest the identity service stores for a verification or refresh token,
  and the one the gateway uses for a session cookie, is the digest recomputed from the token the
  user presents, and it comes from fresh randomness.\<close>
lemma opaque_token_digests:
  assumes "base64_ok B"
  shows "(generate_verification_token B sha256 rnd = Inr (c, d) \<longrightarrow>
      hash_verification_token B sha256 c = Inr d \<and> (\<exists>raw. rnd = Some raw \<and> d = sha256 raw)) \<and>
    (generate_session_token B sha256 rnd = Inr (c, d) \<longrightarrow>
      hash_session_token B sha256 c = Inr d \<and> (\<exists>raw. rnd = Some raw \<and> d = sha256 raw))"
  using verification_token.hash_generate [OF assms] verification_token.generated_from_random
    session_token.hash_generate [OF assms] session_token.generated_from_random
  by blast+

text \<open>The public JWK of a stored key describes that key: its coordinates, decoded and joined as
  \<open>verify_jwt\<close> does, are the library's public point, and its metadata names the algorithm.\<close>
lemma public_jwk_describes_key:
  assumes "base64_ok B" and "generate_key_pair B E generated kid alg = Inr g"
  shows "\<exists>kp. key_from_pkcs8 E (signing_algorithm alg) (gen_private_key_pkcs8 g) = Some kp \<and>
    jwk_point B (gen_public_jwk g) = Some (public_key E kp) \<and>
    jwk_kid (gen_public_jwk g) = kid \<and> algorithm_from_str (jwk_alg (gen_public_jwk g)) = Inr alg \<and>
    length (public_key E kp) = 1 + 2 * coordinate_size alg"
proof -
  from assms(2) have p: "public_jwk_from_pkcs8 B E kid alg (gen_private_key_pkcs8 g) = Inr (gen_public_jwk g)"
    by (simp add: generate_Inr_iff)
  then obtain kp where "key_from_pkcs8 E (signing_algorithm alg) (gen_private_key_pkcs8 g) = Some kp"
    by (auto simp: public_jwk_Inr_iff)
  with p jwk_point_of_public [OF assms(1) p] show ?thesis
    by (auto simp: public_jwk_Inr_iff alg.from_as)
qed

end
