(* ===== verification/Service_Types.thy ===== *)
theory Service_Types
  imports Account_Props Crypto_Props
begin

text \<open>
  The type of the service's interface: the response that a request is answered with, and the shape
  of its fields on the wire.
\<close>

fun valid_timestamp :: "proto_timestamp option \<Rightarrow> bool" where
  "valid_timestamp (Some ts) \<longleftrightarrow> 0 \<le> ts_nanos ts \<and> ts_nanos ts < 1000000000"
| "valid_timestamp None \<longleftrightarrow> False"

definition compact_jwt :: "string \<Rightarrow> bool" where
  "compact_jwt t \<longleftrightarrow> length (split_on CHR ''.'' t) = 3"

fun answers :: "'kp libs \<Rightarrow> identity_request \<Rightarrow> identity_response \<Rightarrow> bool" where
  "answers L (Login _) (LoggedIn r) \<longleftrightarrow>
     compact_jwt (lrs_access_token r) \<and> compact_jwt (lrs_id_token r) \<and>
     (\<exists>h. hash_verification_token (l_b64 L) (l_sha256 L) (lrs_refresh_token r) = Inr h) \<and>
     valid_timestamp (lrs_expires_at r)"
| "answers L (UserInfo _) (UserInfoIs r) \<longleftrightarrow>
     uuid_parse (l_uuid L) (uir_sub r) \<noteq> None \<and> uir_name r = uir_given_name r @ '' '' @ uir_family_name r \<and>
     valid_timestamp (uir_updated_at r)"
| "answers L (SignUp _) SignedUp \<longleftrightarrow> True"
| "answers L (VerifyEmail _) EmailVerified \<longleftrightarrow> True"
| "answers L (ResendVerification _) VerificationResent \<longleftrightarrow> True"
| "answers L (GetJwks _) (Jwks _) \<longleftrightarrow> True"
| "answers L (UpdateProfile _) ProfileUpdated \<longleftrightarrow> True"
| "answers L (UpdatePassword _) PasswordUpdated \<longleftrightarrow> True"
| "answers L _ _ \<longleftrightarrow> False"

lemmas handler_simps = andThen_Inr_iff mapErr_Inr_iff ret_def

lemma timestamp_valid [simp]: "valid_timestamp (Some (proto_timestamp_of t))"
  using proto_timestamp_exact [of t] by simp

lemma signed_compact:
  assumes "base64_ok B" and "sign_jwt B E J rnd alg kid cl kp = Inr t"
  shows "compact_jwt (jwt_token t)"
proof -
  from assms(2) obtain hj cj sg where
    "jwt_token t = b64url_encode B hj @ CHR ''.'' # b64url_encode B cj @ CHR ''.'' # b64url_encode B sg"
    by (auto simp: sign_jwt_def Let_def)
  then have "split_on CHR ''.'' (jwt_token t) = [b64url_encode B hj, b64url_encode B cj, b64url_encode B sg]"
    unfolding split_on_three_iff using b64url_encode_no_special(1) [OF assms(1)] by simp
  then show ?thesis by (simp add: compact_jwt_def)
qed

lemma login_typed:
  assumes "libs_ok L" and "login L V em pw kek w = (Inr res, w')"
  shows "compact_jwt (lr_access_token res)" "compact_jwt (lr_id_token res)"
    "\<exists>h. hash_verification_token (l_b64 L) (l_sha256 L) (lr_refresh_token res) = Inr h"
proof -
  obtain u k w1 where "issue_tokens L V u k w1 = (Inr res, w')"
    using assms(2) by (auto simp: login_def andThen_Inr_iff throw_def split: if_splits)
  then obtain r1 r2 c1 c2 at it x h where
    "sign_jwt (l_b64 L) (l_ecdsa L) (l_json L) r1 (ask_algorithm k) (ask_kid k) c1 (ask_key_pair k) = Inr at"
    "sign_jwt (l_b64 L) (l_ecdsa L) (l_json L) r2 (ask_algorithm k) (ask_kid k) c2 (ask_key_pair k) = Inr it"
    "generate_verification_token (l_b64 L) (l_sha256 L) x = Inr (lr_refresh_token res, h)"
    "lr_access_token res = jwt_token at" "lr_id_token res = jwt_token it"
    by (auto simp: issue_tokens_def Let_def io_Inr_iff split: prod.splits)
  moreover from this opaque_token_digests [OF libs_okD(1) [OF assms(1)]]
  have "hash_verification_token (l_b64 L) (l_sha256 L) (lr_refresh_token res) = Inr h" by blast
  ultimately show "compact_jwt (lr_access_token res)" "compact_jwt (lr_id_token res)"
    "\<exists>h. hash_verification_token (l_b64 L) (l_sha256 L) (lr_refresh_token res) = Inr h"
    using signed_compact [OF libs_okD(1) [OF assms(1)]] by auto
qed

text \<open>C36. Every request that succeeds is answered with the response of its own type, and well-formed: tokens in
  compact form, a refresh token that can be presented again, a subject that is a UUID, the name put
  together from its parts, and timestamps that are valid on the wire.\<close>
theorem serve_typed:
  assumes "libs_ok L" and "serve L V S rq w = (Inr resp, w')"
  shows "answers L rq resp"
proof (cases rq)
  case (Login r)
  then obtain res where
    "login L V (lrq_email (rq_message r)) (lrq_password (rq_message r)) (is_kek S) w = (Inr res, w')"
    "resp = LoggedIn \<lparr>lrs_access_token = lr_access_token res, lrs_refresh_token = lr_refresh_token res,
       lrs_id_token = lr_id_token res, lrs_expires_at = Some (proto_timestamp_of (lr_expires_at res))\<rparr>"
    using assms(2) by (auto simp: handle_login_def Let_def handler_simps)
  with login_typed [OF assms(1)] show ?thesis by (simp add: Login del: valid_timestamp.simps)
next
  case (UserInfo r)
  then show ?thesis
    using assms(2) uuid_parse_to_string [OF libs_okD(2) [OF assms(1)]]
    by (auto simp: handle_user_info_def handler_simps simp del: valid_timestamp.simps)
qed (use assms(2) in \<open>auto simp: handle_sign_up_def handle_verify_email_def handle_resend_verification_def
  handle_get_jwks_def handle_update_profile_def handle_update_password_def Let_def handler_simps\<close>)

theorem serve_typed_witness:
  "\<exists>resp w'. serve login_libs sample_env \<lparr>is_db = database_pool_from_pool Primary, is_web_base_url = ''https://h'',
       is_kek = sample_kek\<rparr>
     (Login \<lparr>rq_authorization = None, rq_message = \<lparr>lrq_email = ''a@b.c'', lrq_password = ''password''\<rparr>\<rparr>) sample_world
     = (Inr resp, w') \<and> answers login_libs (Login \<lparr>rq_authorization = None,
       rq_message = \<lparr>lrq_email = ''a@b.c'', lrq_password = ''password''\<rparr>\<rparr>) resp"
proof -
  let ?S = "\<lparr>is_db = database_pool_from_pool Primary, is_web_base_url = ''https://h'', is_kek = sample_kek\<rparr>"
  let ?rq = "Login \<lparr>rq_authorization = None, rq_message = \<lparr>lrq_email = ''a@b.c'', lrq_password = ''password''\<rparr>\<rparr>"
  obtain res w1 where "login login_libs sample_env ''a@b.c'' ''password'' sample_kek sample_world = (Inr res, w1)"
    using sample_login by blast
  then obtain resp where "serve login_libs sample_env ?S ?rq sample_world = (Inr resp, w1)"
    by (simp add: handle_login_def andThen_def mapErr_def ret_def)
  with serve_typed [OF sample_libs_ok this] show ?thesis by blast
qed

end
