(* ===== verification/Service_Config.thy ===== *)
theory Service_Config
  imports Outbox
begin

text \<open>
  The configuration of the three servers (\<open>services/identity/src/config.rs\<close>,
  \<open>services/gateway/src/config.rs\<close>, \<open>services/web/src/config.rs\<close>): the structures, their defaults, and
  \<open>load\<close>. The \<open>config\<close> crate, which collects the environment variables into a tree of values, is a
  parameter; the structures are read from that tree field by field, the way the attributes of
  their declarations say (required, \<open>default\<close>, \<open>Option\<close>).
\<close>

section \<open>Values of the configuration crate\<close>

datatype ip_addr = V4 "32 word" | V6 "128 word"

record socket_addr =
  sa_ip :: ip_addr
  sa_port :: "16 word"

datatype config_error = Build_Failed | Deserialize_Failed

text \<open>
  \<open>cf_build defaults prefix separator vars\<close> is \<open>Config::builder()\<close> with its \<open>set_default\<close>s and one
  \<open>Environment\<close> source, up to \<open>build()\<close>; the others read a value as a table, as text, as a sequence
  and as an integer of each width. \<open>cf_parse_addr\<close> is \<open>SocketAddr::from_str\<close>.
\<close>

type_synonym variables = "(string \<times> string) list"

record 'v config_lib =
  cf_build :: "(string \<times> string) list \<Rightarrow> string \<Rightarrow> string \<Rightarrow> variables \<Rightarrow> 'v option"
  cf_fields :: "'v \<Rightarrow> (string \<Rightarrow> 'v option) option"
  cf_is_nil :: "'v \<Rightarrow> bool"
  cf_string :: "'v \<Rightarrow> string option"
  cf_strings :: "'v \<Rightarrow> string list option"
  cf_u16 :: "'v \<Rightarrow> 16 word option"
  cf_u32 :: "'v \<Rightarrow> 32 word option"
  cf_u64 :: "'v \<Rightarrow> u64 option"
  cf_i64 :: "'v \<Rightarrow> int option"
  cf_parse_addr :: "string \<Rightarrow> socket_addr option"

section \<open>Reading fields\<close>

definition as_table :: "'v config_lib \<Rightarrow> 'v \<Rightarrow> config_error + (string \<Rightarrow> 'v option)" where
  "as_table C v = ok_or Deserialize_Failed (cf_fields C v)"

definition as_prim :: "('v \<Rightarrow> 'b option) \<Rightarrow> 'v \<Rightarrow> config_error + 'b" where
  "as_prim f v = ok_or Deserialize_Failed (f v)"

definition as_addr :: "'v config_lib \<Rightarrow> 'v \<Rightarrow> config_error + socket_addr" where
  "as_addr C v =
     try_r (as_prim (cf_string C) v) (\<lambda>s. ok_or Deserialize_Failed (cf_parse_addr C s))"

definition required :: "('v \<Rightarrow> config_error + 'b) \<Rightarrow> 'v option \<Rightarrow> config_error + 'b" where
  "required read f = (case f of None \<Rightarrow> Inl Deserialize_Failed | Some v \<Rightarrow> read v)"

definition defaulted :: "'b \<Rightarrow> ('v \<Rightarrow> config_error + 'b) \<Rightarrow> 'v option \<Rightarrow> config_error + 'b" where
  "defaulted d read f = (case f of None \<Rightarrow> Inr d | Some v \<Rightarrow> read v)"

definition optional ::
    "'v config_lib \<Rightarrow> ('v \<Rightarrow> config_error + 'b) \<Rightarrow> 'v option \<Rightarrow> config_error + 'b option" where
  "optional C read f =
     (case f of
        None \<Rightarrow> Inr None
      | Some v \<Rightarrow> if cf_is_nil C v then Inr None else try_r (read v) (\<lambda>x. Inr (Some x)))"

section \<open>The identity service\<close>

text \<open>The result of \<open>DEFAULT_LISTEN_ADDR.parse()\<close> on the literal \<open>[::]:50051\<close>; likewise below.\<close>

definition DEFAULT_IDENTITY_LISTEN_ADDR :: string where
  "DEFAULT_IDENTITY_LISTEN_ADDR = ''[::]:50051''"

definition default_identity_listen_addr :: socket_addr where
  "default_identity_listen_addr = \<lparr>sa_ip = V6 0, sa_port = 50051\<rparr>"

definition DEFAULT_WEB_BASE_URL :: string where
  "DEFAULT_WEB_BASE_URL = ''https://home.ryanseipp.com''"

definition DEFAULT_DB_PORT :: "16 word" where
  "DEFAULT_DB_PORT = 5432"

definition DEFAULT_MAX_CONNECTIONS :: "32 word" where
  "DEFAULT_MAX_CONNECTIONS = 5"

record db_config =
  dbc_host :: string
  dbc_port :: "16 word"
  dbc_database :: string
  dbc_username :: string
  dbc_password :: "string option"
  dbc_max_connections :: "32 word"

record identity_config =
  idc_listen_addr :: socket_addr
  idc_web_base_url :: string
  idc_db :: db_config
  idc_db_read :: "db_config option"
  idc_kafka :: kafka_config
  idc_spiffe_endpoint_socket :: "string option"

definition deserialize_kafka :: "'v config_lib \<Rightarrow> 'v \<Rightarrow> config_error + kafka_config" where
  "deserialize_kafka C v =
     try_r (as_table C v) (\<lambda>f.
     try_r (defaulted (kafka_brokers default_kafka_config) (as_prim (cf_string C)) (f ''brokers'')) (\<lambda>brokers.
     try_r (defaulted (kafka_poll_interval_ms default_kafka_config) (as_prim (cf_u64 C))
       (f ''poll_interval_ms'')) (\<lambda>poll_interval_ms.
     try_r (defaulted (kafka_batch_size default_kafka_config) (as_prim (cf_i64 C)) (f ''batch_size'')) (\<lambda>batch_size.
     Inr \<lparr>kafka_brokers = brokers, kafka_poll_interval_ms = poll_interval_ms,
          kafka_batch_size = batch_size\<rparr>))))"

definition deserialize_db :: "'v config_lib \<Rightarrow> 'v \<Rightarrow> config_error + db_config" where
  "deserialize_db C v =
     try_r (as_table C v) (\<lambda>f.
     try_r (required (as_prim (cf_string C)) (f ''host'')) (\<lambda>host.
     try_r (defaulted DEFAULT_DB_PORT (as_prim (cf_u16 C)) (f ''port'')) (\<lambda>port.
     try_r (required (as_prim (cf_string C)) (f ''database'')) (\<lambda>database.
     try_r (required (as_prim (cf_string C)) (f ''username'')) (\<lambda>username.
     try_r (optional C (as_prim (cf_string C)) (f ''password'')) (\<lambda>password.
     try_r (defaulted DEFAULT_MAX_CONNECTIONS (as_prim (cf_u32 C)) (f ''max_connections'')) (\<lambda>max_connections.
     Inr \<lparr>dbc_host = host, dbc_port = port, dbc_database = database, dbc_username = username,
          dbc_password = password, dbc_max_connections = max_connections\<rparr>)))))))"

definition deserialize_identity :: "'v config_lib \<Rightarrow> 'v \<Rightarrow> config_error + identity_config" where
  "deserialize_identity C v =
     try_r (as_table C v) (\<lambda>f.
     try_r (defaulted default_identity_listen_addr (as_addr C) (f ''listen_addr'')) (\<lambda>listen_addr.
     try_r (defaulted DEFAULT_WEB_BASE_URL (as_prim (cf_string C)) (f ''web_base_url'')) (\<lambda>web_base_url.
     try_r (required (deserialize_db C) (f ''db'')) (\<lambda>db.
     try_r (optional C (deserialize_db C) (f ''db_read'')) (\<lambda>db_read.
     try_r (defaulted default_kafka_config (deserialize_kafka C) (f ''kafka'')) (\<lambda>kafka.
     try_r (optional C (as_prim (cf_string C)) (f ''spiffe_endpoint_socket'')) (\<lambda>spiffe_endpoint_socket.
     Inr \<lparr>idc_listen_addr = listen_addr, idc_web_base_url = web_base_url, idc_db = db, idc_db_read = db_read,
          idc_kafka = kafka, idc_spiffe_endpoint_socket = spiffe_endpoint_socket\<rparr>)))))))"

definition identity_load :: "'v config_lib \<Rightarrow> variables \<Rightarrow> config_error + identity_config" where
  "identity_load C vars =
     try_r (ok_or Build_Failed (cf_build C [(''listen_addr'', DEFAULT_IDENTITY_LISTEN_ADDR)] ''IDENTITY'' ''__'' vars))
       (deserialize_identity C)"

section \<open>The gateway\<close>

definition DEFAULT_GATEWAY_LISTEN_ADDR :: string where
  "DEFAULT_GATEWAY_LISTEN_ADDR = ''[::]:8080''"

definition default_gateway_listen_addr :: socket_addr where
  "default_gateway_listen_addr = \<lparr>sa_ip = V6 0, sa_port = 8080\<rparr>"

definition DEFAULT_TLS_CERT_FILE :: string where
  "DEFAULT_TLS_CERT_FILE = ''/var/run/secrets/tls/tls.crt''"

definition DEFAULT_TLS_KEY_FILE :: string where
  "DEFAULT_TLS_KEY_FILE = ''/var/run/secrets/tls/tls.key''"

definition DEFAULT_IDENTITY_ADDR :: string where
  "DEFAULT_IDENTITY_ADDR = ''http://[::1]:50051''"

record scylla_config =
  scy_contact_points :: "string list"
  scy_keyspace :: string

record gateway_config =
  gc_listen_addr :: socket_addr
  gc_tls_cert_file :: string
  gc_tls_key_file :: string
  gc_identity_addr :: string
  gc_scylla :: scylla_config

definition default_scylla_config :: scylla_config where
  "default_scylla_config = \<lparr>scy_contact_points = [''[::1]:9042''], scy_keyspace = ''gateway''\<rparr>"

definition deserialize_scylla :: "'v config_lib \<Rightarrow> 'v \<Rightarrow> config_error + scylla_config" where
  "deserialize_scylla C v =
     try_r (as_table C v) (\<lambda>f.
     try_r (defaulted (scy_contact_points default_scylla_config) (as_prim (cf_strings C))
       (f ''contact_points'')) (\<lambda>contact_points.
     try_r (defaulted (scy_keyspace default_scylla_config) (as_prim (cf_string C)) (f ''keyspace'')) (\<lambda>keyspace.
     Inr \<lparr>scy_contact_points = contact_points, scy_keyspace = keyspace\<rparr>)))"

text \<open>\<open>IdentityConfig\<close> has one field, its address.\<close>

definition deserialize_identity_addr :: "'v config_lib \<Rightarrow> 'v \<Rightarrow> config_error + string" where
  "deserialize_identity_addr C v =
     try_r (as_table C v) (\<lambda>f. defaulted DEFAULT_IDENTITY_ADDR (as_prim (cf_string C)) (f ''addr''))"

definition deserialize_gateway :: "'v config_lib \<Rightarrow> 'v \<Rightarrow> config_error + gateway_config" where
  "deserialize_gateway C v =
     try_r (as_table C v) (\<lambda>f.
     try_r (defaulted default_gateway_listen_addr (as_addr C) (f ''listen_addr'')) (\<lambda>listen_addr.
     try_r (defaulted DEFAULT_TLS_CERT_FILE (as_prim (cf_string C)) (f ''tls_cert_file'')) (\<lambda>tls_cert_file.
     try_r (defaulted DEFAULT_TLS_KEY_FILE (as_prim (cf_string C)) (f ''tls_key_file'')) (\<lambda>tls_key_file.
     try_r (defaulted DEFAULT_IDENTITY_ADDR (deserialize_identity_addr C) (f ''identity'')) (\<lambda>identity_addr.
     try_r (defaulted default_scylla_config (deserialize_scylla C) (f ''scylla'')) (\<lambda>scylla.
     Inr \<lparr>gc_listen_addr = listen_addr, gc_tls_cert_file = tls_cert_file,
          gc_tls_key_file = tls_key_file, gc_identity_addr = identity_addr, gc_scylla = scylla\<rparr>))))))"

definition gateway_load :: "'v config_lib \<Rightarrow> variables \<Rightarrow> config_error + gateway_config" where
  "gateway_load C vars =
     try_r (ok_or Build_Failed (cf_build C
       [(''listen_addr'', DEFAULT_GATEWAY_LISTEN_ADDR), (''tls_cert_file'', DEFAULT_TLS_CERT_FILE),
        (''tls_key_file'', DEFAULT_TLS_KEY_FILE)] ''GATEWAY'' ''__'' vars))
       (deserialize_gateway C)"

text \<open>\<open>tls_available\<close>, with \<open>Path::exists\<close> as the parameter \<open>exists\<close>.\<close>

definition tls_available :: "(string \<Rightarrow> bool) \<Rightarrow> gateway_config \<Rightarrow> bool" where
  "tls_available exists config \<longleftrightarrow> exists (gc_tls_cert_file config) \<and> exists (gc_tls_key_file config)"

section \<open>The web server\<close>

definition DEFAULT_WEB_LISTEN_ADDR :: string where
  "DEFAULT_WEB_LISTEN_ADDR = ''[::]:3000''"

definition default_web_listen_addr :: socket_addr where
  "default_web_listen_addr = \<lparr>sa_ip = V6 0, sa_port = 3000\<rparr>"

definition DEFAULT_GATEWAY_URL :: string where
  "DEFAULT_GATEWAY_URL = ''http://[::1]:8080''"

record web_config =
  wc_listen_addr :: socket_addr
  wc_gateway_url :: string

definition deserialize_gateway_url :: "'v config_lib \<Rightarrow> 'v \<Rightarrow> config_error + string" where
  "deserialize_gateway_url C v =
     try_r (as_table C v) (\<lambda>f. defaulted DEFAULT_GATEWAY_URL (as_prim (cf_string C)) (f ''url''))"

definition deserialize_web :: "'v config_lib \<Rightarrow> 'v \<Rightarrow> config_error + web_config" where
  "deserialize_web C v =
     try_r (as_table C v) (\<lambda>f.
     try_r (defaulted default_web_listen_addr (as_addr C) (f ''listen_addr'')) (\<lambda>listen_addr.
     try_r (defaulted DEFAULT_GATEWAY_URL (deserialize_gateway_url C) (f ''gateway'')) (\<lambda>gateway_url.
     Inr \<lparr>wc_listen_addr = listen_addr, wc_gateway_url = gateway_url\<rparr>)))"

definition web_load :: "'v config_lib \<Rightarrow> variables \<Rightarrow> config_error + web_config" where
  "web_load C vars =
     try_r (ok_or Build_Failed (cf_build C [(''listen_addr'', DEFAULT_WEB_LISTEN_ADDR)] ''WEB'' ''__'' vars))
       (deserialize_web C)"

end
