(* ===== verification/Telemetry.thy ===== *)
theory Telemetry
  imports Kek
begin

text \<open>
  Telemetry of the three services (\<open>telemetry.rs\<close> of \<open>services/identity\<close>, \<open>services/gateway\<close> and
  \<open>services/web\<close>): what \<open>init\<close> builds and how it fails, and what dropping its guard does. Whether an
  OTLP exporter can be built, which filter directives parse and what a filter enables are parameters.
\<close>

section \<open>Initialisation\<close>

record otel_lib =
  ol_span_exporter :: "string + unit"
  ol_metric_exporter :: "string + unit"
  ol_filter_parses :: "string \<Rightarrow> bool"
  ol_enables_info :: "string \<Rightarrow> bool"
  ol_subscriber_set :: bool

text \<open>The attributes that name the service in traces and metrics.\<close>

record otel_resource =
  or_service_name :: string
  or_service_version :: string

record telemetry_guard =
  tg_tracer_provider :: otel_resource
  tg_meter_provider :: otel_resource

text \<open>The global subscriber: its filter and its layers. The log layer prints the target, the list of
  spans and the OpenTelemetry ids.\<close>

record subscriber =
  sub_filter :: string
  sub_trace_scope :: otel_resource
  sub_trace_provider :: otel_resource
  sub_meter_provider :: otel_resource
  sub_json_log :: "string list"

text \<open>\<open>EnvFilter::try_from_default_env\<close> reads \<open>RUST_LOG\<close>; where it is missing or does not parse, the filter
  is \<open>info\<close>.\<close>

definition env_filter :: "otel_lib \<Rightarrow> string option \<Rightarrow> string" where
  "env_filter T rust_log =
     (case rust_log of
        Some directives \<Rightarrow> if ol_filter_parses T directives then directives else ''info''
      | None \<Rightarrow> ''info'')"

text \<open>\<open>init\<close> for the package \<open>name\<close> of version \<open>version\<close>. Installing the subscriber panics where there is
  one already.\<close>

definition telemetry_init ::
    "otel_lib \<Rightarrow> string option \<Rightarrow> string \<Rightarrow> string \<Rightarrow> string exit + telemetry_guard \<times> subscriber" where
  "telemetry_init T rust_log name version =
     (let resource = \<lparr>or_service_name = name, or_service_version = version\<rparr>;
          scope = \<lparr>or_service_name = name, or_service_version = version\<rparr> in
      try_r (no_panic (ol_span_exporter T)) (\<lambda>_.
      let tracer_provider = resource in
      try_r (no_panic (ol_metric_exporter T)) (\<lambda>_.
      let meter_provider = resource;
          directives = env_filter T rust_log in
      if ol_subscriber_set T then Inl Panic
      else Inr (\<lparr>tg_tracer_provider = tracer_provider, tg_meter_provider = meter_provider\<rparr>,
        \<lparr>sub_filter = directives, sub_trace_scope = scope, sub_trace_provider = tracer_provider,
         sub_meter_provider = meter_provider,
         sub_json_log = [''target'', ''span_list'', ''opentelemetry_ids'']\<rparr>))))"

definition identity_telemetry :: "otel_lib \<Rightarrow> process_env \<Rightarrow> string exit + telemetry_guard \<times> subscriber" where
  "identity_telemetry T P = telemetry_init T (env_var P ''RUST_LOG'') ''identity'' ''0.1.0''"

definition gateway_telemetry :: "otel_lib \<Rightarrow> process_env \<Rightarrow> string exit + telemetry_guard \<times> subscriber" where
  "gateway_telemetry T P = telemetry_init T (env_var P ''RUST_LOG'') ''gateway'' ''0.1.0''"

definition web_telemetry :: "otel_lib \<Rightarrow> process_env \<Rightarrow> string exit + telemetry_guard \<times> subscriber" where
  "web_telemetry T P = telemetry_init T (env_var P ''RUST_LOG'') ''web'' ''0.1.0''"

text \<open>The fields of \<open>tracing::info!\<close> are only evaluated where the filter enables the event.\<close>

definition logs_info :: "otel_lib \<Rightarrow> subscriber \<Rightarrow> bool" where
  "logs_info T s = ol_enables_info T (sub_filter s)"

section \<open>Dropping the guard\<close>

datatype drop_event = Shutdown_Tracer otel_resource | Shutdown_Meter otel_resource | Stderr string

text \<open>\<open>drop\<close>, where the two shutdowns answer \<open>t\<close> and \<open>m\<close>.\<close>

definition guard_drop :: "telemetry_guard \<Rightarrow> string + unit \<Rightarrow> string + unit \<Rightarrow> drop_event list" where
  "guard_drop g t m =
     Shutdown_Tracer (tg_tracer_provider g) #
     (case t of Inl e \<Rightarrow> [Stderr (''failed to shutdown tracer provider: '' @ e)] | Inr _ \<Rightarrow> []) @
     Shutdown_Meter (tg_meter_provider g) #
     (case m of Inl e \<Rightarrow> [Stderr (''failed to shutdown meter provider: '' @ e)] | Inr _ \<Rightarrow> [])"

section \<open>Properties\<close>

lemma telemetry_init_Inr:
  "telemetry_init T rl n v = Inr (g, s) \<longleftrightarrow>
     ol_span_exporter T = Inr () \<and> ol_metric_exporter T = Inr () \<and> \<not> ol_subscriber_set T \<and>
     g = \<lparr>tg_tracer_provider = \<lparr>or_service_name = n, or_service_version = v\<rparr>,
          tg_meter_provider = \<lparr>or_service_name = n, or_service_version = v\<rparr>\<rparr> \<and>
     s = \<lparr>sub_filter = env_filter T rl, sub_trace_scope = tg_tracer_provider g,
          sub_trace_provider = tg_tracer_provider g, sub_meter_provider = tg_meter_provider g,
          sub_json_log = [''target'', ''span_list'', ''opentelemetry_ids'']\<rparr>"
  by (cases "ol_span_exporter T"; cases "ol_metric_exporter T") (auto simp: telemetry_init_def Let_def)

text \<open>The documented error is that of an exporter; a second initialisation in a process panics instead.\<close>

lemma telemetry_init_error:
  "telemetry_init T rl n v = Inl (Err e) \<longleftrightarrow>
     ol_span_exporter T = Inl e \<or> (ol_span_exporter T = Inr () \<and> ol_metric_exporter T = Inl e)"
  by (cases "ol_span_exporter T"; cases "ol_metric_exporter T") (auto simp: telemetry_init_def Let_def)

lemma telemetry_init_panics:
  "telemetry_init T rl n v = Inl Panic \<longleftrightarrow>
     ol_span_exporter T = Inr () \<and> ol_metric_exporter T = Inr () \<and> ol_subscriber_set T"
  by (cases "ol_span_exporter T"; cases "ol_metric_exporter T") (auto simp: telemetry_init_def Let_def)

text \<open>A \<open>RUST_LOG\<close> that does not parse is not reported: it counts as if it were not set.\<close>

lemma bad_filter_ignored: "\<not> ol_filter_parses T d \<Longrightarrow> telemetry_init T (Some d) n v = telemetry_init T None n v"
  by (simp add: telemetry_init_def env_filter_def)

text \<open>Both providers are shut down, traces first, whatever the first one answers.\<close>

lemma guard_drop_both:
  "filter (\<lambda>e. case e of Stderr _ \<Rightarrow> False | _ \<Rightarrow> True) (guard_drop g t m) =
     [Shutdown_Tracer (tg_tracer_provider g), Shutdown_Meter (tg_meter_provider g)]"
  by (cases t; cases m) (simp_all add: guard_drop_def)

end
