(* ===== verification/Startup.thy ===== *)
theory Startup
  imports Service_Config Web_Proxy Telemetry
begin

text \<open>
  How the three servers start (\<open>main.rs\<close> of each service, \<open>identity/src/spiffe.rs\<close>, \<open>identity/src/db.rs\<close>,
  \<open>identity/src/server.rs\<close>, \<open>gateway/src/server.rs\<close>, \<open>web/src/api/mod.rs\<close>): the order of the steps,
  the error each of them ends the process with, what is handed to the server, and how the gateway
  chooses between HTTPS and HTTP and accepts connections. What SPIFFE, rustls, deadpool,
  refinery, the PEM parser and the operating system do is a parameter.
\<close>

section \<open>SPIFFE\<close>

datatype spiffe_error = Spiffe_Source | Spiffe_Tls

record ('src, 'stls, 'ctls) spiffe_lib =
  sp_source :: "string \<Rightarrow> 'src option"
  sp_mtls_server :: "'src \<Rightarrow> string list \<Rightarrow> 'stls option"
  sp_mtls_client :: "'src \<Rightarrow> string list \<Rightarrow> 'ctls option"
  sp_svid :: "'src \<Rightarrow> bool"

record ('src, 'stls, 'ctls) spiffe_context =
  spc_source :: 'src
  spc_server_tls :: 'stls
  spc_client_tls :: 'ctls

definition spiffe_endpoint :: "process_env \<Rightarrow> string option \<Rightarrow> string" where
  "spiffe_endpoint P endpoint =
     (case endpoint of
        Some e \<Rightarrow> e
      | None \<Rightarrow> (case env_var P ''SPIFFE_ENDPOINT_SOCKET'' of
                   Some e \<Rightarrow> e
                 | None \<Rightarrow> ''/tmp/spire-agent/public/api.sock''))"

text \<open>The SVID is only asked for where the event that logs it is enabled (\<open>info\<close>).\<close>

definition spiffe_context_new ::
    "bool \<Rightarrow> ('src, 'stls, 'ctls) spiffe_lib \<Rightarrow> process_env \<Rightarrow> string option
      \<Rightarrow> spiffe_error + ('src, 'stls, 'ctls) spiffe_context" where
  "spiffe_context_new info S P endpoint =
     try_r (ok_or Spiffe_Source (sp_source S (spiffe_endpoint P endpoint))) (\<lambda>source.
     try_r (ok_or Spiffe_Tls (sp_mtls_server S source [''h2''])) (\<lambda>server_config.
     try_r (ok_or Spiffe_Tls (sp_mtls_client S source [])) (\<lambda>client_config.
     if info \<and> \<not> sp_svid S source then Inl Spiffe_Source
     else Inr \<lparr>spc_source = source, spc_server_tls = server_config, spc_client_tls = client_config\<rparr>)))"

section \<open>Connection pools\<close>

datatype database_error = Database_Config | Database_Build | Database_Pool | Database_Migration

record pg_config =
  pg_host :: string
  pg_port :: "16 word"
  pg_dbname :: string
  pg_user :: string
  pg_password :: "string option"

text \<open>A pool is what it connects to, the TLS it uses and its size; \<open>builds\<close> is deadpool's verdict.\<close>

record 'ctls pg_pool =
  pp_config :: pg_config
  pp_tls :: 'ctls
  pp_max_size :: nat

definition build_pool ::
    "('ctls pg_pool \<Rightarrow> bool) \<Rightarrow> 'ctls \<Rightarrow> db_config \<Rightarrow> database_error + 'ctls pg_pool" where
  "build_pool builds tls cfg =
     (let pool = \<lparr>pp_config = \<lparr>pg_host = dbc_host cfg, pg_port = dbc_port cfg, pg_dbname = dbc_database cfg,
                    pg_user = dbc_username cfg, pg_password = dbc_password cfg\<rparr>,
                  pp_tls = tls, pp_max_size = unat (dbc_max_connections cfg)\<rparr>
      in if builds pool then Inr pool else Inl Database_Build)"

text \<open>\<open>from_url\<close>, without TLS; \<open>parse\<close> is \<open>tokio_postgres::Config::from_str\<close>.\<close>

definition database_pool_from_url ::
    "(string \<Rightarrow> pg_config option) \<Rightarrow> (unit pg_pool \<Rightarrow> bool) \<Rightarrow> string \<Rightarrow> nat
      \<Rightarrow> database_error + unit pg_pool database_pool" where
  "database_pool_from_url parse builds url max_size =
     try_r (ok_or Database_Config (parse url)) (\<lambda>config.
     let pool = \<lparr>pp_config = config, pp_tls = (), pp_max_size = max_size\<rparr>
     in if builds pool then Inr (database_pool_from_pool pool) else Inl Database_Build)"

text \<open>
  Which database a connection of either pool reaches. The database that the writer pool connects to
  is called the primary, whatever it is; the reader pool reaches the same one where it is the same
  pool, or one with the same configuration, and a replica otherwise.
\<close>

definition pool_roles :: "'p database_pool \<Rightarrow> pool database_pool" where
  "pool_roles db = \<lparr>dp_writer = Primary, dp_reader = (if dp_reader db = dp_writer db then Primary else Replica)\<rparr>"

text \<open>The migrations only create what is missing, so they leave the rows as they are.\<close>

definition migrate :: "env \<Rightarrow> (nat \<Rightarrow> bool) \<Rightarrow> (database_error, unit) io" where
  "migrate V migrated =
     andThen (pool_get V Primary Database_Pool) (\<lambda>client.
     andThen (ask migrated) (\<lambda>ok. if ok then ret () else throw Database_Migration))"

section \<open>The identity service\<close>

datatype identity_server_error = IdentityServer_Io | IdentityServer_Transport

datatype identity_start_error =
    Start_Telemetry string
  | Start_Config config_error
  | Start_Kek crypto_error
  | Start_Spiffe spiffe_error
  | Start_Database database_error
  | Start_Key ensure_key_error
  | Start_Io
  | Start_Server identity_server_error

record ('v, 'src, 'stls, 'ctls) boot =
  bt_process :: process_env
  bt_vars :: variables
  bt_crate :: "'v config_lib"
  bt_otel :: otel_lib
  bt_spiffe :: "('src, 'stls, 'ctls) spiffe_lib"
  bt_pool_builds :: "'ctls pg_pool \<Rightarrow> bool"
  bt_migrated :: "nat \<Rightarrow> bool"
  bt_bound :: "socket_addr \<Rightarrow> bool"

text \<open>\<open>run\<close>: the service and how it is offered.\<close>

datatype 'stls offered = Over_Tls 'stls | Over_Tcp

record 'stls identity_server =
  srv_addr :: socket_addr
  srv_service :: identity_service
  srv_offered :: "'stls offered"

definition identity_run ::
    "socket_addr \<Rightarrow> string \<Rightarrow> pool database_pool \<Rightarrow> kek \<Rightarrow> 'stls option \<Rightarrow> 'stls identity_server" where
  "identity_run addr web_base_url db kek server_tls =
     \<lparr>srv_addr = addr,
      srv_service = \<lparr>is_db = db, is_web_base_url = web_base_url, is_kek = kek\<rparr>,
      srv_offered = (case server_tls of Some tls_config \<Rightarrow> Over_Tls tls_config | None \<Rightarrow> Over_Tcp)\<rparr>"

text \<open>
  \<open>main\<close> up to the point where requests are served: the server, and the publisher's configuration
  and state.
\<close>

definition identity_main ::
    "'kp libs \<Rightarrow> env \<Rightarrow> ('v, 'src, 'stls, 'ctls) boot
      \<Rightarrow> (identity_start_error, 'stls identity_server \<times> kafka_config \<times> publisher) io" where
  "identity_main L V B =
     andThen (pureX Start_Telemetry (identity_telemetry (bt_otel B) (bt_process B))) (\<lambda>(guard, subscriber).
     andThen (pureR Start_Config (identity_load (bt_crate B) (bt_vars B))) (\<lambda>config.
     andThen (pureR Start_Kek (load_kek (l_b64 L) (bt_process B))) (\<lambda>kek.
     andThen (pureR Start_Spiffe (spiffe_context_new (logs_info (bt_otel B) subscriber) (bt_spiffe B) (bt_process B)
       (idc_spiffe_endpoint_socket config))) (\<lambda>spiffe.
     andThen (pureR Start_Database (database_pool_connect (build_pool (bt_pool_builds B) (spc_client_tls spiffe))
       (idc_db config) (idc_db_read config))) (\<lambda>db.
     andThen (mapErr Start_Database (migrate V (bt_migrated B))) (\<lambda>_.
     andThen (mapErr Start_Key (ensure_signing_key L V Primary kek)) (\<lambda>_.
     let publisher = spawn in
     if bt_bound B (idc_listen_addr config)
     then ret (identity_run (idc_listen_addr config) (idc_web_base_url config) (pool_roles db) kek
            (Some (spc_server_tls spiffe)), idc_kafka config, publisher)
     else throw Start_Io)))))))"

text \<open>The end of \<open>main\<close>: the publisher is shut down only where serving ended well.\<close>

definition identity_stop ::
    "identity_server_error + unit \<Rightarrow> publisher \<Rightarrow> (identity_start_error + unit) \<times> publisher" where
  "identity_stop served p =
     (case served of Inl e \<Rightarrow> (Inl (Start_Server e), p) | Inr _ \<Rightarrow> (Inr (), cancel p))"

section \<open>The gateway's server\<close>

datatype gateway_server_error =
    GatewayServer_Io
  | GatewayServer_Tls
  | CertLoad string
  | MissingKey

record ('cert, 'key, 'cfg) pem_lib =
  pm_certs :: "bytes \<Rightarrow> (string + 'cert) list"
  pm_private_key :: "bytes \<Rightarrow> string + 'key option"
  pm_single_cert :: "'cert list \<Rightarrow> 'key \<Rightarrow> 'cfg option"

record 'cfg tls_server_config =
  tc_config :: 'cfg
  tc_alpn_protocols :: "string list"

definition load_rustls_config ::
    "('cert, 'key, 'cfg) pem_lib \<Rightarrow> process_env \<Rightarrow> string \<Rightarrow> string
      \<Rightarrow> gateway_server_error + 'cfg tls_server_config" where
  "load_rustls_config M P cert_path key_path =
     try_r (map_err (\<lambda>e. CertLoad (''failed to read cert at '' @ cert_path @ '': '' @ e)) (fs_read P cert_path)) (\<lambda>cert_data.
     try_r (map_err (\<lambda>e. CertLoad (''failed to read key at '' @ key_path @ '': '' @ e)) (fs_read P key_path)) (\<lambda>key_data.
     try_r (map_err (\<lambda>e. CertLoad (''failed to parse cert PEM: '' @ e)) (collect (pm_certs M cert_data))) (\<lambda>cert_chain.
     try_r (map_err (\<lambda>e. CertLoad (''failed to parse key PEM: '' @ e)) (pm_private_key M key_data)) (\<lambda>found.
     try_r (ok_or MissingKey found) (\<lambda>key.
     try_r (ok_or GatewayServer_Tls (pm_single_cert M cert_chain key)) (\<lambda>tls_config.
     Inr \<lparr>tc_config = tls_config, tc_alpn_protocols = [''h2'', ''http/1.1'']\<rparr>))))))"

text \<open>\<open>run\<close> up to its accept loop: with TLS, with the loaded certificate, or without.\<close>

datatype 'cfg listening = Https "'cfg tls_server_config" | Http

definition gateway_run ::
    "('cert, 'key, 'cfg) pem_lib \<Rightarrow> process_env \<Rightarrow> (string \<Rightarrow> bool) \<Rightarrow> bool \<Rightarrow> gateway_config
      \<Rightarrow> gateway_server_error + 'cfg listening" where
  "gateway_run M P exists local_addr config =
     (if \<not> local_addr then Inl GatewayServer_Io
      else if tls_available exists config
      then try_r (load_rustls_config M P (gc_tls_cert_file config) (gc_tls_key_file config)) (\<lambda>tls_config.
           Inr (Https tls_config))
      else Inr Http)"

text \<open>
  \<open>serve_tls\<close> and the tasks that it spawns, one event after the other: a connection is accepted (its
  task starts the TLS handshake), \<open>accept\<close> fails, the shutdown signal arrives, a task's handshake is
  done (or has failed, which ends the task), a task has answered a request, a connection closes.
  The tasks live no longer than the loop: when it ends, \<open>run\<close> and \<open>main\<close> return, and the runtime drops
  what is still in a handshake or open.
\<close>

datatype 'c tls_event =
    Tcp_Accepted 'c
  | Accept_Failed
  | Terminate
  | Handshake 'c bool
  | Answered 'c
  | Closed 'c

record 'c tls_server =
  tls_pending :: "'c list"
  tls_open :: "'c list"
  tls_answered :: "'c list"
  tls_ended :: "(gateway_server_error + unit) option"

definition tls_end :: "gateway_server_error + unit \<Rightarrow> 'c tls_server \<Rightarrow> 'c tls_server" where
  "tls_end r s = s\<lparr>tls_pending := [], tls_open := [], tls_ended := Some r\<rparr>"

fun tls_step :: "'c tls_server \<Rightarrow> 'c tls_event \<Rightarrow> 'c tls_server" where
  "tls_step s (Tcp_Accepted c) = s\<lparr>tls_pending := tls_pending s @ [c]\<rparr>"
| "tls_step s Accept_Failed = tls_end (Inl GatewayServer_Io) s"
| "tls_step s Terminate = tls_end (Inr ()) s"
| "tls_step s (Handshake c ok) =
     (if c \<in> set (tls_pending s)
      then s\<lparr>tls_pending := remove1 c (tls_pending s),
             tls_open := (if ok then tls_open s @ [c] else tls_open s)\<rparr>
      else s)"
| "tls_step s (Answered c) =
     (if c \<in> set (tls_open s) then s\<lparr>tls_answered := tls_answered s @ [c]\<rparr> else s)"
| "tls_step s (Closed c) = s\<lparr>tls_open := remove1 c (tls_open s)\<rparr>"

fun serve_tls_from :: "'c tls_server \<Rightarrow> 'c tls_event list \<Rightarrow> 'c tls_server" where
  "serve_tls_from s [] = s"
| "serve_tls_from s (e # es) = (if tls_ended s = None then serve_tls_from (tls_step s e) es else s)"

definition serve_tls :: "'c tls_event list \<Rightarrow> 'c tls_server" where
  "serve_tls = serve_tls_from \<lparr>tls_pending = [], tls_open = [], tls_answered = [], tls_ended = None\<rparr>"

datatype gateway_start_error =
    GatewayStart_Telemetry string
  | GatewayStart_Config config_error
  | GatewayStart_Spiffe
  | GatewayStart_Name
  | GatewayStart_Channel channel_error
  | GatewayStart_Tls
  | GatewayStart_Session session_error
  | GatewayStart_Io
  | GatewayStart_Server gateway_server_error

record ('v, 'src, 'ctls, 'cert, 'key, 'cfg) gateway_boot =
  gb_process :: process_env
  gb_exists :: "string \<Rightarrow> bool"
  gb_vars :: variables
  gb_crate :: "'v config_lib"
  gb_otel :: otel_lib
  gb_source :: "'src option"
  gb_svid :: "'src \<Rightarrow> bool"
  gb_server_name :: bool
  gb_mtls_client :: "'src \<Rightarrow> 'ctls option"
  gb_pem :: "('cert, 'key, 'cfg) pem_lib"
  gb_bound :: "socket_addr \<Rightarrow> bool"
  gb_local_addr :: bool

definition gateway_main ::
    "genv \<Rightarrow> ('v, 'src, 'ctls, 'cert, 'key, 'cfg) gateway_boot
      \<Rightarrow> (gateway_start_error, socket_addr \<times> 'cfg listening) gio" where
  "gateway_main G B =
     andThen (pureX GatewayStart_Telemetry (gateway_telemetry (gb_otel B) (gb_process B))) (\<lambda>(guard, subscriber).
     andThen (pureR GatewayStart_Config (gateway_load (gb_crate B) (gb_vars B))) (\<lambda>config.
     andThen (pureR (\<lambda>e. e) (ok_or GatewayStart_Spiffe (gb_source B))) (\<lambda>source.
     if logs_info (gb_otel B) subscriber \<and> \<not> gb_svid B source then throw GatewayStart_Spiffe
     else if \<not> gb_server_name B then throw GatewayStart_Name
     else
     andThen (mapErr GatewayStart_Channel (new_channel G)) (\<lambda>identity.
     andThen (pureR (\<lambda>e. e) (ok_or GatewayStart_Tls (gb_mtls_client B source))) (\<lambda>scylla_tls.
     andThen (mapErr GatewayStart_Session (connect_store G)) (\<lambda>_.
     if \<not> gb_bound B (gc_listen_addr config) then throw GatewayStart_Io
     else
     andThen (pureR GatewayStart_Server (gateway_run (gb_pem B) (gb_process B) (gb_exists B)
       (gb_local_addr B) config)) (\<lambda>listening.
     ret (gc_listen_addr config, listening))))))))"

section \<open>The web server\<close>

text \<open>\<open>GatewayClient::new\<close>; the reqwest client may fail to build.\<close>

record gateway_client =
  gcl_base_url :: string

definition gateway_client_new :: "bool \<Rightarrow> string \<Rightarrow> unit + gateway_client" where
  "gateway_client_new builds base_url =
     (if builds then Inr \<lparr>gcl_base_url = trim_end_slash base_url\<rparr> else Inl ())"

record 'v web_boot =
  wb_vars :: variables
  wb_crate :: "'v config_lib"
  wb_process :: process_env
  wb_otel :: otel_lib
  wb_site_addr :: "socket_addr option"
  wb_client :: bool
  wb_bound :: "socket_addr \<Rightarrow> bool"

text \<open>\<open>main\<close>: every failure is an \<open>expect\<close>. The address comes from the leptos configuration.\<close>

definition web_main :: "'v web_boot \<Rightarrow> unit exit + (socket_addr \<times> proxy_state)" where
  "web_main B =
     (case web_telemetry (wb_otel B) (wb_process B) of
        Inl _ \<Rightarrow> Inl Panic
      | Inr (guard, subscriber) \<Rightarrow>
     (case web_load (wb_crate B) (wb_vars B) of
        Inl _ \<Rightarrow> Inl Panic
      | Inr app_config \<Rightarrow>
     (case wb_site_addr B of
        None \<Rightarrow> Inl Panic
      | Some addr \<Rightarrow>
     (case gateway_client_new (wb_client B) (wc_gateway_url app_config) of
        Inl _ \<Rightarrow> Inl Panic
      | Inr gateway_client \<Rightarrow>
          if wb_bound B addr then Inr (addr, api_proxy (wc_gateway_url app_config)) else Inl Panic))))"

end
