(* ===== verification/Config_Props.thy ===== *)
theory Config_Props
  imports Service_Config
begin

text \<open>
  What the three servers read from their environment, given the documented behaviour of the
  configuration crate, with a concrete crate for the witnesses.
\<close>

section \<open>The documented behaviour of the crate\<close>

definition lower_char :: "char \<Rightarrow> char" where
  "lower_char c = (let n = of_char c :: nat in if 65 \<le> n \<and> n \<le> 90 then char_of (n + 32) else c)"

abbreviation lower_name :: "string \<Rightarrow> string" where
  "lower_name \<equiv> map lower_char"

text \<open>A variable belongs to a prefix where its name is, up to case, the prefix, the separator and a rest.\<close>

definition belongs :: "string \<Rightarrow> string \<Rightarrow> bool" where
  "belongs pre name \<longleftrightarrow> prefix (lower_name (pre @ ''__'')) (lower_name name)"

text \<open>One component of a key: no separator in it, and none arises where it is joined to another.\<close>

fun no_double :: "string \<Rightarrow> bool" where
  "no_double (c # d # s) \<longleftrightarrow> \<not> (c = CHR ''_'' \<and> d = CHR ''_'') \<and> no_double (d # s)"
| "no_double s \<longleftrightarrow> True"

definition key_part :: "string \<Rightarrow> bool" where
  "key_part s \<longleftrightarrow> s \<noteq> [] \<and> no_double s \<and> hd s \<noteq> CHR ''_'' \<and> last s \<noteq> CHR ''_''"

text \<open>
  \<open>txt\<close> is the value of a text. Variables outside the prefix are not read; without variables the
  tree holds the defaults; the variable \<open>PREFIX__A\<close> sets the field \<open>a\<close>, and \<open>PREFIX__A__B\<close> the field
  \<open>b\<close> of the table \<open>a\<close>. A text is read as a text and not as a sequence.
\<close>

definition crate_ok :: "'v config_lib \<Rightarrow> (string \<Rightarrow> 'v) \<Rightarrow> bool" where
  "crate_ok C txt \<longleftrightarrow>
     (\<forall>ds pre vars. cf_build C ds pre ''__'' vars =
        cf_build C ds pre ''__'' (filter (\<lambda>(n, _). belongs pre n) vars)) \<and>
     (\<forall>ds pre. \<exists>v. cf_build C ds pre ''__'' [] = Some v \<and>
        cf_fields C v = Some (\<lambda>k. map_option txt (map_of ds k))) \<and>
     (\<forall>ds pre a x. key_part a \<longrightarrow> (\<exists>v. cf_build C ds pre ''__'' [(pre @ ''__'' @ a, x)] = Some v \<and>
        cf_fields C v = Some ((\<lambda>k. map_option txt (map_of ds k))(lower_name a \<mapsto> txt x)))) \<and>
     (\<forall>ds pre a b x. key_part a \<longrightarrow> key_part b \<longrightarrow> lower_name a \<notin> fst ` set ds \<longrightarrow>
        (\<exists>v w. cf_build C ds pre ''__'' [(pre @ ''__'' @ a @ ''__'' @ b, x)] = Some v \<and>
           cf_fields C v = Some ((\<lambda>k. map_option txt (map_of ds k))(lower_name a \<mapsto> w)) \<and>
           cf_fields C w = Some [lower_name b \<mapsto> txt x])) \<and>
     (\<forall>s. cf_string C (txt s) = Some s \<and> cf_strings C (txt s) = None) \<and>
     cf_parse_addr C ''[::]:50051'' = Some \<lparr>sa_ip = V6 0, sa_port = 50051\<rparr> \<and>
     cf_parse_addr C ''[::]:8080'' = Some \<lparr>sa_ip = V6 0, sa_port = 8080\<rparr> \<and>
     cf_parse_addr C ''[::]:3000'' = Some \<lparr>sa_ip = V6 0, sa_port = 3000\<rparr>"

lemma crate_okD:
  assumes "crate_ok C txt"
  shows "cf_build C ds pre ''__'' vars = cf_build C ds pre ''__'' (filter (\<lambda>(n, _). belongs pre n) vars)"
    and "\<exists>v. cf_build C ds pre ''__'' [] = Some v \<and> cf_fields C v = Some (\<lambda>k. map_option txt (map_of ds k))"
    and "key_part a \<Longrightarrow> \<exists>v. cf_build C ds pre ''__'' [(pre @ ''__'' @ a, x)] = Some v \<and>
        cf_fields C v = Some ((\<lambda>k. map_option txt (map_of ds k))(lower_name a \<mapsto> txt x))"
    and "key_part a \<Longrightarrow> key_part b \<Longrightarrow> lower_name a \<notin> fst ` set ds \<Longrightarrow>
        \<exists>v w. cf_build C ds pre ''__'' [(pre @ ''__'' @ a @ ''__'' @ b, x)] = Some v \<and>
           cf_fields C v = Some ((\<lambda>k. map_option txt (map_of ds k))(lower_name a \<mapsto> w)) \<and>
           cf_fields C w = Some [lower_name b \<mapsto> txt x]"
    and "cf_string C (txt s) = Some s" and "cf_strings C (txt s) = None"
    and "cf_parse_addr C ''[::]:50051'' = Some \<lparr>sa_ip = V6 0, sa_port = 50051\<rparr>"
    and "cf_parse_addr C ''[::]:8080'' = Some \<lparr>sa_ip = V6 0, sa_port = 8080\<rparr>"
    and "cf_parse_addr C ''[::]:3000'' = Some \<lparr>sa_ip = V6 0, sa_port = 3000\<rparr>"
  using assms unfolding crate_ok_def by blast+

section \<open>A concrete crate\<close>

datatype sample_value = Leaf string | Node "(string \<times> sample_value) list"

fun cut_key :: "string \<Rightarrow> string \<times> string option" where
  "cut_key (c # d # s) =
     (if c = CHR ''_'' \<and> d = CHR ''_'' then ([], Some s)
      else (case cut_key (d # s) of (a, b) \<Rightarrow> (c # a, b)))"
| "cut_key s = (s, None)"

fun set_key :: "string \<times> string option \<Rightarrow> string \<Rightarrow> (string \<times> sample_value) list \<Rightarrow> (string \<times> sample_value) list" where
  "set_key (a, None) x t = (a, Leaf x) # t"
| "set_key (a, Some b) x t =
     (a, Node ((b, Leaf x) # (case map_of t a of Some (Node u) \<Rightarrow> u | _ \<Rightarrow> []))) # t"

definition sample_build :: "(string \<times> string) list \<Rightarrow> string \<Rightarrow> string \<Rightarrow> variables \<Rightarrow> sample_value option" where
  "sample_build ds pre sep vars =
     Some (Node (fold (\<lambda>(n, x). set_key (cut_key (drop (length pre + 2) (lower_name n))) x)
       (filter (\<lambda>(n, _). belongs pre n) vars) (map (\<lambda>(k, x). (k, Leaf x)) ds)))"

definition sample_crate :: "sample_value config_lib" where
  "sample_crate = \<lparr>cf_build = sample_build,
     cf_fields = (\<lambda>v. case v of Node t \<Rightarrow> Some (map_of t) | Leaf _ \<Rightarrow> None),
     cf_is_nil = (\<lambda>v. False),
     cf_string = (\<lambda>v. case v of Leaf s \<Rightarrow> Some s | Node _ \<Rightarrow> None), cf_strings = (\<lambda>v. None),
     cf_u16 = (\<lambda>v. None), cf_u32 = (\<lambda>v. None), cf_u64 = (\<lambda>v. None), cf_i64 = (\<lambda>v. None),
     cf_parse_addr = map_of [(''[::]:50051'', \<lparr>sa_ip = V6 0, sa_port = 50051\<rparr>),
       (''[::]:8080'', \<lparr>sa_ip = V6 0, sa_port = 8080\<rparr>), (''[::]:3000'', \<lparr>sa_ip = V6 0, sa_port = 3000\<rparr>)]\<rparr>"

lemma lower_char_underscore [simp]: "lower_char CHR ''_'' = CHR ''_''"
  by (simp add: lower_char_def)

lemma lower_char_is_underscore [simp]: "lower_char c = CHR ''_'' \<longleftrightarrow> c = CHR ''_''"
proof
  assume l: "lower_char c = CHR ''_''"
  show "c = CHR ''_''"
  proof (cases "65 \<le> (of_char c :: nat) \<and> (of_char c :: nat) \<le> 90")
    case True
    then have "char_of ((of_char c :: nat) + 32) = CHR ''_''" using l by (simp add: lower_char_def Let_def)
    then have "of_char (char_of ((of_char c :: nat) + 32) :: char) = (95 :: nat)" by simp
    with True show ?thesis by simp
  qed (use l in \<open>simp add: lower_char_def Let_def split: if_splits\<close>)
qed simp

lemma no_double_lower [simp]: "no_double (lower_name s) \<longleftrightarrow> no_double s"
  by (induction s rule: no_double.induct) simp_all

lemma cut_key_part: "no_double s \<Longrightarrow> cut_key s = (s, None)"
  by (induction s rule: cut_key.induct) auto

lemma cut_key_append:
  assumes "no_double s" and "s \<noteq> []" and "last s \<noteq> CHR ''_''"
  shows "cut_key (s @ CHR ''_'' # CHR ''_'' # r) = (s, Some r)"
  using assms by (induction s rule: cut_key.induct) auto

lemma cut_key_lower:
  assumes "key_part a"
  shows "cut_key (lower_name a) = (lower_name a, None)"
    and "cut_key (lower_name a @ CHR ''_'' # CHR ''_'' # r) = (lower_name a, Some r)"
  using assms cut_key_part [of "lower_name a"] cut_key_append [of "lower_name a" r]
  by (simp_all add: key_part_def last_map)

lemma belongs_self [simp]: "belongs pre (pre @ CHR ''_'' # CHR ''_'' # s)"
  by (simp add: belongs_def)

lemma map_of_leaves: "map_of (map (\<lambda>(k, x). (k, Leaf x)) ds) = (\<lambda>k. map_option Leaf (map_of ds k))"
  by (induction ds) auto

lemma sample_crate_ok: "crate_ok sample_crate Leaf"
  unfolding crate_ok_def
proof (intro conjI allI impI)
  fix ds pre vars a b x
  show "cf_build sample_crate ds pre ''__'' vars =
      cf_build sample_crate ds pre ''__'' (filter (\<lambda>(n, _). belongs pre n) vars)"
    by (simp add: sample_crate_def sample_build_def)
  show "\<exists>v. cf_build sample_crate ds pre ''__'' [] = Some v \<and>
      cf_fields sample_crate v = Some (\<lambda>k. map_option Leaf (map_of ds k))"
    by (simp add: sample_crate_def sample_build_def map_of_leaves)
  assume a: "key_part a"
  then show "\<exists>v. cf_build sample_crate ds pre ''__'' [(pre @ ''__'' @ a, x)] = Some v \<and>
      cf_fields sample_crate v = Some ((\<lambda>k. map_option Leaf (map_of ds k))(lower_name a \<mapsto> Leaf x))"
    by (simp add: sample_crate_def sample_build_def map_of_leaves cut_key_lower)
  assume "key_part b" "lower_name a \<notin> fst ` set ds"
  then show "\<exists>v w. cf_build sample_crate ds pre ''__'' [(pre @ ''__'' @ a @ ''__'' @ b, x)] = Some v \<and>
      cf_fields sample_crate v = Some ((\<lambda>k. map_option Leaf (map_of ds k))(lower_name a \<mapsto> w)) \<and>
      cf_fields sample_crate w = Some [lower_name b \<mapsto> Leaf x]"
    using a by (simp add: sample_crate_def sample_build_def map_of_leaves cut_key_lower
        map_of_eq_None_iff [symmetric] option.case_eq_if)
      (rule exI [of _ "Node [(lower_name b, Leaf x)]"], simp)
qed (simp_all add: sample_crate_def)

section \<open>Defaults\<close>

definition default_gateway_config :: gateway_config where
  "default_gateway_config = \<lparr>gc_listen_addr = default_gateway_listen_addr,
     gc_tls_cert_file = DEFAULT_TLS_CERT_FILE, gc_tls_key_file = DEFAULT_TLS_KEY_FILE,
     gc_identity_addr = DEFAULT_IDENTITY_ADDR, gc_scylla = default_scylla_config\<rparr>"

definition default_web_config :: web_config where
  "default_web_config = \<lparr>wc_listen_addr = default_web_listen_addr, wc_gateway_url = DEFAULT_GATEWAY_URL\<rparr>"

lemmas reading_defs = as_table_def as_prim_def as_addr_def required_def defaulted_def optional_def

lemmas gateway_load_defs = gateway_load_def deserialize_gateway_def deserialize_scylla_def
  deserialize_identity_addr_def reading_defs default_gateway_config_def default_scylla_config_def
  DEFAULT_GATEWAY_LISTEN_ADDR_def default_gateway_listen_addr_def

lemmas web_load_defs = web_load_def deserialize_web_def deserialize_gateway_url_def reading_defs
  default_web_config_def DEFAULT_WEB_LISTEN_ADDR_def default_web_listen_addr_def

lemmas identity_load_defs = identity_load_def deserialize_identity_def deserialize_db_def reading_defs
  DEFAULT_IDENTITY_LISTEN_ADDR_def default_identity_listen_addr_def

lemma no_variables:
  assumes "crate_ok C txt" and "\<forall>(n, x) \<in> set vars. \<not> belongs pre n"
  shows "cf_build C ds pre ''__'' vars = cf_build C ds pre ''__'' []"
proof -
  have "filter (\<lambda>(n, _). belongs pre n) vars = []" using assms(2) by (auto simp: filter_empty_conv)
  then show ?thesis using crate_okD(1) [OF assms(1), of ds pre vars] by simp
qed

lemma gateway_unconfigured:
  assumes "crate_ok C txt" and "\<forall>(n, x) \<in> set vars. \<not> belongs ''GATEWAY'' n"
  shows "gateway_load C vars = Inr default_gateway_config"
  using crate_okD(2) [OF assms(1), of "[(''listen_addr'', DEFAULT_GATEWAY_LISTEN_ADDR),
    (''tls_cert_file'', DEFAULT_TLS_CERT_FILE), (''tls_key_file'', DEFAULT_TLS_KEY_FILE)]" "''GATEWAY''"]
  by (auto simp: gateway_load_defs no_variables [OF assms] crate_okD(5-9) [OF assms(1)])

lemma web_unconfigured:
  assumes "crate_ok C txt" and "\<forall>(n, x) \<in> set vars. \<not> belongs ''WEB'' n"
  shows "web_load C vars = Inr default_web_config"
  using crate_okD(2) [OF assms(1), of "[(''listen_addr'', DEFAULT_WEB_LISTEN_ADDR)]" "''WEB''"]
  by (auto simp: web_load_defs no_variables [OF assms] crate_okD(5-9) [OF assms(1)])

lemma identity_unconfigured:
  assumes "crate_ok C txt" and "\<forall>(n, x) \<in> set vars. \<not> belongs ''IDENTITY'' n"
  shows "identity_load C vars = Inl Deserialize_Failed"
  using crate_okD(2) [OF assms(1), of "[(''listen_addr'', DEFAULT_IDENTITY_LISTEN_ADDR)]" "''IDENTITY''"]
  by (auto simp: identity_load_defs no_variables [OF assms] crate_okD(5-9) [OF assms(1)])

text \<open>Unconfigured servers: where no variable of its prefix is set, the gateway starts with all its
  defaults and so does the web server, while the identity service refuses to start, since its
  database has none.\<close>
lemma unconfigured_servers:
  assumes "crate_ok C txt"
    and "\<forall>(n, x) \<in> set vars. \<not> belongs ''GATEWAY'' n \<and> \<not> belongs ''WEB'' n \<and> \<not> belongs ''IDENTITY'' n"
  shows "gateway_load C vars = Inr default_gateway_config \<and> web_load C vars = Inr default_web_config \<and>
    identity_load C vars = Inl Deserialize_Failed"
  using assms(2)
  by (intro conjI gateway_unconfigured [OF assms(1)] web_unconfigured [OF assms(1)]
      identity_unconfigured [OF assms(1)]) auto

section \<open>Variables\<close>

lemma gateway_key:
  assumes "crate_ok C txt" and "key_part a" and "key_part b"
    and "lower_name a \<notin> {''listen_addr'', ''tls_cert_file'', ''tls_key_file''}"
  obtains v w where "cf_build C [(''listen_addr'', DEFAULT_GATEWAY_LISTEN_ADDR),
      (''tls_cert_file'', DEFAULT_TLS_CERT_FILE), (''tls_key_file'', DEFAULT_TLS_KEY_FILE)] ''GATEWAY'' ''__''
      [(''GATEWAY'' @ ''__'' @ a @ ''__'' @ b, x)] = Some v"
    and "cf_fields C v = Some ((\<lambda>k. map_option txt (map_of [(''listen_addr'', DEFAULT_GATEWAY_LISTEN_ADDR),
      (''tls_cert_file'', DEFAULT_TLS_CERT_FILE), (''tls_key_file'', DEFAULT_TLS_KEY_FILE)] k))(lower_name a \<mapsto> w))"
    and "cf_fields C w = Some [lower_name b \<mapsto> txt x]"
  using crate_okD(4) [OF assms(1-3), of "[(''listen_addr'', DEFAULT_GATEWAY_LISTEN_ADDR),
      (''tls_cert_file'', DEFAULT_TLS_CERT_FILE), (''tls_key_file'', DEFAULT_TLS_KEY_FILE)]" "''GATEWAY''" x]
    assms(4) by auto

lemma key_parts:
  "key_part ''IDENTITY''" "key_part ''SCYLLA''" "key_part ''ADDR''" "key_part ''KEYSPACE''"
  "key_part ''CONTACT_POINTS''" "key_part ''GATEWAY''" "key_part ''URL''"
  by (simp_all add: key_part_def)

lemma lower_names:
  "lower_name ''IDENTITY'' = ''identity''" "lower_name ''SCYLLA'' = ''scylla''" "lower_name ''ADDR'' = ''addr''"
  "lower_name ''KEYSPACE'' = ''keyspace''" "lower_name ''CONTACT_POINTS'' = ''contact_points''"
  "lower_name ''GATEWAY'' = ''gateway''" "lower_name ''URL'' = ''url''"
  by code_simp+

lemma gateway_variable_identity:
  assumes "crate_ok C txt"
  shows "gateway_load C [(''GATEWAY__IDENTITY__ADDR'', x)] = Inr (default_gateway_config\<lparr>gc_identity_addr := x\<rparr>)"
proof -
  note key = gateway_key [OF assms key_parts(1,3), of x, unfolded lower_names, simplified]
  show ?thesis
    by (rule key) (simp add: gateway_load_defs crate_okD(5-9) [OF assms])
qed

lemma gateway_variable_keyspace:
  assumes "crate_ok C txt"
  shows "gateway_load C [(''GATEWAY__SCYLLA__KEYSPACE'', x)] =
    Inr (default_gateway_config\<lparr>gc_scylla := default_scylla_config\<lparr>scy_keyspace := x\<rparr>\<rparr>)"
proof -
  note key = gateway_key [OF assms key_parts(2,4), of x, unfolded lower_names, simplified]
  show ?thesis
    by (rule key) (simp add: gateway_load_defs crate_okD(5-9) [OF assms])
qed

lemma gateway_variable_contact_points:
  assumes "crate_ok C txt"
  shows "gateway_load C [(''GATEWAY__SCYLLA__CONTACT_POINTS'', x)] = Inl Deserialize_Failed"
proof -
  note key = gateway_key [OF assms key_parts(2,5), of x, unfolded lower_names, simplified]
  show ?thesis
    by (rule key) (simp add: gateway_load_defs crate_okD(5-9) [OF assms])
qed

lemma web_variable_gateway:
  assumes "crate_ok C txt"
  shows "web_load C [(''WEB__GATEWAY__URL'', x)] = Inr (default_web_config\<lparr>wc_gateway_url := x\<rparr>)"
proof -
  note key = crate_okD(4) [OF assms key_parts(6,7), of "[(''listen_addr'', DEFAULT_WEB_LISTEN_ADDR)]" "''WEB''" x,
    unfolded lower_names, simplified]
  show ?thesis
    using key by (elim exE conjE) (simp add: web_load_defs crate_okD(5-9) [OF assms])
qed

text \<open>The variables that the comments of the structures document, each set alone: the address of the
  identity service, the keyspace and the URL of the gateway take the given text and leave every
  other field at its default, whereas the contact points cannot be set this way: the gateway then
  refuses to start, whatever the text.\<close>
theorem documented_variables:
  assumes "crate_ok C txt"
  shows "gateway_load C [(''GATEWAY__IDENTITY__ADDR'', x)] = Inr (default_gateway_config\<lparr>gc_identity_addr := x\<rparr>) \<and>
    gateway_load C [(''GATEWAY__SCYLLA__KEYSPACE'', x)] =
      Inr (default_gateway_config\<lparr>gc_scylla := default_scylla_config\<lparr>scy_keyspace := x\<rparr>\<rparr>) \<and>
    web_load C [(''WEB__GATEWAY__URL'', x)] = Inr (default_web_config\<lparr>wc_gateway_url := x\<rparr>) \<and>
    gateway_load C [(''GATEWAY__SCYLLA__CONTACT_POINTS'', x)] = Inl Deserialize_Failed"
  by (intro conjI gateway_variable_identity [OF assms] gateway_variable_keyspace [OF assms]
      web_variable_gateway [OF assms] gateway_variable_contact_points [OF assms])

theorem documented_variables_witness:
  "gateway_load sample_crate [(''GATEWAY__SCYLLA__CONTACT_POINTS'', ''scylla:9042'')] = Inl Deserialize_Failed \<and>
   web_load sample_crate [(''WEB__GATEWAY__URL'', ''http://gw'')] =
     Inr (default_web_config\<lparr>wc_gateway_url := ''http://gw''\<rparr>)"
  using documented_variables [OF sample_crate_ok, of "''scylla:9042''"]
    documented_variables [OF sample_crate_ok, of "''http://gw''"] by blast

lemma other_variable:
  assumes "crate_ok C txt" and "\<not> belongs pre n"
  shows "cf_build C ds pre ''__'' (vars @ (n, x) # vars') = cf_build C ds pre ''__'' (vars @ vars')"
  using crate_okD(1) [OF assms(1), of ds pre "vars @ (n, x) # vars'"]
    crate_okD(1) [OF assms(1), of ds pre "vars @ vars'"] assms(2) by simp

text \<open>A single underscore after the prefix is not enough: the variables \<open>IDENTITY_LISTEN_ADDR\<close>,
  \<open>IDENTITY_WEB_BASE_URL\<close> and \<open>GATEWAY_LISTEN_ADDR\<close>, whatever else is set and whatever their value,
  change nothing of what is loaded.\<close>
theorem single_underscore_ignored:
  assumes "crate_ok C txt" and "n \<in> {''IDENTITY_LISTEN_ADDR'', ''IDENTITY_WEB_BASE_URL'', ''GATEWAY_LISTEN_ADDR''}"
  shows "identity_load C (vars @ (n, x) # vars') = identity_load C (vars @ vars') \<and>
    gateway_load C (vars @ (n, x) # vars') = gateway_load C (vars @ vars')"
proof -
  have "list_all (\<lambda>m. \<not> belongs ''IDENTITY'' m \<and> \<not> belongs ''GATEWAY'' m)
      [''IDENTITY_LISTEN_ADDR'', ''IDENTITY_WEB_BASE_URL'', ''GATEWAY_LISTEN_ADDR'']"
    by code_simp
  with assms(2) have "\<not> belongs ''IDENTITY'' n" "\<not> belongs ''GATEWAY'' n" by auto
  then show ?thesis by (simp add: identity_load_def gateway_load_def other_variable [OF assms(1)])
qed

theorem single_underscore_ignored_witness:
  "identity_load sample_crate [(''IDENTITY__DB__HOST'', ''db''), (''IDENTITY__DB__DATABASE'', ''identity''),
      (''IDENTITY_WEB_BASE_URL'', ''http://localhost:3000''), (''IDENTITY__DB__USERNAME'', ''identity'')] =
   Inr \<lparr>idc_listen_addr = \<lparr>sa_ip = V6 0, sa_port = 50051\<rparr>, idc_web_base_url = ''https://home.ryanseipp.com'',
      idc_db = \<lparr>dbc_host = ''db'', dbc_port = 5432, dbc_database = ''identity'', dbc_username = ''identity'',
        dbc_password = None, dbc_max_connections = 5\<rparr>, idc_db_read = None,
      idc_kafka = default_kafka_config, idc_spiffe_endpoint_socket = None\<rparr>"
proof -
  let ?vars = "[(''IDENTITY__DB__HOST'', ''db''), (''IDENTITY__DB__DATABASE'', ''identity'')]"
    and ?vars' = "[(''IDENTITY__DB__USERNAME'', ''identity'')]"
  have "identity_load sample_crate (?vars @ ?vars') =
     Inr \<lparr>idc_listen_addr = \<lparr>sa_ip = V6 0, sa_port = 50051\<rparr>, idc_web_base_url = ''https://home.ryanseipp.com'',
      idc_db = \<lparr>dbc_host = ''db'', dbc_port = 5432, dbc_database = ''identity'', dbc_username = ''identity'',
        dbc_password = None, dbc_max_connections = 5\<rparr>, idc_db_read = None,
      idc_kafka = default_kafka_config, idc_spiffe_endpoint_socket = None\<rparr>"
    by code_simp
  moreover have "identity_load sample_crate (?vars @ (''IDENTITY_WEB_BASE_URL'', ''http://localhost:3000'') # ?vars') =
      identity_load sample_crate (?vars @ ?vars')"
    using single_underscore_ignored [OF sample_crate_ok, of "''IDENTITY_WEB_BASE_URL''"] by blast
  ultimately show ?thesis by simp
qed

end
