(* ===== verification/Registration_Props.thy ===== *)
theory Registration_Props
  imports No_Panic Sample_Identity
begin

text \<open>
  The properties of registration: sign-up, email verification and resending, with their witnesses
  on the sample deployment.
\<close>

section \<open>Sign-up\<close>

text \<open>C6. Sign-up is all or nothing. Whatever fails and whatever other clients do, it leaves the
  database as it was, as other clients left it, or with exactly three new rows: a pending user with
  a hash of the password, a verification token that expires in an hour, and an unpublished event
  whose mail carries the very token whose digest is stored. It reports success only in the last
  case; with an error, the rows can be there only where the reply to the commit was lost.\<close>
theorem sign_up_atomic:
  "sign_up L V un em gn fn pw url w = (r, w') \<longrightarrow>
     (\<exists>x. r = Inl x) \<and> w_db w' = w_db w \<or>
     (\<exists>t. (\<exists>x. r = Inl x) \<and> w_db w' = e_others V t (w_db w) \<or>
       (r = Inr () \<or> r = Inl (Err (SU_Db Other_Pg_Error))) \<and>
       registered L V un em gn fn pw url (e_others V t (w_db w)) (w_db w'))"
  using sign_up_result by blast

lemma replicate_not_short: "replicate 32 x \<noteq> [3, 2, 1 :: byte]" "[3, 2, 1 :: byte] \<noteq> replicate 32 x"
  by (auto dest: arg_cong [of _ _ length])

lemma sample_sign_up_at:
  assumes "t = 100 \<or> t = 108"
  shows "\<exists>w'. sign_up login_libs sample_env ''carol'' ''c@d.e'' ''Ca'' ''Rol'' (Some ''password'') url
     \<lparr>w_db = sample_db\<lparr>signing_keys := ks\<rparr>, w_tick = t\<rparr> = (Inr (), w')"
proof -
  have v: "sign_up_validate ''carol'' ''c@d.e'' (Some ''password'') = Inr ''password''"
    by code_simp
  show ?thesis
    using assms
    by (elim disjE; simp add: sign_up_def sign_up_prepare_def andThen_Inr_iff pureR_Inr_iff ask_Inr_iff v
        hash_password_blocking_Inr_iff extract_trace_context_Inr_iff pool_get_Inr_iff ret_def
        hash_password_def sample_password_def generate_verification_token_def transaction_Inr_iff
        insert_user_tx_Inr_iff insert_token_tx_Inr_iff insert_event_tx_Inr_iff mapErr_Inr_iff Let_def;
      simp add: sample_db_def users_violation_def tokens_violation_def outbox_violation_def new_user_def
        new_token_def new_event_def live_def sample_user_def sample_pending_def sample_token_def replicate_not_short)
qed

lemma sample_sign_up:
  "\<exists>w'. sign_up login_libs sample_env ''carol'' ''c@d.e'' ''Ca'' ''Rol'' (Some ''password'') ''https://h'' sample_world
     = (Inr (), w')"
  using sample_sign_up_at [of 100 _ "signing_keys sample_db"] by (simp add: sample_world_def)

theorem sign_up_atomic_witness:
  "\<exists>w' d. sign_up login_libs sample_env ''carol'' ''c@d.e'' ''Ca'' ''Rol'' (Some ''password'') ''https://h'' sample_world
       = (Inr (), w') \<and>
     registered login_libs sample_env ''carol'' ''c@d.e'' ''Ca'' ''Rol'' (Some ''password'') ''https://h'' d (w_db w')"
  using sample_sign_up sign_up_atomic by (metis Inl_Inr_False)

lemma sign_up_validate_errors: "sign_up_validate un em pw = Inl e \<Longrightarrow> e \<noteq> UsernameTaken \<and> e \<noteq> EmailTaken"
  by (auto simp: sign_up_validate_def try_r_Inl_iff map_err_Inl_iff ok_or_Inl_iff split: if_splits)

lemma sign_up_prepare_errors:
  "errs (\<lambda>e. e \<noteq> UsernameTaken \<and> e \<noteq> EmailTaken) (sign_up_prepare L V un em gn fn pw url)"
  unfolding sign_up_prepare_def hash_password_blocking_def extract_trace_context_def
  by (intro errs_intros) (simp_all add: sign_up_validate_errors)

lemma transaction_body_error:
  assumes "transaction V f body w = (Inl (Err e), w')" and "e \<noteq> f Other_Pg_Error"
  obtains w1 where "body (Tx (e_db_now V (w_tick w)))
    \<lparr>w_db = e_others V (w_tick w) (w_db w), w_tick = Suc (w_tick w)\<rparr> = (Inl (Err e), w1)"
  using assms by (auto simp: transaction_def Let_def split: outcome.splits prod.splits sum.splits)

lemma insert_user_tx_error:
  assumes "insert_user L V (Tx now) i un em gn fn ph w = (Inl (Err e), w')"
  shows "(e = UsernameTaken \<longrightarrow> users_violation (l_lower L) (users (w_db w) @ [new_user i un em gn fn ph now])
      = Some ''idx_users_username'') \<and>
    (e = EmailTaken \<longrightarrow> users_violation (l_lower L) (users (w_db w) @ [new_user i un em gn fn ph now])
      = Some ''idx_users_email'')"
proof -
  from assms obtain x where x: "e = insert_user_error x" "exec V (Tx now)
      (sql_insert_user (l_lower L) i un em gn fn ph) w = (Inl (Err x), w')"
    by (auto simp: insert_user_def andThen_Inl_iff ret_def mapErr_def map_err_def
        split: prod.splits sum.splits elim!: map_exit.elims)
  then show ?thesis
    by (cases x) (auto simp: exec.simps Let_def sql_insert_user_def new_user_def
        split: outcome.splits sum.splits if_splits)
qed

lemma users_violation_append:
  assumes "users_violation low us = None" and "live u"
  shows "users_violation low (us @ [u]) = Some ''idx_users_username'' \<Longrightarrow>
      low (u_username u) \<in> (low \<circ> u_username) ` set (filter live us)"
    and "users_violation low (us @ [u]) = Some ''idx_users_email'' \<Longrightarrow>
      low (u_email u) \<in> (low \<circ> u_email) ` set (filter live us)"
    and "users_violation low (us @ [u]) = None \<Longrightarrow>
      low (u_username u) \<notin> (low \<circ> u_username) ` set (filter live us) \<and>
      low (u_email u) \<notin> (low \<circ> u_email) ` set (filter live us)"
  using assms by (auto simp: users_violation_def split: if_splits)

lemma sign_up_taken:
  assumes "sign_up L V un em gn fn pw url w = (Inl (Err e), w')"
    and "e = UsernameTaken \<and> c = ''idx_users_username'' \<or> e = EmailTaken \<and> c = ''idx_users_email''"
  shows "\<exists>t i ph now. users_violation (l_lower L)
    (users (e_others V t (w_db w)) @ [new_user i un em gn fn ph now]) = Some c"
  using assms(1) unfolding sign_up_def
proof (cases rule: quiet_step [OF _ quiet_sign_up_prepare, consumes 1, case_names stop go])
  case (stop x)
  with errsD [OF sign_up_prepare_errors] assms(2) show ?thesis by blast
next
  case (go rg w2)
  from go(3) assms(2) obtain w1 now where b: "andThen (insert_user L V (Tx now) (rg_user_id rg) un em gn fn (rg_password_hash rg)) (\<lambda>_.
     andThen (mapErr SU_Db (insert_token V (Tx now) (rg_token_id rg) (rg_user_id rg) (rg_token_hash rg) (rg_expires_at rg))) (\<lambda>_.
     mapErr SU_Outbox (insert_event V (Tx now) (rg_outbox_id rg) ''user'' (rg_user_id rg) ''auth_email''
      (rg_payload rg) (rg_trace_id rg) (rg_span_id rg))))
      \<lparr>w_db = e_others V (w_tick w2) (w_db w), w_tick = Suc (w_tick w2)\<rparr> = (Inl (Err e), w1)"
    by (elim transaction_body_error) (auto simp: go(2))
  have "insert_user L V (Tx now) (rg_user_id rg) un em gn fn (rg_password_hash rg)
      \<lparr>w_db = e_others V (w_tick w2) (w_db w), w_tick = Suc (w_tick w2)\<rparr> = (Inl (Err e), w1)"
  proof -
    have "errs (\<lambda>e. e \<noteq> UsernameTaken \<and> e \<noteq> EmailTaken) (andThen (mapErr SU_Db m) (\<lambda>_. mapErr SU_Outbox k))"
      for m :: "(pg_error, unit) io" and k :: "(outbox_error, unit) io"
      by (intro errs_intros) simp_all
    from errsD [OF this] b assms(2) show ?thesis
      unfolding andThen_Inl_iff [of "insert_user _ _ _ _ _ _ _ _ _"] by blast
  qed
  from insert_user_tx_error [OF this] assms(2) show ?thesis by auto
qed

text \<open>C31. Sign-up and uniqueness: it succeeds only where no live account has that user name or email
  up to \<open>LOWER\<close>, and it answers \<open>UsernameTaken\<close> or \<open>EmailTaken\<close> only where one has.\<close>
theorem sign_up_unique:
  assumes "env_keeps (inv L) V" and "inv L (w_db w)" and "sign_up L V un em gn fn pw url w = (r, w')"
  shows "\<exists>t. let us = filter live (users (e_others V t (w_db w))) in
    (r = Inr () \<longrightarrow> l_lower L un \<notin> (l_lower L \<circ> u_username) ` set us \<and>
      l_lower L em \<notin> (l_lower L \<circ> u_email) ` set us) \<and>
    (r = Inl (Err UsernameTaken) \<longrightarrow> l_lower L un \<in> (l_lower L \<circ> u_username) ` set us) \<and>
    (r = Inl (Err EmailTaken) \<longrightarrow> l_lower L em \<in> (l_lower L \<circ> u_email) ` set us)"
proof (cases r)
  case (Inl x)
  have I: "users_violation (l_lower L) (users (e_others V t (w_db w))) = None" for t
    using assms(1,2) by (auto simp: env_keeps_def db_inv_def)
  have new: "live (new_user i un em gn fn ph now)" "u_username (new_user i un em gn fn ph now) = un"
    "u_email (new_user i un em gn fn ph now) = em" for i ph now
    by (simp_all add: live_def new_user_def)
  consider "x = Err UsernameTaken" | "x = Err EmailTaken" | "x \<noteq> Err UsernameTaken" "x \<noteq> Err EmailTaken" by blast
  then show ?thesis
  proof cases
    case 1
    with assms(3) Inl have "sign_up L V un em gn fn pw url w = (Inl (Err UsernameTaken), w')" by simp
    from sign_up_taken [OF this, of "''idx_users_username''"] obtain t where
      "l_lower L un \<in> (l_lower L \<circ> u_username) ` set (filter live (users (e_others V t (w_db w))))"
      using users_violation_append(1) [OF I new(1)] new(2) by metis
    with 1 Inl show ?thesis by (intro exI [of _ t]) (simp add: Let_def)
  next
    case 2
    with assms(3) Inl have "sign_up L V un em gn fn pw url w = (Inl (Err EmailTaken), w')" by simp
    from sign_up_taken [OF this, of "''idx_users_email''"] obtain t where
      "l_lower L em \<in> (l_lower L \<circ> u_email) ` set (filter live (users (e_others V t (w_db w))))"
      using users_violation_append(2) [OF I new(1)] new(3) by metis
    with 2 Inl show ?thesis by (intro exI [of _ t]) (simp add: Let_def)
  qed (use Inl in \<open>auto simp: Let_def\<close>)
next
  case (Inr u)
  with sign_up_result [OF assms(3)] obtain t where
    "registered L V un em gn fn pw url (e_others V t (w_db w)) (w_db w')" by auto
  then obtain i ph now where v: "users_violation (l_lower L)
      (users (e_others V t (w_db w)) @ [new_user i un em gn fn ph now]) = None"
    by (auto simp: registered_def)
  have "users_violation (l_lower L) (users (e_others V t (w_db w))) = None"
    using assms(1,2) by (auto simp: env_keeps_def db_inv_def)
  from users_violation_append(3) [OF this _ v] show ?thesis
    using Inr by (intro exI [of _ t]) (auto simp: Let_def new_user_def live_def)
qed

theorem sign_up_unique_witness:
  "\<exists>w'. sign_up login_libs sample_env ''carol'' ''c@d.e'' ''Ca'' ''Rol'' (Some ''password'') ''https://h'' sample_world
       = (Inr (), w') \<and> ''carol'' \<notin> u_username ` set (filter live (users sample_db))"
proof -
  obtain w' where s: "sign_up login_libs sample_env ''carol'' ''c@d.e'' ''Ca'' ''Rol'' (Some ''password'') ''https://h''
      sample_world = (Inr (), w')" using sample_sign_up by blast
  have "''carol'' \<notin> (\<lambda>u. u_username u) ` set (filter live (users sample_db))"
    using sign_up_unique [OF calm_keeps [OF sample_env_calm] _ s] by (auto simp: sample_db_inv Let_def comp_def)
  with s show ?thesis by auto
qed


section \<open>Email verification\<close>

text \<open>C9. Verification succeeds exactly when the presented token decodes, its digest belongs to a
  token that is not consumed and not expired, its user is live and every statement gets through;
  then that token is consumed, its user becomes verified and active, and nothing else changes.\<close>
theorem verify_email_exact:
  assumes "env_keeps (inv L) V" and "inv L (w_db w)"
  shows "verify_email L V tok w = (Inr (), w') \<longleftrightarrow>
    e_pool V (w_tick w) \<and> (\<forall>i \<in> {1, 2, 4, 5, 6}. e_stmt V (w_tick w + i) = Delivered) \<and>
    (\<exists>h tk. hash_verification_token (l_b64 L) (l_sha256 L) tok = Inr h \<and>
       usable tk h (e_utc V (w_tick w + 3)) (e_others V (w_tick w + 1) (w_db w)) \<and>
       w' = \<lparr>w_db = verified tk (e_db_now V (w_tick w + 1)) (e_others V (w_tick w + 1) (w_db w)),
             w_tick = w_tick w + 7\<rparr>)"
  using verify_email_Inr_iff [OF assms, of tok w'] by simp

lemma sample_token_hash: "hash_verification_token hex64 rev (hex_encode [1, 2, 3]) = Inr [3, 2, 1]"
  by (simp add: hash_verification_token_def hex64_def hex_decode_opt_def decode_hex_encode)

lemma sample_usable: "usable sample_token [3, 2, 1] (minutes 10) sample_db"
  by (simp add: usable_def sample_token_def sample_db_def minutes_def seconds_def one_second_def,
      simp add: live_def sample_pending_def)

theorem verify_email_exact_witness:
  "verify_email login_libs sample_env (hex_encode [1, 2, 3]) sample_world =
     (Inr (), \<lparr>w_db = verified sample_token (minutes 10) sample_db, w_tick = 107\<rparr>)"
proof -
  have "\<exists>h tk. hash_verification_token hex64 rev (hex_encode [1, 2, 3]) = Inr h \<and>
      usable tk h (minutes 10) sample_db \<and>
      \<lparr>w_db = verified sample_token (minutes 10) sample_db, w_tick = 107\<rparr> =
        \<lparr>w_db = verified tk (minutes 10) sample_db, w_tick = 107::nat\<rparr>"
    using sample_token_hash sample_usable by blast
  then show ?thesis
    by (subst verify_email_exact [OF calm_keeps [OF sample_env_calm]]) (simp_all add: sample_db_inv)
qed

text \<open>A verification token works once: after it was used, presenting it again fails, in any
  later state in which no further token with that digest was stored.\<close>
theorem verify_email_single_use:
  assumes "env_keeps (inv L) V" and "inv L (w_db w)" and "verify_email L V tok w = (Inr (), w1)"
    and "inv L (w_db w2)"
    and "\<forall>t \<in> set (tokens (e_others V (w_tick w2 + 1) (w_db w2))).
      t_consumed_at t = None \<longrightarrow> t \<in> set (tokens (w_db w1))"
  shows "verify_email L V tok w2 \<noteq> (Inr (), w3)"
proof
  assume again: "verify_email L V tok w2 = (Inr (), w3)"
  let ?d = "e_others V (Suc (w_tick w)) (w_db w)" and ?d2 = "e_others V (Suc (w_tick w2)) (w_db w2)"
  have I: "inv L ?d" using assms(1,2) by (simp add: env_keeps_def)
  from assms(3) obtain h tk utc now where
      h: "hash_verification_token (l_b64 L) (l_sha256 L) tok = Inr h" and tk: "usable tk h utc ?d"
    and w1: "w_db w1 = verified tk now ?d"
    by (auto simp: verify_email_Inr_iff [OF assms(1,2)])
  from again obtain tk' utc' where tk': "usable tk' h utc' ?d2"
    using h by (auto simp: verify_email_Inr_iff [OF assms(1,4)])
  then have "tk' \<in> set (tokens (verified tk now ?d))" and open': "t_consumed_at tk' = None" "t_token_hash tk' = h"
    using assms(5) w1 by (auto simp: usable_def)
  then obtain t where t: "t \<in> set (tokens ?d)" "tk' = (if t = tk then consume_row now t else t)"
    by (auto simp: verified_def)
  with open' have "t \<noteq> tk" "tk' = t" by (auto simp: consume_row_def split: if_splits)
  moreover have "t = tk"
    using distinct_map_inj [OF db_inv_unique(5) [OF I], of t tk] t(1) tk open' \<open>tk' = t\<close>
    by (auto simp: usable_def)
  ultimately show False by simp
qed

theorem verify_email_single_use_witness:
  "verify_email login_libs sample_env (hex_encode [1, 2, 3])
     \<lparr>w_db = verified sample_token (minutes 10) sample_db, w_tick = 107\<rparr> \<noteq>
     (Inr (), \<lparr>w_db = verified sample_token (minutes 10) sample_db, w_tick = 114\<rparr>)"
proof -
  have first: "verify_email login_libs sample_env (hex_encode [1, 2, 3]) sample_world =
     (Inr (), \<lparr>w_db = verified sample_token (minutes 10) sample_db, w_tick = 107\<rparr>)"
    using sample_token_hash sample_usable
    by (subst verify_email_Inr_iff [OF calm_keeps [OF sample_env_calm]]) (auto simp: sample_db_inv)
  show ?thesis
    by (rule verify_email_single_use [OF calm_keeps [OF sample_env_calm] _ first])
      (use io_keepsD [OF constraints_kept.keeps_verify_email [OF calm_keeps [OF sample_env_calm]] _ first] in
        \<open>simp_all add: sample_db_inv\<close>)
qed

text \<open>A fresh registration can be verified: within the hour, the token in the mail that sign-up
  queued makes the new account verified and active.\<close>
lemma sign_up_then_verify:
  assumes "libs_ok L" and "calm V" and "inv L (w_db w)" and "\<forall>t t'. e_utc V t' \<le> e_utc V t + minutes 60"
    and "sign_up L V un em gn fn pw url w = (Inr (), w1)" and "w_db w2 = w_db w1"
  shows "\<exists>tok ev oid tr sp at u w3.
    ev \<in> set (outbox (w_db w1)) \<and> ob_published_at ev = None \<and>
    ob_payload ev = l_encode L (verification_event L url oid em (gn @ '' '' @ fn) tr sp at tok) \<and>
    verify_email L V tok w2 = (Inr (), w3) \<and>
    u \<in> set (users (w_db w3)) \<and> live u \<and> u_username u = un \<and> u_email u = em \<and>
    u_email_verified u \<and> u_status u = user_status_as_str Active"
proof -
  from fresh_account_verifies [OF assms] obtain tok ev oid tr sp at uid ph now now' w3 salt p where
    "ev \<in> set (outbox (w_db w1))" "ob_published_at ev = None"
    "ob_payload ev = l_encode L (verification_event L url oid em (gn @ '' '' @ fn) tr sp at tok)"
    "verify_email L V tok w2 = (Inr (), w3)"
    "activate_row now' (new_user uid un em gn fn ph now) \<in> set (users (w_db w3))" .
  then show ?thesis
    by (intro exI [of _ tok] exI [of _ ev] exI [of _ oid] exI [of _ tr] exI [of _ sp] exI [of _ at]
        exI [of _ "activate_row now' (new_user uid un em gn fn ph now)"] exI [of _ w3])
      (simp add: activate_row_def new_user_def live_def)
qed

section \<open>Resending\<close>

text \<open>C32. Resending, without interference: an unknown, deleted or already verified address gets the
  same answer as a successful resend and changes nothing; for a pending account, three tokens in
  the last hour are the limit, beyond which nothing is stored; otherwise a success stores one token
  of an hour and one event that carries it.\<close>
theorem resend_behaviour:
  assumes "calm V" and "inv L (w_db w)" and "resend_verification L V em url w = (r, w')"
  shows "case email_owner (l_lower L) (w_db w) em of
      None \<Rightarrow> r = Inr () \<and> w_db w' = w_db w
    | Some u \<Rightarrow>
       (if u_status u \<noteq> user_status_as_str PendingVerification then r = Inr () \<and> w_db w' = w_db w
        else if recent_tokens (w_db w) (u_id u) (e_db_now V (w_tick w + 2)) \<ge> 3
        then r = Inl (Err RateLimited) \<and> w_db w' = w_db w
        else (case r of
            Inl x \<Rightarrow> w_db w' = w_db w
          | Inr _ \<Rightarrow> \<exists>tid h utc oid payload tr sp t. w_tick w + 2 < t \<and>
              mails_token L url oid (u_email u) (u_given_name u @ '' '' @ u_family_name u) h payload \<and>
              w_db w' = add_rows [] [new_token tid (u_id u) h (utc + minutes 60) (e_db_now V t)]
                [new_event oid (u_id u) payload tr sp (e_db_now V t)] (w_db w)))"
proof (cases "email_owner (l_lower L) (w_db w) em")
  case None
  then show ?thesis using resend_silent [OF assms(1,2), of em url] assms(3) by simp
next
  case (Some u)
  show ?thesis
  proof (cases "u_status u = user_status_as_str PendingVerification")
    case False
    then show ?thesis using resend_silent [OF assms(1,2), of em url] assms(3) Some by simp
  next
    case True
    have "resend_to_user L V (Conn Primary) (user_of u) url (w\<lparr>w_tick := w_tick w + 2\<rparr>) = (r, w')"
      using resend_pending [OF assms(1,2) Some True] assms(3) by simp
    from resend_to_user_result [OF assms(1) this] show ?thesis
      using Some True by (auto simp: user_of_simps split: if_splits sum.splits)
  qed
qed

theorem resend_behaviour_witness:
  "\<exists>w'. resend_verification login_libs sample_env ''a@b.c'' ''https://h'' sample_world = (Inr (), w') \<and>
     w_db w' = sample_db"
proof -
  obtain r w' where r: "resend_verification login_libs sample_env ''a@b.c'' ''https://h'' sample_world = (r, w')"
    by (cases "resend_verification login_libs sample_env ''a@b.c'' ''https://h'' sample_world")
  have "u_status sample_user \<noteq> user_status_as_str PendingVerification" by (simp add: sample_user_def)
  then show ?thesis
    using resend_behaviour [OF sample_env_calm _ r] r by (simp add: sample_db_inv sample_owner)
qed

end
