(* ===== verification/Startup_Props.thy ===== *)
theory Startup_Props
  imports Startup Config_Props Account_Laws Identity_Props Registration_Props Gateway_Props
begin

text \<open>
  What start-up guarantees: how the identity service is configured, that a store without an active
  signing key gets one, which makes a whole account life cycle work, and that a KEK which does not
  unwrap a stored key is not noticed; when the gateway serves HTTPS, and how that ends.
\<close>

section \<open>The identity service\<close>

lemma identity_main_Inr:
  assumes "identity_main L V B w = (Inr (srv, kc, p), w')"
  obtains config kek sp db w1 guard sub where
    "identity_telemetry (bt_otel B) (bt_process B) = Inr (guard, sub)"
    "identity_load (bt_crate B) (bt_vars B) = Inr config"
    "load_kek (l_b64 L) (bt_process B) = Inr kek"
    "spiffe_context_new (logs_info (bt_otel B) sub) (bt_spiffe B) (bt_process B) (idc_spiffe_endpoint_socket config) = Inr sp"
    "database_pool_connect (build_pool (bt_pool_builds B) (spc_client_tls sp)) (idc_db config) (idc_db_read config) = Inr db"
    "w_db w1 = w_db w" "ensure_signing_key L V Primary kek w1 = (Inr (), w')"
    "srv = identity_run (idc_listen_addr config) (idc_web_base_url config) (pool_roles db) kek (Some (spc_server_tls sp))"
    "kc = idc_kafka config" "p = spawn"
proof -
  from assms obtain config kek sp db guard sub where
    "identity_telemetry (bt_otel B) (bt_process B) = Inr (guard, sub)"
    "identity_load (bt_crate B) (bt_vars B) = Inr config" "load_kek (l_b64 L) (bt_process B) = Inr kek"
    "spiffe_context_new (logs_info (bt_otel B) sub) (bt_spiffe B) (bt_process B) (idc_spiffe_endpoint_socket config) = Inr sp"
    "database_pool_connect (build_pool (bt_pool_builds B) (spc_client_tls sp)) (idc_db config) (idc_db_read config) = Inr db"
    "ensure_signing_key L V Primary kek (w\<lparr>w_tick := w_tick w + 2\<rparr>) = (Inr (), w')"
    "srv = identity_run (idc_listen_addr config) (idc_web_base_url config) (pool_roles db) kek (Some (spc_server_tls sp))"
    "kc = idc_kafka config" "p = spawn"
    by (auto simp: identity_main_def io_Inr_iff migrate_def Let_def split: if_splits)
  then show thesis by (intro that [of guard sub config kek sp db "w\<lparr>w_tick := w_tick w + 2\<rparr>"]) simp_all
qed

lemma connect_without_replica: "database_pool_connect build db None = Inr p \<Longrightarrow> dp_reader p = dp_writer p"
  by (auto simp: database_pool_connect_def)

text \<open>Rows that load under the KEK that the process is started with.\<close>

definition keys_under_kek :: "'kp libs \<Rightarrow> process_env \<Rightarrow> db \<Rightarrow> bool" where
  "keys_under_kek L P d \<longleftrightarrow> (case load_kek (l_b64 L) P of
      Inl _ \<Rightarrow> True
    | Inr kek \<Rightarrow> \<forall>r \<in> set (signing_keys d). key_row_ok L kek r)"

text \<open>What the environment's generators promise: nonces of the right length, no empty key.\<close>

definition generators_ok :: "env \<Rightarrow> bool" where
  "generators_ok V \<longleftrightarrow> (\<forall>t n. e_rand V t NONCE_LEN = Some n \<longrightarrow> length n = NONCE_LEN) \<and>
     (\<forall>t a. e_pkcs8 V t a \<noteq> Some [])"

text \<open>Start-up stores a key exactly where there is no active one; it does not look at the others.\<close>

lemma boot_store:
  assumes "libs_ok L" and "calm V" and "generators_ok V" and "identity_main L V B w = (Inr (srv, kc, p), w')"
  shows "newest_active (w_db w) \<noteq> None \<Longrightarrow> w_db w' = w_db w"
    and "newest_active (w_db w) = None \<Longrightarrow> \<exists>row. sk_status row = ''active'' \<and>
      key_row_ok L (is_kek (srv_service srv)) row \<and> newest_active (w_db w') = Some row \<and>
      w_db w' = (w_db w)\<lparr>signing_keys := signing_keys (w_db w) @ [row]\<rparr>"
proof -
  obtain kek w1 where w1: "w_db w1 = w_db w"
    and key: "ensure_signing_key L V Primary kek w1 = (Inr (), w')" and srv: "is_kek (srv_service srv) = kek"
    by (rule identity_main_Inr [OF assms(4)]) (simp add: identity_run_def)
  show "w_db w' = w_db w" if "newest_active (w_db w) \<noteq> None"
    using ensure_signing_key_noop [OF assms(2), of w1 L kek] key w1 that by auto
  show "\<exists>row. sk_status row = ''active'' \<and> key_row_ok L (is_kek (srv_service srv)) row \<and>
      newest_active (w_db w') = Some row \<and> w_db w' = (w_db w)\<lparr>signing_keys := signing_keys (w_db w) @ [row]\<rparr>"
    if none: "newest_active (w_db w) = None"
  proof -
    have "filter (\<lambda>k. sk_status k = ''active'') (signing_keys (w_db w)) = []"
      using none newest_key_None by (auto simp: newest_active_def)
    then have "newest_active ((w_db w)\<lparr>signing_keys := signing_keys (w_db w) @ [row]\<rparr>) = Some row"
      if "sk_status row = ''active''" for row
      using that by (simp add: newest_active_def)
    with ensure_signing_key_creates [OF assms(2,1) _ _ _ key] assms(3) w1 none srv show ?thesis
      by (auto simp: generators_ok_def)
  qed
qed

lemma boot_keys:
  assumes "libs_ok L" and "calm V" and "generators_ok V" and "keys_under_kek L (bt_process B) (w_db w)"
    and "identity_main L V B w = (Inr (srv, kc, p), w')"
  obtains row where
    "\<forall>r \<in> set (signing_keys (w_db w')). key_row_ok L (is_kek (srv_service srv)) r"
    "newest_active (w_db w') = Some row" "refresh_tokens (w_db w') = refresh_tokens (w_db w)"
proof -
  have old: "\<forall>r \<in> set (signing_keys (w_db w)). key_row_ok L (is_kek (srv_service srv)) r"
    by (rule identity_main_Inr [OF assms(5)]) (use assms(4) in \<open>simp add: keys_under_kek_def identity_run_def\<close>)
  show thesis
  proof (cases "newest_active (w_db w)")
    case None
    with boot_store(2) [OF assms(1-3,5)] old that show ?thesis by fastforce
  next
    case (Some row)
    with boot_store(1) [OF assms(1-3,5)] old that show ?thesis by auto
  qed
qed

lemma boot_inv:
  assumes "calm V" and "inv L (w_db w)" and "identity_main L V B w = (Inr (srv, kc, p), w')"
  shows "inv L (w_db w')"
  by (rule identity_main_Inr [OF assms(3)])
    (use io_keepsD [OF constraints_kept.keeps_ensure_signing_key [OF calm_keeps [OF assms(1)]]] assms(2) in metis)

text \<open>What a pool connects to, as configured.\<close>

definition connects_to :: "'ctls pg_pool \<Rightarrow> db_config \<Rightarrow> bool" where
  "connects_to pool cfg \<longleftrightarrow> pg_host (pp_config pool) = dbc_host cfg \<and> pg_port (pp_config pool) = dbc_port cfg \<and>
     pg_dbname (pp_config pool) = dbc_database cfg \<and> pg_user (pp_config pool) = dbc_username cfg \<and>
     pg_password (pp_config pool) = dbc_password cfg \<and> pp_max_size pool = unat (dbc_max_connections cfg)"

lemma connected:
  assumes "database_pool_connect (build_pool builds tls) cfg read_cfg = Inr db"
  shows "connects_to (dp_writer db) cfg" and "connects_to (dp_reader db) (coalesce read_cfg cfg)"
    and "pp_tls (dp_writer db) = tls" and "pp_tls (dp_reader db) = tls"
  using assms
  by (auto simp: database_pool_connect_def build_pool_def connects_to_def coalesce_def Let_def
      split: if_splits option.splits)

text \<open>C19. Where start-up succeeds (in calm conditions), the service is configured as loaded and offered
  over TLS only; its writer pool connects to the configured database and its reader pool to the
  replica where one is configured and to the same database where not, both over the client side of
  SPIFFE's TLS. A store without an active signing key gets exactly one row, active and wrapped
  under the configured KEK, and the service can sign with it; a store that has an active key is
  left as it is. Accounts and outbox are never touched.\<close>
theorem identity_boot_ready:
  assumes "libs_ok L" and "calm V" and "generators_ok V" and "inv L (w_db w)"
    and "identity_main L V B w = (Inr (srv, kc, p), w')"
  shows "\<exists>config db src tls ctls. identity_load (bt_crate B) (bt_vars B) = Inr config \<and>
    srv_addr srv = idc_listen_addr config \<and> is_web_base_url (srv_service srv) = idc_web_base_url config \<and>
    kc = idc_kafka config \<and> pub_phase p = Building_Client \<and>
    sp_source (bt_spiffe B) (spiffe_endpoint (bt_process B) (idc_spiffe_endpoint_socket config)) = Some src \<and>
    sp_mtls_server (bt_spiffe B) src [''h2''] = Some tls \<and>
    srv_offered srv = Over_Tls tls \<and> sp_mtls_client (bt_spiffe B) src [] = Some ctls \<and>
    is_db (srv_service srv) = pool_roles db \<and>
    connects_to (dp_writer db) (idc_db config) \<and>
    connects_to (dp_reader db) (case idc_db_read config of Some r \<Rightarrow> r | None \<Rightarrow> idc_db config) \<and>
    pp_tls (dp_writer db) = ctls \<and> pp_tls (dp_reader db) = ctls \<and>
    load_kek (l_b64 L) (bt_process B) = Inr (is_kek (srv_service srv)) \<and> inv L (w_db w') \<and>
    (if \<exists>r \<in> set (signing_keys (w_db w)). sk_status r = ''active'' then w_db w' = w_db w
     else \<exists>row k w2. w_db w' = (w_db w)\<lparr>signing_keys := signing_keys (w_db w) @ [row]\<rparr> \<and>
       sk_status row = ''active'' \<and> load_signing_key L (is_kek (srv_service srv)) row = Inr k \<and>
       get_active_signing_key L V Primary (is_kek (srv_service srv)) w' = (Inr k, w2))"
proof -
  have store: "if \<exists>r \<in> set (signing_keys (w_db w)). sk_status r = ''active'' then w_db w' = w_db w
     else \<exists>row k w2. w_db w' = (w_db w)\<lparr>signing_keys := signing_keys (w_db w) @ [row]\<rparr> \<and>
       sk_status row = ''active'' \<and> load_signing_key L (is_kek (srv_service srv)) row = Inr k \<and>
       get_active_signing_key L V Primary (is_kek (srv_service srv)) w' = (Inr k, w2)"
  proof (cases "newest_active (w_db w)")
    case (Some r)
    then show ?thesis using boot_store(1) [OF assms(1-3,5)] newest_active_in [OF Some] by auto
  next
    case None
    then have "\<not> (\<exists>r \<in> set (signing_keys (w_db w)). sk_status r = ''active'')"
      using newest_key_None by (auto simp: newest_active_def filter_empty_conv)
    moreover from boot_store(2) [OF assms(1-3,5) None] obtain row k where
      "sk_status row = ''active''" "load_signing_key L (is_kek (srv_service srv)) row = Inr k"
      "newest_active (w_db w') = Some row" "w_db w' = (w_db w)\<lparr>signing_keys := signing_keys (w_db w) @ [row]\<rparr>"
      using key_row_ok_loads by metis
    moreover from this have "get_active_signing_key L V Primary (is_kek (srv_service srv)) w' =
        (Inr k, w'\<lparr>w_tick := w_tick w' + 2\<rparr>)"
      by (simp add: get_active_signing_key_Inr_iff calmD [OF assms(2)] world_fold)
    ultimately show ?thesis by auto
  qed
  obtain config kek sp db sub where
      sp: "spiffe_context_new (logs_info (bt_otel B) sub) (bt_spiffe B) (bt_process B) (idc_spiffe_endpoint_socket config) = Inr sp"
    and main: "identity_load (bt_crate B) (bt_vars B) = Inr config" "load_kek (l_b64 L) (bt_process B) = Inr kek"
      "srv = identity_run (idc_listen_addr config) (idc_web_base_url config) (pool_roles db) kek (Some (spc_server_tls sp))"
      "kc = idc_kafka config" "p = spawn"
    and db: "database_pool_connect (build_pool (bt_pool_builds B) (spc_client_tls sp)) (idc_db config) (idc_db_read config) = Inr db"
    by (rule identity_main_Inr [OF assms(5)])
  from sp obtain src where "sp_source (bt_spiffe B) (spiffe_endpoint (bt_process B) (idc_spiffe_endpoint_socket config)) = Some src"
      "sp_mtls_server (bt_spiffe B) src [''h2''] = Some (spc_server_tls sp)"
      "sp_mtls_client (bt_spiffe B) src [] = Some (spc_client_tls sp)"
    by (auto simp: spiffe_context_new_def split: if_splits)
  with main store connected [OF db] boot_inv [OF assms(2,4,5)] show ?thesis
    by (intro exI [of _ config] exI [of _ db] exI [of _ src] exI [of _ "spc_server_tls sp"]
        exI [of _ "spc_client_tls sp"]) (simp add: identity_run_def spawn_def coalesce_def)
qed

text \<open>The service starts with a KEK that does not unwrap the stored key; it then refuses every login.\<close>

lemma unloadable_key_refuses_login:
  assumes "calm V" and "inv L (w_db w)"
    and "\<And>row k. newest_active (w_db w) = Some row \<Longrightarrow> load_signing_key L kek row \<noteq> Inr k"
  shows "login L V em pw kek w \<noteq> (Inr res, w')"
proof
  assume "login L V em pw kek w = (Inr res, w')"
  from login_Inr [OF calm_keeps [OF assms(1)] assms(2) this] obtain row k where
    "newest_active (w_db w) = Some row" "load_signing_key L kek row = Inr k"
    by (auto simp: calmD [OF assms(1)])
  then show False using assms(3) by blast
qed

text \<open>Asking for the SVID is an argument of \<open>tracing::info!\<close>: under a filter that does not enable that
  event the service starts without one.\<close>

lemma svid_only_when_logged:
  "spiffe_context_new False S P e = spiffe_context_new True (S\<lparr>sp_svid := \<lambda>_. True\<rparr>) P e"
  by (simp add: spiffe_context_new_def)

section \<open>A start-up of the sample deployment\<close>

definition sample_process :: process_env where
  "sample_process = \<lparr>env_var = [KEK_ENV_HEX \<mapsto> hex_encode (replicate 32 1)], fs_read = (\<lambda>_. Inl ''no such file'')\<rparr>"

definition sample_spiffe :: "(string, string, string) spiffe_lib" where
  "sample_spiffe = \<lparr>sp_source = Some, sp_mtls_server = (\<lambda>s alpn. Some s), sp_mtls_client = (\<lambda>s alpn. Some s),
     sp_svid = (\<lambda>s. True)\<rparr>"

definition sample_otel :: otel_lib where
  "sample_otel = \<lparr>ol_span_exporter = Inr (), ol_metric_exporter = Inr (), ol_filter_parses = (\<lambda>d. True),
     ol_enables_info = (\<lambda>f. f = ''info''), ol_subscriber_set = False\<rparr>"

definition sample_boot :: "(sample_value, string, string, string) boot" where
  "sample_boot = \<lparr>bt_process = sample_process,
     bt_vars = [(''IDENTITY__DB__HOST'', ''db''), (''IDENTITY__DB__DATABASE'', ''identity''),
       (''IDENTITY__DB__USERNAME'', ''identity'')],
     bt_crate = sample_crate, bt_otel = sample_otel, bt_spiffe = sample_spiffe, bt_pool_builds = (\<lambda>p. True),
     bt_migrated = (\<lambda>t. True), bt_bound = (\<lambda>a. True)\<rparr>"

lemma sample_boot_simps [simp]:
  "bt_process sample_boot = sample_process" "bt_crate sample_boot = sample_crate"
  "bt_spiffe sample_boot = sample_spiffe" "bt_otel sample_boot = sample_otel" "bt_pool_builds sample_boot pool"
  "bt_migrated sample_boot t" "bt_bound sample_boot a"
  by (simp_all add: sample_boot_def)

lemma sample_boot_config: "\<exists>config. identity_load sample_crate (bt_vars sample_boot) = Inr config \<and>
   idc_db_read config = None \<and> idc_spiffe_endpoint_socket config = None"
proof -
  have "case identity_load sample_crate (bt_vars sample_boot) of Inl _ \<Rightarrow> False
    | Inr config \<Rightarrow> idc_db_read config = None \<and> idc_spiffe_endpoint_socket config = None"
    by code_simp
  then show ?thesis by (auto split: sum.splits)
qed

lemma sample_boot_kek:
  "load_kek B \<lparr>env_var = [KEK_ENV_HEX \<mapsto> hex_encode (replicate 32 b)], fs_read = f\<rparr> = Inr \<lparr>kek_bytes = replicate 32 b\<rparr>"
  by (simp add: load_kek_def decode_hex_encode kek_from_bytes_def KEK_LEN_def)

text \<open>The sample deployment starts, on any store and with any KEK, where \<open>ensure_signing_key\<close> does.\<close>

definition boot_with_kek :: "byte \<Rightarrow> (sample_value, string, string, string) boot" where
  "boot_with_kek b = sample_boot\<lparr>bt_process := sample_process\<lparr>env_var := [KEK_ENV_HEX \<mapsto> hex_encode (replicate 32 b)]\<rparr>\<rparr>"

lemma boot_with_kek_1: "boot_with_kek 1 = sample_boot"
  by (simp add: boot_with_kek_def sample_boot_def sample_process_def)

lemma sample_starts:
  assumes "ensure_signing_key login_libs sample_env Primary \<lparr>kek_bytes = replicate 32 b\<rparr> \<lparr>w_db = d, w_tick = 102\<rparr> = (Inr (), w')"
  shows "\<exists>srv kc p. identity_main login_libs sample_env (boot_with_kek b) \<lparr>w_db = d, w_tick = 100\<rparr> = (Inr (srv, kc, p), w') \<and>
     is_kek (srv_service srv) = \<lparr>kek_bytes = replicate 32 b\<rparr>"
proof -
  obtain config where c: "identity_load sample_crate (bt_vars sample_boot) = Inr config" "idc_db_read config = None"
    "idc_spiffe_endpoint_socket config = None"
    using sample_boot_config by blast
  with assms show ?thesis
    by (simp add: identity_main_def andThen_def pureR_def boot_with_kek_def sample_process_def sample_boot_kek
        migrate_def pool_get_def ask_def ret_def mapErr_def spiffe_context_new_def database_pool_connect_def
        build_pool_def Let_def sample_spiffe_def identity_run_def pureX_def identity_telemetry_def
        telemetry_init_def sample_otel_def)
qed

lemma sample_boots_with:
  "\<exists>srv kc p. identity_main login_libs sample_env (boot_with_kek b) sample_world = (Inr (srv, kc, p), sample_world\<lparr>w_tick := 104\<rparr>) \<and>
     is_kek (srv_service srv) = \<lparr>kek_bytes = replicate 32 b\<rparr>"
proof -
  have "newest_active (w_db \<lparr>w_db = sample_db, w_tick = 102\<rparr>) \<noteq> None" by (simp add: sample_newest)
  from sample_starts [OF ensure_signing_key_noop [OF sample_env_calm this]] show ?thesis
    by (simp add: sample_world_def)
qed

text \<open>With another KEK than the one that wrapped the stored key, the service starts all the same.\<close>

lemma wrong_kek_starts:
  "\<exists>srv kc p w'. identity_main login_libs sample_env (boot_with_kek 2) sample_world = (Inr (srv, kc, p), w') \<and>
     (\<forall>em pw res w''. login login_libs sample_env em pw (is_kek (srv_service srv)) w' \<noteq> (Inr res, w''))"
proof -
  obtain srv kc p where b: "identity_main login_libs sample_env (boot_with_kek 2) sample_world =
      (Inr (srv, kc, p), sample_world\<lparr>w_tick := 104\<rparr>)" "is_kek (srv_service srv) = \<lparr>kek_bytes = replicate 32 2\<rparr>"
    using sample_boots_with by blast
  have "decrypt_private_key sample_aead (replicate 32 2) \<lparr>enc_data = replicate 12 9 @ sample_der @ replicate 16 1\<rparr> a \<noteq> Inr der"
    for a der
  proof
    assume "decrypt_private_key sample_aead (replicate 32 2) \<lparr>enc_data = replicate 12 9 @ sample_der @ replicate 16 1\<rparr> a = Inr der"
    then obtain q where "replicate 12 9 @ sample_der @ replicate 16 1 = q @ replicate 16 (2::byte)"
      unfolding decrypt_Inr_iff [OF sample_aead_ok] by (auto simp: sample_aead_def)
    then have "last (replicate 12 9 @ sample_der @ replicate 16 1) = last (q @ replicate 16 (2::byte))" by simp
    then show False by simp
  qed
  then have "load_signing_key login_libs \<lparr>kek_bytes = replicate 32 2\<rparr> sample_key_row \<noteq> Inr k" for k
    by (auto simp: load_signing_key_iff sample_key_row_def encrypted_key_from_bytes_def NONCE_LEN_def TAG_LEN_def
        sample_der_def)
  then have "login login_libs sample_env em pw \<lparr>kek_bytes = replicate 32 2\<rparr> (sample_world\<lparr>w_tick := 104\<rparr>) \<noteq> (Inr res, w'')"
    for em pw res w''
    by (intro unloadable_key_refuses_login [OF sample_env_calm]) (simp_all add: sample_db_inv sample_newest)
  with b show ?thesis by (intro exI conjI allI) (assumption | simp)+
qed

lemma sample_generators_ok: "generators_ok sample_env"
  by (simp add: generators_ok_def sample_der_def)

text \<open>The same deployment on a store without keys.\<close>

definition first_world :: world where
  "first_world = \<lparr>w_db = sample_db\<lparr>signing_keys := []\<rparr>, w_tick = 100\<rparr>"

lemma first_inv: "inv login_libs (w_db first_world)"
  using sample_db_inv by (simp add: first_world_def db_inv_def signing_keys_violation_def)

lemma first_boots:
  "\<exists>srv kc p row. identity_main login_libs sample_env sample_boot first_world =
     (Inr (srv, kc, p), \<lparr>w_db = sample_db\<lparr>signing_keys := [row]\<rparr>, w_tick = 108\<rparr>) \<and>
     is_kek (srv_service srv) = sample_kek"
proof -
  let ?jwk = "\<lparr>jwk_kty = ''EC'', jwk_use = ''sig'', jwk_kid = replicate 105 CHR ''u'', jwk_alg = ''ES256'',
      jwk_crv = ''P-256'', jwk_x = hex_encode (replicate 32 7), jwk_y = hex_encode (replicate 32 7)\<rparr>"
  have pub: "public_jwk_from_pkcs8 hex64 sample_ecdsa kid ES256 sample_der = Inr (?jwk\<lparr>jwk_kid := kid\<rparr>)" for kid
    by (simp add: public_jwk_Inr_iff sample_ecdsa_def sample_der_def hex64_def)
  have "replicate 105 CHR ''u'' \<noteq> ''k1''" by (rule notI, drule arg_cong [where f = hd]) simp
  then have to_json: "jwk_to_value login_json ?jwk = Some [1]"
    by (simp add: login_json_def byte_json_def table_json_def table_to_def)
  have uuid: "uuid_to_string sample_uuid 105 = replicate 105 CHR ''u''"
    by (simp add: sample_uuid_def)
  have "\<exists>row. ensure_signing_key login_libs sample_env Primary \<lparr>kek_bytes = replicate 32 1\<rparr>
      \<lparr>w_db = sample_db\<lparr>signing_keys := []\<rparr>, w_tick = 102\<rparr> =
      (Inr (), \<lparr>w_db = sample_db\<lparr>signing_keys := [row]\<rparr>, w_tick = 108\<rparr>)"
    by (simp add: ensure_signing_key_def andThen_def pool_get_def ask_def ret_def mapErr_def pureX_def pureR_def
        calm_exec [OF sample_env_calm] sql_count_active_keys_def affected_def generate_key_pair_def pub uuid to_json
        encrypt_private_key_def AES_KEK_LEN_def sample_aead_def sql_insert_signing_key_def write_checked_def
        signing_keys_violation_def, rule exI, rule refl)
  then obtain row where "ensure_signing_key login_libs sample_env Primary \<lparr>kek_bytes = replicate 32 1\<rparr>
      \<lparr>w_db = sample_db\<lparr>signing_keys := []\<rparr>, w_tick = 102\<rparr> =
      (Inr (), \<lparr>w_db = sample_db\<lparr>signing_keys := [row]\<rparr>, w_tick = 108\<rparr>)" by blast
  from sample_starts [OF this] show ?thesis
    by (auto simp: boot_with_kek_1 sample_kek_def first_world_def)
qed

theorem identity_boot_ready_witness:
  "\<exists>srv kc p w' row k w2. identity_main login_libs sample_env sample_boot first_world = (Inr (srv, kc, p), w') \<and>
     signing_keys (w_db w') = [row] \<and> get_active_signing_key login_libs sample_env Primary sample_kek w' = (Inr k, w2)"
proof -
  obtain srv kc p w' where b: "identity_main login_libs sample_env sample_boot first_world = (Inr (srv, kc, p), w')"
      "is_kek (srv_service srv) = sample_kek"
    using first_boots by blast
  from identity_boot_ready [OF sample_libs_ok sample_env_calm sample_generators_ok first_inv b(1)] b
  show ?thesis by (auto simp: first_world_def)
qed

section \<open>The life of an account\<close>

lemma serve_sign_up_Inr:
  "serve L V S (SignUp rq) w = (Inr resp, w') \<Longrightarrow>
     sign_up L V (sur_username (rq_message rq)) (sur_email (rq_message rq)) (sur_given_name (rq_message rq))
       (sur_family_name (rq_message rq)) (sur_password (rq_message rq)) (is_web_base_url S) w = (Inr (), w')"
  by (auto simp: handle_sign_up_def Let_def andThen_Inr_iff mapErr_Inr_iff ret_def)

lemma serve_verify_email_Inr:
  "verify_email L V (rq_message rq) w = (Inr (), w') \<Longrightarrow> serve L V S (VerifyEmail rq) w = (Inr EmailVerified, w')"
  by (simp add: handle_verify_email_def andThen_def mapErr_def ret_def)

lemma validated_password: "sign_up_validate un em (Some pw) = Inr p \<Longrightarrow> p = pw"
  by (auto simp: sign_up_validate_def)

text \<open>What login and the profile answer for an active account whose password is \<open>pw\<close>.\<close>

definition logs_in ::
    "'kp libs \<Rightarrow> env \<Rightarrow> identity_service \<Rightarrow> string \<Rightarrow> string \<Rightarrow> string \<Rightarrow> world \<Rightarrow> bool" where
  "logs_in L V S un em pw w \<longleftrightarrow>
     (case serve L V S (Login \<lparr>rq_authorization = None, rq_message = \<lparr>lrq_email = em, lrq_password = pw\<rparr>\<rparr>) w of
        (Inl x, w') \<Rightarrow> False
      | (Inr resp, w') \<Rightarrow> \<exists>res ts. resp = LoggedIn res \<and> lrs_expires_at res = Some ts \<and>
          (\<forall>n. e_unix_time V (w_tick w' + 2) = Some n \<longrightarrow> 900 \<le> ts_seconds ts \<longrightarrow> ts_seconds ts < 2 ^ 63 \<longrightarrow>
             ts_seconds ts - 930 \<le> int (unat n) \<longrightarrow> int (unat n) \<le> ts_seconds ts + 30 \<longrightarrow>
             (\<exists>info w''. serve L V S (UserInfo \<lparr>rq_authorization = Some (Some (''Bearer '' @ lrs_access_token res)),
                  rq_message = ()\<rparr>) w' = (Inr (UserInfoIs info), w'') \<and>
                uir_username info = un \<and> uir_email info = em \<and> uir_email_verified info)))"

lemma active_account_logs_in:
  assumes "libs_ok L" and "calm V" and "inv L (w_db w)" and "issues_ok L V (w_db w)"
    and "\<forall>r \<in> set (signing_keys (w_db w)). key_row_ok L (is_kek S) r" and "newest_active (w_db w) \<noteq> None"
    and "u \<in> set (users (w_db w))" and "live u" and "u_username u = un" and "u_email u = em"
    and "u_email_verified u" and "u_status u = user_status_as_str Active"
    and "verify_password (l_password L) (l_feature L) pw (u_password_hash u) = Inr ()"
  shows "logs_in L V S un em pw w"
proof -
  obtain row k where row: "newest_active (w_db w) = Some row" "load_signing_key L (is_kek S) row = Inr k"
    using assms(5,6) newest_active_in key_row_ok_loads by (metis option.exhaust)
  have owner: "email_owner (l_lower L) (w_db w) em = Some u"
    by (rule email_owner_unique [OF assms(3,7,8)]) (simp add: assms(10))
  let ?rq = "\<lparr>rq_authorization = None, rq_message = \<lparr>lrq_email = em, lrq_password = pw\<rparr>\<rparr>"
  obtain res w' where "issue_tokens L V (user_of u) k (w\<lparr>w_tick := w_tick w + 5\<rparr>) = (Inr res, w')"
    using issue_tokens_succeeds [OF assms(2), of L "w\<lparr>w_tick := w_tick w + 5\<rparr>" "user_of u" k] assms(3,4,7)
    by (auto simp: user_of_simps)
  then have l: "login L V em pw (is_kek S) w = (Inr res, w')"
    by (simp add: login_calm [OF assms(2,3) owner assms(12,13) row])
  then obtain rt where w': "w_db w' = (w_db w)\<lparr>refresh_tokens := rt\<rparr>"
    using login_Inr [OF calm_keeps [OF assms(2)] assms(3) l] by (auto simp: calmD [OF assms(2)])
  have I: "inv L (w_db w')"
    by (rule io_keepsD [OF constraints_kept.keeps_login [OF calm_keeps [OF assms(2)]] assms(3) l])
  have served: "serve L V S (Login ?rq) w = (Inr (LoggedIn \<lparr>lrs_access_token = lr_access_token res,
      lrs_refresh_token = lr_refresh_token res, lrs_id_token = lr_id_token res,
      lrs_expires_at = Some (proto_timestamp_of (lr_expires_at res))\<rparr>), w')"
    using l by (simp add: handle_login_def andThen_def mapErr_def ret_def)
  let ?auth = "\<lparr>rq_authorization = Some (Some (''Bearer '' @ lr_access_token res)), rq_message = ()\<rparr>"
  have ts: "ts_seconds (proto_timestamp_of t) = timestamp t" for t by (simp add: proto_timestamp_of_def)
  have bearer: "extract_bearer_token ?auth = Inr (lr_access_token res)" by (simp add: bearer_iff)
  have "\<exists>info w''. serve L V S (UserInfo ?auth) w' = (Inr (UserInfoIs info), w'') \<and>
      uir_username info = un \<and> uir_email info = em \<and> uir_email_verified info"
    if "e_unix_time V (w_tick w' + 2) = Some n" "900 \<le> timestamp (lr_expires_at res)"
      "timestamp (lr_expires_at res) < 2 ^ 63" "timestamp (lr_expires_at res) - 930 \<le> int (unat n)"
      "int (unat n) \<le> timestamp (lr_expires_at res) + 30" for n
  proof -
    from login_authenticates [OF assms(1-3,5) l refl bearer that] owner
    have "authenticate L V ?auth (dp_reader (is_db S)) w' = (Inr (u_id u), w'\<lparr>w_tick := w_tick w' + 3\<rparr>)"
      by auto
    from user_info_served [OF assms(2) I _ assms(8) this] assms(7,9-11) w' show ?thesis by auto
  qed
  with served show ?thesis by (auto simp: logs_in_def ts)
qed

text \<open>C1. An account works from the first start of the service on. After a start-up in calm conditions
  (the keys that were stored before, if any, having been wrapped under the configured KEK), a
  successful sign-up and the use of the token in the mail that it queued (within the hour), login
  with the email and the password given at sign-up succeeds: it returns an access token which,
  until it expires, is answered with the profile of that account, verified. Everything is served
  by the service that start-up built; that it has a key to sign with is start-up's doing. What
  login still draws on (\<open>issues_ok\<close>) is that writing tokens, signing and drawing randomness do not
  fail, and that the refresh token and its id are new.\<close>
theorem boot_to_profile:
  assumes "libs_ok L" and "calm V" and "generators_ok V" and "\<forall>t t'. e_utc V t' \<le> e_utc V t + minutes 60"
    and "inv L (w_db w)" and "keys_under_kek L (bt_process B) (w_db w)" and "issues_ok L V (w_db w)"
    and "identity_main L V B w = (Inr (srv, kc, p), w0)"
    and "serve L V (srv_service srv) (SignUp \<lparr>rq_authorization = None, rq_message = \<lparr>sur_username = un,
      sur_email = em, sur_given_name = gn, sur_family_name = fn, sur_password = Some pw\<rparr>\<rparr>) w0 = (Inr SignedUp, w1)"
  shows "\<exists>tok ev oid tr sp at w2. ev \<in> set (outbox (w_db w1)) \<and> ob_published_at ev = None \<and>
    ob_payload ev = l_encode L (verification_event L (is_web_base_url (srv_service srv)) oid em
      (gn @ '' '' @ fn) tr sp at tok) \<and>
    serve L V (srv_service srv) (VerifyEmail \<lparr>rq_authorization = None, rq_message = tok\<rparr>) w1 =
      (Inr EmailVerified, w2) \<and>
    logs_in L V (srv_service srv) un em pw w2"
proof -
  let ?S = "srv_service srv"
  have I0: "inv L (w_db w0)" by (rule boot_inv [OF assms(2,5,8)])
  obtain row where keys: "\<forall>r \<in> set (signing_keys (w_db w0)). key_row_ok L (is_kek ?S) r"
    and row: "newest_active (w_db w0) = Some row" and rts: "refresh_tokens (w_db w0) = refresh_tokens (w_db w)"
    by (rule boot_keys [OF assms(1-3,6,8)])
  from serve_sign_up_Inr [OF assms(9)]
  have s: "sign_up L V un em gn fn (Some pw) (is_web_base_url ?S) w0 = (Inr (), w1)" by simp
  obtain tok ev oid tr sp at uid ph now now' w2 salt p where
      ev: "ev \<in> set (outbox (w_db w1))" "ob_published_at ev = None"
      "ob_payload ev = l_encode L (verification_event L (is_web_base_url ?S) oid em (gn @ '' '' @ fn) tr sp at tok)"
    and v: "verify_email L V tok w1 = (Inr (), w2)"
    and u: "activate_row now' (new_user uid un em gn fn ph now) \<in> set (users (w_db w2))"
    and pw: "sign_up_validate un em (Some pw) = Inr p" "hash_password (l_password L) (l_feature L) salt p = Inr ph"
    and w2: "signing_keys (w_db w2) = signing_keys (w_db w0)" "inv L (w_db w2)"
      "refresh_tokens (w_db w2) = refresh_tokens (w_db w0)"
    by (rule fresh_account_verifies [OF assms(1,2) I0 assms(4) s refl])
  have "issues_ok L V (w_db w2)" using assms(7) w2(3) rts by (simp add: issues_ok_def)
  moreover have "verify_password (l_password L) (l_feature L) pw ph = Inr ()"
    using verify_hash [OF libs_okD(6) [OF assms(1)] pw(2)] validated_password [OF pw(1)] by simp
  ultimately have "logs_in L V ?S un em pw w2"
    by (intro active_account_logs_in [OF assms(1,2) w2(2) _ _ _ u])
      (use keys row w2(1) in \<open>simp_all add: newest_active_def activate_row_def new_user_def live_def\<close>)
  moreover have "serve L V ?S (VerifyEmail \<lparr>rq_authorization = None, rq_message = tok\<rparr>) w1 = (Inr EmailVerified, w2)"
    by (rule serve_verify_email_Inr) (simp add: v)
  ultimately show ?thesis using ev by blast
qed

theorem boot_to_profile_witness:
  "\<exists>srv kc p w0 w1 tok w2. identity_main login_libs sample_env sample_boot first_world = (Inr (srv, kc, p), w0) \<and>
     serve login_libs sample_env (srv_service srv) (SignUp \<lparr>rq_authorization = None, rq_message =
       \<lparr>sur_username = ''carol'', sur_email = ''c@d.e'', sur_given_name = ''Ca'', sur_family_name = ''Rol'',
        sur_password = Some ''password''\<rparr>\<rparr>) w0 = (Inr SignedUp, w1) \<and>
     serve login_libs sample_env (srv_service srv) (VerifyEmail \<lparr>rq_authorization = None, rq_message = tok\<rparr>) w1 =
       (Inr EmailVerified, w2) \<and>
     logs_in login_libs sample_env (srv_service srv) ''carol'' ''c@d.e'' ''password'' w2"
proof -
  let ?rq = "\<lparr>rq_authorization = None, rq_message = \<lparr>sur_username = ''carol'', sur_email = ''c@d.e'',
    sur_given_name = ''Ca'', sur_family_name = ''Rol'', sur_password = Some ''password''\<rparr>\<rparr>"
  obtain srv kc p row where b: "identity_main login_libs sample_env sample_boot first_world =
      (Inr (srv, kc, p), \<lparr>w_db = sample_db\<lparr>signing_keys := [row]\<rparr>, w_tick = 108\<rparr>)"
    using first_boots by blast
  obtain w1 where "sign_up login_libs sample_env ''carol'' ''c@d.e'' ''Ca'' ''Rol'' (Some ''password'')
      (is_web_base_url (srv_service srv)) \<lparr>w_db = sample_db\<lparr>signing_keys := [row]\<rparr>, w_tick = 108\<rparr> = (Inr (), w1)"
    using sample_sign_up_at [of 108] by blast
  then have s: "serve login_libs sample_env (srv_service srv) (SignUp ?rq)
      \<lparr>w_db = sample_db\<lparr>signing_keys := [row]\<rparr>, w_tick = 108\<rparr> = (Inr SignedUp, w1)"
    by (simp add: handle_sign_up_def andThen_def mapErr_def ret_def)
  have "keys_under_kek login_libs (bt_process sample_boot) (w_db first_world)"
    by (simp add: keys_under_kek_def first_world_def split: sum.splits)
  moreover have "issues_ok login_libs sample_env (w_db first_world)"
    by (simp add: issues_ok_def first_world_def sample_db_def sample_ecdsa_def)
  moreover have "\<forall>t t'. e_utc sample_env t' \<le> e_utc sample_env t + minutes 60"
    by (simp add: minutes_def seconds_def one_second_def)
  ultimately show ?thesis
    using boot_to_profile [OF sample_libs_ok sample_env_calm sample_generators_ok _ first_inv _ _ b s] b s by blast
qed

section \<open>The gateway\<close>

lemma load_rustls_config_Inr:
  "load_rustls_config M P cp kp = Inr c \<longleftrightarrow>
     (\<exists>cert_data key_data chain key. fs_read P cp = Inr cert_data \<and> fs_read P kp = Inr key_data \<and>
        collect (pm_certs M cert_data) = Inr chain \<and> pm_private_key M key_data = Inr (Some key) \<and>
        pm_single_cert M chain key = Some (tc_config c) \<and> tc_alpn_protocols c = [''h2'', ''http/1.1''])"
  by (cases c) (auto simp: load_rustls_config_def)

lemma gateway_run_Http:
  "gateway_run M P exists local_addr config = Inr Http \<longleftrightarrow> local_addr \<and> \<not> tls_available exists config"
  by (auto simp: gateway_run_def)

lemma gateway_run_Https:
  "gateway_run M P exists local_addr config = Inr (Https c) \<longleftrightarrow> local_addr \<and> tls_available exists config \<and>
     load_rustls_config M P (gc_tls_cert_file config) (gc_tls_key_file config) = Inr c"
  by (auto simp: gateway_run_def)

text \<open>Making the channel leaves sessions and accounts alone.\<close>

lemma new_channel_Inr:
  assumes "new_channel G g = (Inr c, g')"
  shows "gw_sessions g' = gw_sessions g" and "gw_identity g' = gw_identity g"
    and "ic_connection (gw_channel g') = c"
  using assms
  by (auto simp: new_channel_def andThen_Inr_iff gask_Inr_iff connect_channel_def store_channel_def Let_def
      throw_def split: if_splits)

lemma connect_store_identity:
  assumes "connect_store G g = (Inr (), g')"
  shows "gw_identity g' = gw_identity g" and "gw_channel g' = gw_channel g"
  using assms by (auto simp: connect_store_def create_schema_def andThen_Inr_iff scylla_Inr_iff)

text \<open>C20. A gateway that starts listens at the configured address with a connected channel. It serves plain
  HTTP exactly where the certificate or the key file is missing: where both are there it serves
  HTTPS with what they hold, and it never falls back to HTTP because they cannot be read or
  parsed. The accounts are as they were, but every session is gone.\<close>
theorem gateway_boot_ready:
  assumes "gateway_main G B g = (Inr (addr, listening), g')" and "\<forall>t tbl. ge_others G t tbl = tbl"
  shows "\<exists>config. gateway_load (gb_crate B) (gb_vars B) = Inr config \<and> addr = gc_listen_addr config \<and>
    (listening = Http \<longleftrightarrow> \<not> (gb_exists B (gc_tls_cert_file config) \<and> gb_exists B (gc_tls_key_file config))) \<and>
    (\<forall>c. listening = Https c \<longrightarrow>
       (\<exists>cert_data key_data chain key. fs_read (gb_process B) (gc_tls_cert_file config) = Inr cert_data \<and>
          fs_read (gb_process B) (gc_tls_key_file config) = Inr key_data \<and>
          collect (pm_certs (gb_pem B) cert_data) = Inr chain \<and> pm_private_key (gb_pem B) key_data = Inr (Some key) \<and>
          pm_single_cert (gb_pem B) chain key = Some (tc_config c))) \<and>
    gw_identity g' = gw_identity g \<and> gw_sessions g' = (\<lambda>_. None)"
proof -
  from assms(1) obtain config g1 c where
      config: "gateway_load (gb_crate B) (gb_vars B) = Inr config" "addr = gc_listen_addr config"
    and ch: "new_channel G g = (Inr c, g1)" and store: "connect_store G g1 = (Inr (), g')"
    and run: "gateway_run (gb_pem B) (gb_process B) (gb_exists B) (gb_local_addr B) config = Inr listening"
    by (auto simp: gateway_main_def andThen_Inr_iff pureR_Inr_iff pureX_Inr_iff mapErr_Inr_iff ret_def throw_def split: if_splits)
  have "gw_sessions g' = (\<lambda>_. None)" by (rule connect_drops_sessions [OF store]) (simp add: assms(2))
  moreover have "gw_identity g' = gw_identity g"
    using new_channel_Inr(2) [OF ch] connect_store_identity(1) [OF store] by simp
  ultimately show ?thesis
    using config run
    by (cases listening) (auto simp: gateway_run_Http gateway_run_Https load_rustls_config_Inr tls_available_def)
qed

definition sample_pem :: "(string, string, string) pem_lib" where
  "sample_pem = \<lparr>pm_certs = (\<lambda>bs. [Inr ''leaf'']), pm_private_key = (\<lambda>bs. Inr (Some ''key'')),
     pm_single_cert = (\<lambda>chain key. Some ''server'')\<rparr>"

definition sample_gateway_boot ::
    "(string \<Rightarrow> bool) \<Rightarrow> (sample_value, unit, unit, string, string, string) gateway_boot" where
  "sample_gateway_boot exists = \<lparr>gb_process = \<lparr>env_var = (\<lambda>_. None), fs_read = (\<lambda>_. Inr [])\<rparr>,
     gb_exists = exists, gb_vars = [(''PATH'', ''/bin'')], gb_crate = sample_crate, gb_otel = sample_otel,
     gb_source = Some (), gb_svid = (\<lambda>_. True), gb_server_name = True, gb_mtls_client = Some,
     gb_pem = sample_pem, gb_bound = (\<lambda>_. True), gb_local_addr = True\<rparr>"

lemma sample_gateway_boots:
  "\<exists>listening g'. gateway_main sample_genv (sample_gateway_boot exists) sample_gateway =
     (Inr (default_gateway_listen_addr, listening), g')"
proof -
  have "gateway_load sample_crate [(''PATH'', ''/bin'')] = Inr default_gateway_config"
    by (rule gateway_unconfigured [OF sample_crate_ok]) code_simp
  then show ?thesis
    by (auto simp: gateway_main_def andThen_Inr_iff pureR_Inr_iff mapErr_Inr_iff ret_def new_channel_def gask_Inr_iff
        connect_channel_def store_channel_def connect_store_def create_schema_def scylla_Inr_iff Let_def
        sample_gateway_boot_def sample_genv_def gateway_run_def pureX_Inr_iff gateway_telemetry_def telemetry_init_Inr
        sample_otel_def load_rustls_config_def sample_pem_def
        default_gateway_config_def)
qed

theorem gateway_boot_ready_witness:
  "\<exists>c g'. gateway_main sample_genv (sample_gateway_boot (\<lambda>_. True)) sample_gateway =
       (Inr (default_gateway_listen_addr, Https c), g') \<and> tc_config c = ''server'' \<and>
     (\<exists>g''. gateway_main sample_genv (sample_gateway_boot (\<lambda>_. False)) sample_gateway =
       (Inr (default_gateway_listen_addr, Http), g''))"
proof -
  have quiet: "\<forall>t tbl. ge_others sample_genv t tbl = tbl" by (simp add: sample_genv_def)
  obtain l g' where 1: "gateway_main sample_genv (sample_gateway_boot (\<lambda>_. True)) sample_gateway =
      (Inr (default_gateway_listen_addr, l), g')" using sample_gateway_boots by blast
  obtain m g'' where 2: "gateway_main sample_genv (sample_gateway_boot (\<lambda>_. False)) sample_gateway =
      (Inr (default_gateway_listen_addr, m), g'')" using sample_gateway_boots by blast
  have "\<exists>c. l = Https c \<and> tc_config c = ''server''"
    using gateway_boot_ready [OF 1 quiet] by (cases l) (auto simp: sample_gateway_boot_def sample_pem_def)
  moreover have "m = Http"
    using gateway_boot_ready [OF 2 quiet] by (auto simp: sample_gateway_boot_def)
  ultimately show ?thesis using 1 2 by blast
qed

section \<open>The accept loop\<close>

text \<open>Over TLS the gateway has no graceful shutdown: the shutdown signal, and likewise the first
  \<open>accept\<close> that fails, drops every connection that is open or in its handshake, and nothing is
  answered after it.\<close>

lemma serve_tls_from_append: "serve_tls_from s (es @ fs) = serve_tls_from (serve_tls_from s es) fs"
proof (induction es arbitrary: s)
  case (Cons e es)
  show ?case
  proof (cases "tls_ended s")
    case (Some r)
    then show ?thesis by (cases fs) simp_all
  qed (simp add: Cons.IH)
qed simp

lemma serve_tls_ends:
  assumes "tls_ended (serve_tls es) = None" and "e = Terminate \<or> e = Accept_Failed"
  shows "serve_tls (es @ e # fs) = (serve_tls es)\<lparr>tls_pending := [], tls_open := [],
    tls_ended := Some (if e = Terminate then Inr () else Inl GatewayServer_Io)\<rparr>"
proof -
  have ended: "serve_tls_from s fs = s" if "tls_ended s \<noteq> None" for s :: "'a tls_server"
    using that by (cases fs) auto
  show ?thesis
    using assms by (auto simp: serve_tls_def serve_tls_from_append tls_end_def ended)
qed

text \<open>A handshake that fails costs nothing but its own connection.\<close>

lemma failed_handshake_is_local:
  "tls_open (tls_step s (Handshake c False)) = tls_open s"
  "tls_ended (tls_step s (Handshake c False)) = tls_ended s"
  "d \<noteq> c \<Longrightarrow> d \<in> set (tls_pending s) \<Longrightarrow> d \<in> set (tls_pending (tls_step s (Handshake c False)))"
  by auto

section \<open>The web server\<close>

text \<open>The address that is configured for the web server is loaded and not used.\<close>

lemma web_listen_addr_unused:
  assumes "web_main B = Inr (addr, S)"
  shows "wb_site_addr B = Some addr \<and> (\<exists>config. web_load (wb_crate B) (wb_vars B) = Inr config \<and>
    S = api_proxy (wc_gateway_url config))"
  using assms by (auto simp: web_main_def split: if_splits sum.splits option.splits)

end
