(* ===== verification/Verify_Race.thy ===== *)
theory Verify_Race
  imports Registration_Props
begin

text \<open>
  Verification requests that run at the same time (\<open>services/identity/src/services/verify_email.rs\<close>).
  Each request is a machine with one step per awaited effect of \<open>execute\<close>; the requests share the
  committed database under READ COMMITTED, PostgreSQL's default: a statement sees what is committed
  when it runs, an \<open>UPDATE\<close> waits for the transaction that holds a lock on the row it changes and
  then looks at the row again, and a transaction's writes become visible with its commit.

  The theory shows that the machine alone is \<open>verify_email\<close>, and the invariant of a race; that the
  commits of every interleaving are those of whole handlers one after the other, and that requests
  cannot block each other for good, is in \<open>Verify_Race_Props\<close>.
\<close>

section \<open>One request\<close>

datatype verify_pc =
    V_Idle
  | V_Connected bytes
  | V_Open bytes instant
  | V_Read instant token_row
  | V_Valid instant token_row
  | V_Consumed instant token_row
  | V_Marked instant token_row
  | V_Done token_row
  | V_Lost token_row
  | V_Over verify_email_error

text \<open>What the awaited effect answers; \<open>V_Answered\<close> carries a clock where one is read.\<close>

datatype v_answer = V_Answered instant | V_Refused | V_Reply_Lost

abbreviation failed_statement :: verify_pc where
  "failed_statement \<equiv> V_Over (VE_Db Other_Pg_Error)"

text \<open>The next step of a request; \<open>tfree\<close> and \<open>ufree\<close> tell which rows of the tables \<open>tokens\<close> and \<open>users\<close>
  no other transaction has locked. \<open>None\<close>: the request is over, or has to wait.\<close>

definition verify_next ::
    "'kp libs \<Rightarrow> string \<Rightarrow> (uuid \<Rightarrow> bool) \<Rightarrow> (uuid \<Rightarrow> bool) \<Rightarrow> v_answer \<Rightarrow> db \<Rightarrow> verify_pc
      \<Rightarrow> (verify_pc \<times> db) option" where
  "verify_next L raw_token tfree ufree ans d pc =
     (case pc of
        V_Idle \<Rightarrow>
          (case hash_verification_token (l_b64 L) (l_sha256 L) raw_token of
             Inl _ \<Rightarrow> Some (V_Over VE_InvalidToken, d)
           | Inr h \<Rightarrow> (case ans of V_Answered _ \<Rightarrow> Some (V_Connected h, d) | _ \<Rightarrow> Some (V_Over VE_Pool, d)))
      | V_Connected h \<Rightarrow>
          (case ans of V_Answered now \<Rightarrow> Some (V_Open h now, d) | _ \<Rightarrow> Some (failed_statement, d))
      | V_Open h now \<Rightarrow>
          (case ans of
             V_Answered _ \<Rightarrow>
               Some (case sql_token_by_hash h now d of
                       Inl e \<Rightarrow> V_Over (VE_Db e)
                     | Inr (found, _) \<Rightarrow>
                         (case found of None \<Rightarrow> V_Over VE_InvalidToken | Some row \<Rightarrow> V_Read now row), d)
           | _ \<Rightarrow> Some (failed_statement, d))
      | V_Read now row \<Rightarrow>
          (case ans of
             V_Answered utc \<Rightarrow>
               Some (if t_expires_at row < utc then V_Over VE_InvalidToken else V_Valid now row, d)
           | _ \<Rightarrow> None)
      | V_Valid now row \<Rightarrow>
          (case ans of
             V_Answered _ \<Rightarrow>
               if \<not> tfree (t_id row) then None
               else Some (case sql_consume_token (t_id row) now d of
                       Inl e \<Rightarrow> V_Over (VE_Db e)
                     | Inr (n, _) \<Rightarrow> if n = 0 then V_Over AlreadyConsumed else V_Consumed now row, d)
           | _ \<Rightarrow> Some (failed_statement, d))
      | V_Consumed now row \<Rightarrow>
          (case ans of
             V_Answered _ \<Rightarrow>
               if \<not> ufree (t_user_id row) then None
               else Some (case sql_mark_email_verified (l_lower L) (user_status_as_str Active) (t_user_id row) now d of
                       Inl e \<Rightarrow> V_Over (VE_Db e)
                     | Inr (n, _) \<Rightarrow> if n = 0 then V_Over VE_UserNotFound else V_Marked now row, d)
           | _ \<Rightarrow> Some (failed_statement, d))
      | V_Marked now row \<Rightarrow>
          (case ans of
             V_Refused \<Rightarrow> Some (failed_statement, d)
           | _ \<Rightarrow>
             (case sql_consume_token (t_id row) now d of
                Inl e \<Rightarrow> Some (V_Over (VE_Db e), d)
              | Inr (_, d1) \<Rightarrow>
                 (case sql_mark_email_verified (l_lower L) (user_status_as_str Active) (t_user_id row) now d1 of
                    Inl e \<Rightarrow> Some (V_Over (VE_Db e), d)
                  | Inr (_, d2) \<Rightarrow> Some (if ans = V_Reply_Lost then V_Lost row else V_Done row, d2))))
      | _ \<Rightarrow> None)"

text \<open>The rows a request has locked, the token it used up, and what it answers.\<close>

fun token_lock :: "verify_pc \<Rightarrow> uuid option" where
  "token_lock (V_Consumed now row) = Some (t_id row)"
| "token_lock (V_Marked now row) = Some (t_id row)"
| "token_lock _ = None"

fun user_lock :: "verify_pc \<Rightarrow> uuid option" where
  "user_lock (V_Marked now row) = Some (t_user_id row)"
| "user_lock _ = None"

fun used_token :: "verify_pc \<Rightarrow> token_row option" where
  "used_token (V_Done row) = Some row"
| "used_token (V_Lost row) = Some row"
| "used_token _ = None"

fun verify_answer :: "verify_pc \<Rightarrow> (verify_email_error exit + unit) option" where
  "verify_answer (V_Done row) = Some (Inr ())"
| "verify_answer (V_Lost row) = Some (Inl (Err (VE_Db Other_Pg_Error)))"
| "verify_answer (V_Over e) = Some (Inl (Err e))"
| "verify_answer _ = None"

section \<open>A request alone is the handler\<close>

fun verify_run :: "'kp libs \<Rightarrow> string \<Rightarrow> v_answer list \<Rightarrow> db \<Rightarrow> verify_pc \<Rightarrow> verify_pc \<times> db" where
  "verify_run L raw [] d pc = (pc, d)"
| "verify_run L raw (a # as) d pc =
     (case verify_next L raw (\<lambda>_. True) (\<lambda>_. True) a d pc of
        None \<Rightarrow> (pc, d)
      | Some (pc', d') \<Rightarrow> verify_run L raw as d' pc')"

text \<open>The answers that an undisturbed environment gives to a request that begins at tick \<open>t\<close>.\<close>

definition calm_answers :: "env \<Rightarrow> nat \<Rightarrow> v_answer list" where
  "calm_answers V t = [V_Answered 0, V_Answered (e_db_now V (t + 1)), V_Answered 0,
     V_Answered (e_utc V (t + 3)), V_Answered 0, V_Answered 0, V_Answered 0]"

lemma verify_run_over [simp]: "verify_run L raw as d (V_Over e) = (V_Over e, d)"
  "verify_run L raw as d (V_Done row) = (V_Done row, d)"
  by (cases as; simp add: verify_next_def)+

lemma calm_tx: "calm V \<Longrightarrow> exec V (Tx now) s w =
    (case s now (w_db w) of
       Inl e \<Rightarrow> (Inl (Err e), w\<lparr>w_tick := Suc (w_tick w)\<rparr>)
     | Inr (a, d) \<Rightarrow> (Inr a, \<lparr>w_db = d, w_tick = Suc (w_tick w)\<rparr>))"
  by (auto simp: exec.simps Let_def calmD split: sum.splits prod.splits)

lemma calm_transaction:
  assumes "calm V"
  shows "transaction V f body w =
    (case body (Tx (e_db_now V (w_tick w))) (w\<lparr>w_tick := Suc (w_tick w)\<rparr>) of
       (Inl x, w1) \<Rightarrow> (Inl x, w1\<lparr>w_db := w_db w\<rparr>)
     | (Inr a, w1) \<Rightarrow> (Inr a, w1\<lparr>w_tick := Suc (w_tick w1)\<rparr>))"
  by (simp add: transaction_def Let_def calmD [OF assms] world_fold split: sum.splits prod.splits)

lemma mark_after_consume:
  "sql_mark_email_verified low st i now (d\<lparr>tokens := ts\<rparr>) =
     (case sql_mark_email_verified low st i now d of
        Inl e \<Rightarrow> Inl e | Inr (n, d') \<Rightarrow> Inr (n, d'\<lparr>tokens := ts\<rparr>))"
  by (simp add: sql_mark_email_verified_def Let_def write_checked_def split: option.splits)

lemma sql_consume_token_tokens:
  "sql_consume_token i now d = Inr (n, d') \<Longrightarrow> d' = d\<lparr>tokens := tokens d'\<rparr> \<and> d\<lparr>tokens := tokens d'\<rparr> = d'"
  by (auto simp: sql_consume_token_def Let_def)

lemma verify_run_alone:
  assumes "calm V" and "verify_email L V raw w = (r, w')"
    and "verify_run L raw (calm_answers V (w_tick w)) (w_db w) V_Idle = (pc, d)"
  shows "verify_answer pc = Some r \<and> w_db w' = d"
proof (cases "hash_verification_token (l_b64 L) (l_sha256 L) raw")
  case (Inl e)
  then show ?thesis
    using assms(2,3) by (auto simp: calm_answers_def verify_next_def verify_email_def andThen_def pureR_def map_err_def)
next
  case (Inr h)
  let ?t = "w_tick w" and ?d = "w_db w"
  let ?now = "e_db_now V (Suc ?t)"
  note run = calm_answers_def verify_next_def Inr
  note handler = verify_email_def andThen_def pureR_def map_err_def pool_get_def ask_def ret_def throw_def
    calm_transaction [OF assms(1)] calmD [OF assms(1)] mapErr_def get_token_by_hash_def calm_tx [OF assms(1)] Inr
  show ?thesis
  proof (cases "sql_token_by_hash h ?now ?d")
    case (Inl e)
    then show ?thesis using assms(2,3) by (auto simp: run handler)
  next
    case (Inr fd)
    obtain found d1 where fd: "fd = (found, d1)" by (cases fd)
    have d1: "d1 = ?d" using Inr fd by (auto simp: sql_token_by_hash_def dest: query_opt_same)
    note lookup = Inr [unfolded fd d1]
    show ?thesis
    proof (cases found)
      case None
      then show ?thesis using assms(2,3) lookup by (auto simp: run handler ok_or_def)
    next
      case (Some row)
      show ?thesis
      proof (cases "t_expires_at row < e_utc V (w_tick w + 3)")
        case True
        then show ?thesis using assms(2,3) lookup Some by (auto simp: run handler ok_or_def eval_nat_numeral)
      next
        case False
        show ?thesis
        proof (cases "sql_consume_token (t_id row) ?now ?d")
          case (Inl e)
          then show ?thesis
            using False assms(2,3) lookup Some by (auto simp: run handler ok_or_def consume_token_def eval_nat_numeral)
        next
          case (Inr nd)
          obtain n dc where nd: "nd = (n, dc)" by (cases nd)
          obtain ts where ts: "dc = ?d\<lparr>tokens := ts\<rparr>" using sql_consume_token_tokens Inr nd by blast
          note consumed = Inr [unfolded nd ts]
          show ?thesis
            using False assms(2,3) lookup Some consumed
            by (cases "sql_mark_email_verified (l_lower L) (user_status_as_str Active) (t_user_id row) ?now ?d")
              (auto simp: run handler ok_or_def consume_token_def mark_email_verified_def eval_nat_numeral
                mark_after_consume split: if_splits)
        qed
      qed
    qed
  qed
qed

section \<open>Requests and other clients together\<close>

text \<open>What other clients may commit while the requests hold locks on the tokens \<open>tks\<close> and the users
  \<open>uks\<close>: rows of tokens are never removed and change only by being consumed, a locked token does not
  change, a locked live user stays, and the constraints hold.\<close>

definition other_commit :: "'kp libs \<Rightarrow> uuid set \<Rightarrow> uuid set \<Rightarrow> db \<Rightarrow> db \<Rightarrow> bool" where
  "other_commit L tks uks d d' \<longleftrightarrow> inv L d' \<and>
     (\<forall>t \<in> set (tokens d). t \<in> set (tokens d') \<or>
        t_consumed_at t = None \<and> t_id t \<notin> tks \<and> (\<exists>x. consume_row x t \<in> set (tokens d'))) \<and>
     (\<forall>u \<in> set (users d). live u \<and> u_id u \<in> uks \<longrightarrow> (\<exists>u' \<in> set (users d'). live u' \<and> u_id u' = u_id u))"

text \<open>The database and the requests; request \<open>i\<close> presents the token \<open>raws ! i\<close>.\<close>

record verify_sys =
  vs_db :: db
  vs_pcs :: "verify_pc list"

definition lock_free :: "(verify_pc \<Rightarrow> uuid option) \<Rightarrow> verify_pc list \<Rightarrow> nat \<Rightarrow> uuid \<Rightarrow> bool" where
  "lock_free lock pcs i x \<longleftrightarrow> (\<forall>j < length pcs. j \<noteq> i \<longrightarrow> lock (pcs ! j) \<noteq> Some x)"

definition own_step :: "'kp libs \<Rightarrow> string list \<Rightarrow> nat \<Rightarrow> v_answer \<Rightarrow> verify_sys \<Rightarrow> verify_sys option" where
  "own_step L raws i ans s =
     (case verify_next L (raws ! i) (lock_free token_lock (vs_pcs s) i) (lock_free user_lock (vs_pcs s) i) ans
         (vs_db s) (vs_pcs s ! i) of
        None \<Rightarrow> None
      | Some (pc, d) \<Rightarrow> Some \<lparr>vs_db = d, vs_pcs = (vs_pcs s)[i := pc]\<rparr>)"

definition locked :: "(verify_pc \<Rightarrow> uuid option) \<Rightarrow> verify_pc list \<Rightarrow> uuid set" where
  "locked lock pcs = {x. \<exists>pc \<in> set pcs. lock pc = Some x}"

inductive race_step :: "'kp libs \<Rightarrow> string list \<Rightarrow> verify_sys \<Rightarrow> verify_sys \<Rightarrow> bool"
  for L :: "'kp libs" and raws :: "string list" where
  own: "i < length (vs_pcs s) \<Longrightarrow> own_step L raws i ans s = Some s' \<Longrightarrow> race_step L raws s s'"
| other: "other_commit L (locked token_lock (vs_pcs s)) (locked user_lock (vs_pcs s)) (vs_db s) d' \<Longrightarrow>
     race_step L raws s (s\<lparr>vs_db := d'\<rparr>)"

definition race_start :: "string list \<Rightarrow> db \<Rightarrow> verify_sys" where
  "race_start raws d = \<lparr>vs_db = d, vs_pcs = replicate (length raws) V_Idle\<rparr>"

abbreviation race_reach :: "'kp libs \<Rightarrow> string list \<Rightarrow> db \<Rightarrow> verify_sys \<Rightarrow> bool" where
  "race_reach L raws d \<equiv> (race_step L raws)\<^sup>*\<^sup>* (race_start raws d)"

text \<open>What the rest of the service commits is of this kind: new rows, and updates of users that are
  not locked.\<close>

lemma other_commit_add_rows:
  "inv L (add_rows us ts os d) \<Longrightarrow> other_commit L tks uks d (add_rows us ts os d)"
  by (auto simp: other_commit_def)

lemma other_commit_update_user:
  assumes "inv L (d\<lparr>users := update_where (\<lambda>u. u_id u = i \<and> live u) f (users d)\<rparr>)" and "i \<notin> uks"
  shows "other_commit L tks uks d (d\<lparr>users := update_where (\<lambda>u. u_id u = i \<and> live u) f (users d)\<rparr>)"
  using assms by (fastforce simp: other_commit_def set_update_where)

lemma other_commit_same_rows:
  "inv L d' \<Longrightarrow> tokens d' = tokens d \<Longrightarrow> users d' = users d \<Longrightarrow> other_commit L tks uks d d'"
  by (auto simp: other_commit_def)

section \<open>The invariant of a race\<close>

text \<open>What a request knows of the row it read, of the row it locked, and of the row it used.\<close>

definition row_seen :: "'kp libs \<Rightarrow> string \<Rightarrow> db \<Rightarrow> token_row \<Rightarrow> bool" where
  "row_seen L raw d row \<longleftrightarrow>
     hash_verification_token (l_b64 L) (l_sha256 L) raw = Inr (t_token_hash row) \<and> t_consumed_at row = None \<and>
     (row \<in> set (tokens d) \<or> (\<exists>x. consume_row x row \<in> set (tokens d)))"

definition row_held :: "'kp libs \<Rightarrow> string \<Rightarrow> db \<Rightarrow> token_row \<Rightarrow> bool" where
  "row_held L raw d row \<longleftrightarrow>
     hash_verification_token (l_b64 L) (l_sha256 L) raw = Inr (t_token_hash row) \<and> t_consumed_at row = None \<and>
     row \<in> set (tokens d)"

definition row_used :: "'kp libs \<Rightarrow> string \<Rightarrow> db \<Rightarrow> token_row \<Rightarrow> bool" where
  "row_used L raw d row \<longleftrightarrow>
     hash_verification_token (l_b64 L) (l_sha256 L) raw = Inr (t_token_hash row) \<and>
     (\<exists>x. consume_row x row \<in> set (tokens d))"

fun pc_ok :: "'kp libs \<Rightarrow> string \<Rightarrow> db \<Rightarrow> verify_pc \<Rightarrow> bool" where
  "pc_ok L raw d (V_Connected h) \<longleftrightarrow> hash_verification_token (l_b64 L) (l_sha256 L) raw = Inr h"
| "pc_ok L raw d (V_Open h now) \<longleftrightarrow> hash_verification_token (l_b64 L) (l_sha256 L) raw = Inr h"
| "pc_ok L raw d (V_Read now row) \<longleftrightarrow> row_seen L raw d row"
| "pc_ok L raw d (V_Valid now row) \<longleftrightarrow> row_seen L raw d row"
| "pc_ok L raw d (V_Consumed now row) \<longleftrightarrow> row_held L raw d row"
| "pc_ok L raw d (V_Marked now row) \<longleftrightarrow>
     row_held L raw d row \<and> (\<exists>u \<in> set (users d). live u \<and> u_id u = t_user_id row)"
| "pc_ok L raw d (V_Done row) \<longleftrightarrow> row_used L raw d row"
| "pc_ok L raw d (V_Lost row) \<longleftrightarrow> row_used L raw d row"
| "pc_ok L raw d V_Idle \<longleftrightarrow> True"
| "pc_ok L raw d (V_Over e) \<longleftrightarrow> True"

definition race_inv :: "'kp libs \<Rightarrow> string list \<Rightarrow> verify_sys \<Rightarrow> bool" where
  "race_inv L raws s \<longleftrightarrow>
     inv L (vs_db s) \<and> length (vs_pcs s) = length raws \<and>
     (\<forall>i < length raws. pc_ok L (raws ! i) (vs_db s) (vs_pcs s ! i)) \<and>
     (\<forall>i < length raws. \<forall>x. token_lock (vs_pcs s ! i) = Some x \<longrightarrow> lock_free token_lock (vs_pcs s) i x) \<and>
     (\<forall>i < length raws. \<forall>x. user_lock (vs_pcs s ! i) = Some x \<longrightarrow> lock_free user_lock (vs_pcs s) i x)"

lemma pc_ok_mono:
  assumes "other_commit L tks uks d d'" and "pc_ok L raw d pc"
    and "\<And>x. token_lock pc = Some x \<Longrightarrow> x \<in> tks" and "\<And>x. user_lock pc = Some x \<Longrightarrow> x \<in> uks"
  shows "pc_ok L raw d' pc"
proof -
  have seen: "row_seen L raw d' row" if "row_seen L raw d row" for row
  proof -
    have "consume_row x row \<in> set (tokens d) \<Longrightarrow> consume_row x row \<in> set (tokens d')" for x
      using assms(1) by (fastforce simp: other_commit_def consume_row_def)
    then show ?thesis using assms(1) that by (auto simp: row_seen_def other_commit_def)
  qed
  have used: "row_used L raw d' row" if "row_used L raw d row" for row
    using assms(1) that by (fastforce simp: row_used_def other_commit_def consume_row_def)
  have held: "row_held L raw d' row" if "row_held L raw d row" "t_id row \<in> tks" for row
    using assms(1) that by (auto simp: row_held_def other_commit_def)
  show ?thesis
    using assms seen used held by (cases pc) (fastforce simp: other_commit_def)+
qed

section \<open>Every step keeps it\<close>

lemma row_held_unique:
  assumes "inv L d" and "row_seen L raw d row" and "affected (\<lambda>t. t_id t = t_id row \<and> t_consumed_at t = None) (tokens d) \<noteq> 0"
  shows "row_held L raw d row"
proof -
  obtain t where t: "t \<in> set (tokens d)" "t_id t = t_id row" "t_consumed_at t = None"
    using assms(3) by (auto simp: affected_zero_iff)
  have "consume_row x row \<notin> set (tokens d)" for x
    using distinct_map_inj [OF db_inv_unique(4) [OF assms(1)] t(1), of "consume_row x row"] t
    by (auto simp: consume_row_def)
  then show ?thesis using assms(2) by (auto simp: row_seen_def row_held_def)
qed

lemma commit_effect:
  assumes "inv L d" and "row \<in> set (tokens d)" and "t_consumed_at row = None"
  shows "\<exists>n m. sql_consume_token (t_id row) now d =
      Inr (n, d\<lparr>tokens := map (\<lambda>t. if t = row then consume_row now t else t) (tokens d)\<rparr>) \<and>
    sql_mark_email_verified (l_lower L) (user_status_as_str Active) (t_user_id row) now
      (d\<lparr>tokens := map (\<lambda>t. if t = row then consume_row now t else t) (tokens d)\<rparr>) = Inr (m, verified row now d)"
proof -
  let ?P = "\<lambda>u. u_id u = t_user_id row \<and> live u"
    and ?f = "\<lambda>u. u\<lparr>u_email_verified := True, u_status := user_status_as_str Active, u_updated_at := now\<rparr>"
  have "tokens_violation (users d) (tokens d) = None" "users_violation (l_lower L) (users d) = None"
    using assms(1) by (simp_all add: db_inv_def)
  then have "tokens_violation (users d) (map (\<lambda>t. if t = row then consume_row now t else t) (tokens d)) = None"
    and "users_violation (l_lower L) (update_where ?P ?f (users d)) = None"
    by (simp_all add: tokens_violation_consume users_violation_update)
  moreover have "update_where ?P ?f (users d) = map (\<lambda>u. if ?P u then activate_row now u else u) (users d)"
    by (simp add: update_where_def activate_row_def)
  ultimately show ?thesis
    using consume_by_id [OF assms]
    by (simp add: sql_consume_token_def sql_mark_email_verified_def Let_def write_checked_def verified_def)
qed

lemma commit_inv:
  assumes "inv L d" and "row \<in> set (tokens d)" and "t_consumed_at row = None"
  shows "inv L (verified row now d)"
proof -
  from commit_effect [OF assms, of now] obtain n m d1 where
      c: "sql_consume_token (t_id row) now d = Inr (n, d1)"
    and m: "sql_mark_email_verified (l_lower L) (user_status_as_str Active) (t_user_id row) now d1 =
      Inr (m, verified row now d)" by blast
  from sql_keepsD [OF sql_consume_token_keeps assms(1) c] have "inv L d1" .
  from sql_keepsD [OF sql_mark_email_verified_keeps [OF valid_status_as_str] this m] show ?thesis .
qed

lemma commit_other:
  assumes "inv L d" and "row \<in> set (tokens d)" and "t_consumed_at row = None" and "t_id row \<notin> tks"
  shows "other_commit L tks uks d (verified row now d)"
proof -
  have "\<exists>u' \<in> set (users (verified row now d)). live u' \<and> u_id u' = u_id u" if "u \<in> set (users d)" "live u" for u
    using that by (intro bexI [of _ "if u_id u = t_user_id row \<and> live u then activate_row now u else u"])
      (auto simp: verified_def activate_row_def live_def)
  moreover have "t \<in> set (tokens (verified row now d)) \<or>
      t_consumed_at t = None \<and> t_id t \<notin> tks \<and> (\<exists>x. consume_row x t \<in> set (tokens (verified row now d)))"
    if "t \<in> set (tokens d)" for t
    using that assms(3,4) by (cases "t = row") (force simp: verified_def)+
  ultimately show ?thesis using commit_inv [OF assms(1-3)] by (simp add: other_commit_def)
qed

lemma verify_next_Some:
  assumes "verify_next L raw tfree ufree ans d pc = Some (pc', d')" and "inv L d" and "pc_ok L raw d pc"
  obtains "d' = d" and "pc_ok L raw d pc'" and "used_token pc' = None"
    and "\<And>x. token_lock pc' = Some x \<Longrightarrow> token_lock pc = Some x \<or> tfree x"
    and "\<And>x. user_lock pc' = Some x \<Longrightarrow> user_lock pc = Some x \<or> ufree x"
  | now row where "pc = V_Marked now row" and "pc' = V_Done row \<or> pc' = V_Lost row" and "d' = verified row now d"
proof (cases pc)
  case (V_Open h now)
  with assms that(1) show ?thesis
    by (fastforce simp: verify_next_def row_seen_def sql_token_by_hash_iff
        split: v_answer.splits sum.splits prod.splits option.splits)
next
  case (V_Valid now row)
  have held: "sql_consume_token (t_id row) now d = Inr (n, d1) \<Longrightarrow> n \<noteq> 0 \<Longrightarrow> row_held L raw d row" for n d1
    using row_held_unique [OF assms(2)] assms(3) V_Valid by (auto simp: sql_consume_token_def Let_def)
  show ?thesis
    by (rule that(1)) (use assms V_Valid held in
      \<open>auto simp: verify_next_def split: v_answer.splits sum.splits prod.splits if_splits\<close>)
next
  case (V_Consumed now row)
  have user: "sql_mark_email_verified low st (t_user_id row) now d = Inr (n, d1) \<Longrightarrow> n \<noteq> 0 \<Longrightarrow>
      \<exists>u \<in> set (users d). live u \<and> u_id u = t_user_id row" for low st n d1
    by (auto simp: sql_mark_email_verified_def Let_def affected_zero_iff)
  show ?thesis
    by (rule that(1)) (use assms V_Consumed user in
      \<open>auto simp: verify_next_def split: v_answer.splits sum.splits prod.splits if_splits\<close>)
next
  case (V_Marked now row)
  then have row: "row \<in> set (tokens d)" "t_consumed_at row = None" using assms(3) by (auto simp: row_held_def)
  show ?thesis
  proof (cases "ans = V_Refused")
    case True
    then show ?thesis using that(1) assms V_Marked by (auto simp: verify_next_def)
  next
    case False
    then show ?thesis
      using that(2) [OF V_Marked] assms(1) V_Marked commit_effect [OF assms(2) row, of now]
      by (fastforce simp: verify_next_def split: v_answer.splits if_splits)
  qed
qed (use assms that(1) in \<open>auto simp: verify_next_def split: v_answer.splits sum.splits if_splits\<close>)

lemma lock_free_update:
  assumes "\<And>k x. k < length pcs \<Longrightarrow> lock (pcs ! k) = Some x \<Longrightarrow> lock_free lock pcs k x"
    and "\<And>x. lock pc = Some x \<Longrightarrow> lock (pcs ! i) = Some x \<or> lock_free lock pcs i x"
    and "i < length pcs" and "k < length pcs" and "lock (pcs[i := pc] ! k) = Some x"
  shows "lock_free lock (pcs[i := pc]) k x"
proof (cases "k = i")
  case True
  then have "lock (pcs ! i) = Some x \<or> lock_free lock pcs i x" using assms(2,3,5) by simp
  then have "lock_free lock pcs i x" using assms(1) [OF assms(3)] by blast
  then show ?thesis using True by (auto simp: lock_free_def)
next
  case False
  then have k: "lock (pcs ! k) = Some x" using assms(5) by simp
  then have "lock_free lock pcs k x" using assms(1,4) by blast
  moreover have "lock pc \<noteq> Some x"
    using assms(2) [of x] assms(3,4) \<open>lock_free lock pcs k x\<close> k False by (auto simp: lock_free_def)
  ultimately show ?thesis using False assms(3) by (auto simp: lock_free_def nth_list_update)
qed

lemma race_start_inv: "inv L d \<Longrightarrow> race_inv L raws (race_start raws d)"
  by (simp add: race_inv_def race_start_def)

text \<open>One step of a race: a request moves without touching the database, or commits, or another
  client does.\<close>

lemma own_step_cases:
  assumes "race_inv L raws s" and "i < length raws" and "own_step L raws i ans s = Some s'"
  obtains (quiet) pc where "s' = \<lparr>vs_db = vs_db s, vs_pcs = (vs_pcs s)[i := pc]\<rparr>" "pc_ok L (raws ! i) (vs_db s) pc" "used_token pc = None"
    "\<And>x. token_lock pc = Some x \<Longrightarrow> token_lock (vs_pcs s ! i) = Some x \<or> lock_free token_lock (vs_pcs s) i x"
    "\<And>x. user_lock pc = Some x \<Longrightarrow> user_lock (vs_pcs s ! i) = Some x \<or> lock_free user_lock (vs_pcs s) i x"
  | (commit) pc now row where "vs_pcs s ! i = V_Marked now row" "pc = V_Done row \<or> pc = V_Lost row"
      "s' = \<lparr>vs_db = verified row now (vs_db s), vs_pcs = (vs_pcs s)[i := pc]\<rparr>"
proof -
  from assms(3) obtain pc d where
      next_step: "verify_next L (raws ! i) (lock_free token_lock (vs_pcs s) i) (lock_free user_lock (vs_pcs s) i) ans
        (vs_db s) (vs_pcs s ! i) = Some (pc, d)"
    and s': "s' = \<lparr>vs_db = d, vs_pcs = (vs_pcs s)[i := pc]\<rparr>"
    by (auto simp: own_step_def split: option.splits prod.splits)
  have ok: "inv L (vs_db s)" "pc_ok L (raws ! i) (vs_db s) (vs_pcs s ! i)"
    using assms(1,2) by (simp_all add: race_inv_def)
  from next_step ok show thesis
    by (cases rule: verify_next_Some) (use s' quiet commit in blast)+
qed

lemma race_step_inv:
  assumes "race_step L raws s s'" and "race_inv L raws s"
  shows "race_inv L raws s'"
  using assms(1)
proof cases
  case (own i ans)
  from assms(2) have I: "inv L (vs_db s)" "length (vs_pcs s) = length raws"
    and ok: "\<And>k. k < length raws \<Longrightarrow> pc_ok L (raws ! k) (vs_db s) (vs_pcs s ! k)"
    and tks: "\<And>k x. k < length (vs_pcs s) \<Longrightarrow> token_lock (vs_pcs s ! k) = Some x \<Longrightarrow> lock_free token_lock (vs_pcs s) k x"
    and uks: "\<And>k x. k < length (vs_pcs s) \<Longrightarrow> user_lock (vs_pcs s ! k) = Some x \<Longrightarrow> lock_free user_lock (vs_pcs s) k x"
    by (simp_all add: race_inv_def)
  have i: "i < length raws" using own(1) I(2) by simp
  from assms(2) i own(2) show ?thesis
  proof (cases rule: own_step_cases)
    case (quiet pc)
    have "pc_ok L (raws ! k) (vs_db s) ((vs_pcs s)[i := pc] ! k)" if "k < length raws" for k
      using ok [OF that] quiet(2) own(1) by (cases "k = i") simp_all
    moreover have "lock_free token_lock ((vs_pcs s)[i := pc]) k x"
      if "k < length raws" "token_lock ((vs_pcs s)[i := pc] ! k) = Some x" for k x
      using lock_free_update [where lock = token_lock, OF tks quiet(4) own(1)] that I(2) by simp
    moreover have "lock_free user_lock ((vs_pcs s)[i := pc]) k x"
      if "k < length raws" "user_lock ((vs_pcs s)[i := pc] ! k) = Some x" for k x
      using lock_free_update [where lock = user_lock, OF uks quiet(5) own(1)] that I(2) by simp
    ultimately show ?thesis using quiet(1) I by (simp add: race_inv_def)
  next
    case (commit pc now row)
    from commit(1) ok [OF i] have row: "row_held L (raws ! i) (vs_db s) row" by simp
    then have tk: "row \<in> set (tokens (vs_db s))" "t_consumed_at row = None" by (simp_all add: row_held_def)
    let ?d = "verified row now (vs_db s)"
    have "pc_ok L (raws ! k) ?d (vs_pcs s ! k)" if "k < length raws" "k \<noteq> i" for k
    proof (rule pc_ok_mono [OF commit_other [OF I(1) tk, of "- {t_id row}"] ok [OF that(1)]])
      show "x \<in> - {t_id row}" if "token_lock (vs_pcs s ! k) = Some x" for x
        using tks [OF own(1), of "t_id row"] commit(1) that \<open>k < length raws\<close> \<open>k \<noteq> i\<close> I(2) by (auto simp: lock_free_def)
    qed (rule refl | simp | rule UNIV_I)+
    moreover have "row_used L (raws ! i) ?d row"
      using row by (auto simp: row_used_def row_held_def verified_def)
    ultimately have pcs: "pc_ok L (raws ! k) ?d ((vs_pcs s)[i := pc] ! k)" if "k < length raws" for k
      using that commit(2) own(1) by (cases "k = i") auto
    have none: "token_lock pc = None" "user_lock pc = None" using commit(2) by auto
    have "lock_free token_lock ((vs_pcs s)[i := pc]) k x"
      if "k < length raws" "token_lock ((vs_pcs s)[i := pc] ! k) = Some x" for k x
      by (rule lock_free_update [where lock = token_lock, OF tks _ own(1)]) (use none that I(2) in simp_all)
    moreover have "lock_free user_lock ((vs_pcs s)[i := pc]) k x"
      if "k < length raws" "user_lock ((vs_pcs s)[i := pc] ! k) = Some x" for k x
      by (rule lock_free_update [where lock = user_lock, OF uks _ own(1)]) (use none that I(2) in simp_all)
    ultimately show ?thesis
      using commit(3) I(2) pcs commit_inv [OF I(1) tk, of now] by (simp add: race_inv_def)
  qed
next
  case (other d')
  have "pc_ok L (raws ! i) d' (vs_pcs s ! i)" if "i < length raws" for i
    by (rule pc_ok_mono [OF other(2)])
      (use assms(2) that in \<open>auto simp: race_inv_def locked_def intro: nth_mem\<close>)
  then show ?thesis using other assms(2) by (simp add: race_inv_def other_commit_def)
qed

lemma race_reach_inv: "race_reach L raws d s \<Longrightarrow> inv L d \<Longrightarrow> race_inv L raws s"
  by (induction rule: rtranclp_induct) (auto intro: race_step_inv race_start_inv)

end
