(* ===== verification/Verify_Race_Props.thy ===== *)
theory Verify_Race_Props
  imports Verify_Race
begin

text \<open>
  Properties of verification requests that run at the same time: every interleaving amounts to a
  sequential run with the same commits, a token is used once, and no request waits for ever.
\<close>

section \<open>Interleavings are sequential runs\<close>

text \<open>The log of a race: when a request's transaction began, what the clock told it, which request
  committed, and what each commit of another client made of the database.\<close>

datatype race_event = Opens nat instant | Reads nat instant | Commits nat | Other db db

definition own_events :: "nat \<Rightarrow> v_answer \<Rightarrow> verify_pc \<Rightarrow> verify_pc \<Rightarrow> race_event list" where
  "own_events i ans pc pc' =
     (case (pc, ans) of
        (V_Connected h, V_Answered now) \<Rightarrow> [Opens i now]
      | (V_Read now row, V_Answered utc) \<Rightarrow> [Reads i utc]
      | _ \<Rightarrow> if used_token pc' \<noteq> None then [Commits i] else [])"

inductive race_log :: "'kp libs \<Rightarrow> string list \<Rightarrow> db \<Rightarrow> race_event list \<Rightarrow> verify_sys \<Rightarrow> bool"
  for L :: "'kp libs" and raws :: "string list" and d :: db where
  start: "race_log L raws d [] (race_start raws d)"
| own: "race_log L raws d es s \<Longrightarrow> i < length (vs_pcs s) \<Longrightarrow> own_step L raws i ans s = Some s' \<Longrightarrow>
     race_log L raws d (es @ own_events i ans (vs_pcs s ! i) (vs_pcs s' ! i)) s'"
| other: "race_log L raws d es s \<Longrightarrow>
     other_commit L (locked token_lock (vs_pcs s)) (locked user_lock (vs_pcs s)) (vs_db s) d' \<Longrightarrow>
     race_log L raws d (es @ [Other (vs_db s) d']) (s\<lparr>vs_db := d'\<rparr>)"

lemma race_log_reach: "race_log L raws d es s \<Longrightarrow> race_reach L raws d s"
  by (induction rule: race_log.induct) (auto intro: rtranclp.rtrancl_into_rtrancl race_step.intros)

lemma race_reach_log: "race_reach L raws d s \<Longrightarrow> \<exists>es. race_log L raws d es s"
proof (induction rule: rtranclp_induct)
  case (step s s')
  then obtain es where es: "race_log L raws d es s" by blast
  from step(2) show ?case by cases (use es in \<open>blast intro: race_log.intros\<close>)+
qed (blast intro: race_log.start)

definition committed :: "race_event list \<Rightarrow> nat list" where
  "committed es = concat (map (\<lambda>e. case e of Commits i \<Rightarrow> [i] | _ \<Rightarrow> []) es)"

lemma committed_simps [simp]:
  "committed [] = []" "committed (es @ fs) = committed es @ committed fs" "committed [Opens i x] = []"
  "committed [Reads i x] = []" "committed [Commits i] = [i]" "committed [Other d1 d2] = []"
  by (simp_all add: committed_def)

text \<open>The same log gone through one after the other: where request \<open>i\<close> committed, the whole handler
  \<open>verify_email\<close> runs, undisturbed and with the clocks that the request had, and succeeds; another
  client's commit takes the database from exactly what that client found to what it left.\<close>

inductive one_by_one :: "'kp libs \<Rightarrow> string list \<Rightarrow> race_event list \<Rightarrow> db \<Rightarrow> db \<Rightarrow> bool"
  for L :: "'kp libs" and raws :: "string list" where
  none: "one_by_one L raws [] d d"
| opens: "one_by_one L raws es d d' \<Longrightarrow> one_by_one L raws (es @ [Opens i now]) d d'"
| reads: "one_by_one L raws es d d' \<Longrightarrow> one_by_one L raws (es @ [Reads i utc]) d d'"
| other: "one_by_one L raws es d d' \<Longrightarrow> one_by_one L raws (es @ [Other d' d'']) d d''"
| request: "one_by_one L raws es d d' \<Longrightarrow> Opens i now \<in> set es \<Longrightarrow> Reads i utc \<in> set es \<Longrightarrow> calm V \<Longrightarrow>
    \<forall>t. e_db_now V t = now \<and> e_utc V t = utc \<Longrightarrow>
    verify_email L V (raws ! i) \<lparr>w_db = d', w_tick = 0\<rparr> = (Inr (), w) \<Longrightarrow>
    one_by_one L raws (es @ [Commits i]) d (w_db w)"

text \<open>What the log holds of a request on its way.\<close>

fun clocks_logged :: "race_event list \<Rightarrow> nat \<Rightarrow> verify_pc \<Rightarrow> bool" where
  "clocks_logged es i (V_Open h now) \<longleftrightarrow> Opens i now \<in> set es"
| "clocks_logged es i (V_Read now row) \<longleftrightarrow> Opens i now \<in> set es"
| "clocks_logged es i (V_Valid now row) \<longleftrightarrow> Opens i now \<in> set es \<and> (\<exists>utc. Reads i utc \<in> set es \<and> utc \<le> t_expires_at row)"
| "clocks_logged es i (V_Consumed now row) \<longleftrightarrow> Opens i now \<in> set es \<and> (\<exists>utc. Reads i utc \<in> set es \<and> utc \<le> t_expires_at row)"
| "clocks_logged es i (V_Marked now row) \<longleftrightarrow> Opens i now \<in> set es \<and> (\<exists>utc. Reads i utc \<in> set es \<and> utc \<le> t_expires_at row)"
| "clocks_logged es i pc \<longleftrightarrow> True"

lemma clocks_logged_mono: "clocks_logged es i pc \<Longrightarrow> clocks_logged (es @ fs) i pc"
  by (cases pc) auto

lemma verify_next_logs:
  "verify_next L raw tfree ufree ans d pc = Some (pc', d') \<Longrightarrow> clocks_logged es i pc \<Longrightarrow>
     clocks_logged (es @ own_events i ans pc pc') i pc'"
  by (cases pc) (auto simp: verify_next_def own_events_def not_less
      split: v_answer.splits sum.splits prod.splits option.splits if_splits)

lemma race_log_clocks:
  assumes "race_log L raws d es s"
  shows "\<forall>i < length (vs_pcs s). clocks_logged es i (vs_pcs s ! i)"
  using assms
proof induction
  case (own es s i ans s')
  from own(3) obtain pc d1 where v: "verify_next L (raws ! i) (lock_free token_lock (vs_pcs s) i)
      (lock_free user_lock (vs_pcs s) i) ans (vs_db s) (vs_pcs s ! i) = Some (pc, d1)"
    and s': "s' = \<lparr>vs_db = d1, vs_pcs = (vs_pcs s)[i := pc]\<rparr>"
    by (auto simp: own_step_def split: option.splits prod.splits)
  from verify_next_logs [OF v] own(2,4) have "clocks_logged (es @ own_events i ans (vs_pcs s ! i) pc) i pc" by blast
  with s' own(2,4) show ?case by (auto simp: nth_list_update clocks_logged_mono)
qed (auto simp: race_start_def clocks_logged_mono)

lemma commit_is_handler:
  assumes "inv L d" and "row_held L raw d row" and "\<exists>u \<in> set (users d). live u \<and> u_id u = t_user_id row"
    and "utc \<le> t_expires_at row"
  shows "\<exists>V w. calm V \<and> (\<forall>t. e_db_now V t = now \<and> e_utc V t = utc) \<and>
    verify_email L V raw \<lparr>w_db = d, w_tick = 0\<rparr> = (Inr (), w) \<and> w_db w = verified row now d"
proof -
  let ?V = "sample_env\<lparr>e_db_now := \<lambda>_. now, e_utc := \<lambda>_. utc\<rparr>"
  have V: "calm ?V" by (simp add: calm_def)
  have "usable row (t_token_hash row) utc d"
    using assms(2-4) by (auto simp: usable_def row_held_def)
  then have "verify_email L ?V raw \<lparr>w_db = d, w_tick = 0\<rparr> = (Inr (), \<lparr>w_db = verified row now d, w_tick = 7\<rparr>)"
    using assms(1,2) by (subst verify_email_Inr_iff [OF calm_keeps [OF V]]) (auto simp: row_held_def)
  then show ?thesis using V by (intro exI [of _ ?V] exI conjI) (assumption, simp, assumption, simp)
qed

text \<open>The tokens that are used up change only when a request commits.\<close>

lemma own_step_used:
  assumes "race_inv L raws s" and "i < length raws" and "own_step L raws i ans s = Some s'"
  obtains (same) "vs_db s' = vs_db s" "used_token (vs_pcs s' ! i) = None" "\<And>k. used_token (vs_pcs s' ! k) = used_token (vs_pcs s ! k)"
  | (commit) now row where "vs_pcs s ! i = V_Marked now row" "vs_db s' = verified row now (vs_db s)"
      "\<And>k. used_token (vs_pcs s' ! k) = (if k = i then Some row else used_token (vs_pcs s ! k))"
  using assms
proof (cases rule: own_step_cases)
  case (quiet pc)
  have "used_token (vs_pcs s ! i) = None"
    using assms(3) by (cases "vs_pcs s ! i") (auto simp: own_step_def verify_next_def)
  then have "used_token (vs_pcs s' ! k) = used_token (vs_pcs s ! k)" for k
    using quiet(1,3) assms(1,2) by (cases "k = i") (simp_all add: race_inv_def)
  moreover have "used_token (vs_pcs s' ! i) = None" using quiet(1,3) assms(1,2) by (simp add: race_inv_def)
  ultimately show thesis using quiet(1) same by simp
next
  case (commit pc now row)
  have "used_token (vs_pcs s' ! k) = (if k = i then Some row else used_token (vs_pcs s ! k))" for k
    using commit(2,3) assms(1,2) by (cases "k = i") (auto simp: race_inv_def)
  with commit(1,3) that(2) show thesis by simp
qed

lemma one_by_one_quiet:
  "one_by_one L raws es d d' \<Longrightarrow> used_token pc' = None \<Longrightarrow> one_by_one L raws (es @ own_events i ans pc pc') d d'"
  by (auto simp: own_events_def intro: one_by_one.intros split: verify_pc.splits v_answer.splits)

text \<open>C10. Whatever verification requests run at the same time, with other clients in between: the
  same log of commits, gone through one after the other, leads to the same database. In it every
  request that committed (each of them once) is a whole, undisturbed and successful run of the
  handler, with the transaction time and the clock that the request had, and every commit of
  another client starts from exactly the database that this client found in the race. Every state
  that a race reaches has such a log (\<open>race_reach_log\<close>).\<close>
theorem verify_serializable:
  assumes "inv L d" and "race_log L raws d es s"
  shows "one_by_one L raws es d (vs_db s) \<and> distinct (committed es) \<and>
    set (committed es) = {i. i < length raws \<and> used_token (vs_pcs s ! i) \<noteq> None}"
  using assms(2)
proof induction
  case start
  show ?case by (auto simp: race_start_def intro: one_by_one.none)
next
  case (own es s i ans s')
  have I: "race_inv L raws s" by (rule race_reach_inv [OF race_log_reach [OF own(1)] assms(1)])
  have i: "i < length raws" using own(2) I by (simp add: race_inv_def)
  from I i own(3) show ?case
  proof (cases rule: own_step_used)
    case same
    have "committed (own_events i ans (vs_pcs s ! i) (vs_pcs s' ! i)) = []"
      using same(2) by (auto simp: own_events_def split: verify_pc.splits v_answer.splits)
    moreover have "one_by_one L raws (es @ own_events i ans (vs_pcs s ! i) (vs_pcs s' ! i)) d (vs_db s')"
      using own(4) same(1,2) by (intro one_by_one_quiet) simp_all
    moreover have "used_token (vs_pcs s' ! k) = used_token (vs_pcs s ! k)" for k by (rule same(3))
    ultimately show ?thesis using own(4) by simp
  next
    case (commit now row)
    have ok: "pc_ok L (raws ! i) (vs_db s) (vs_pcs s ! i)" "inv L (vs_db s)" using I i by (simp_all add: race_inv_def)
    have "clocks_logged es i (vs_pcs s ! i)" using race_log_clocks [OF own(1)] own(2) by blast
    then obtain utc where utc: "Opens i now \<in> set es" "Reads i utc \<in> set es" "utc \<le> t_expires_at row"
      using commit(1) by auto
    obtain V w where V: "calm V" "\<forall>t. e_db_now V t = now \<and> e_utc V t = utc"
        "verify_email L V (raws ! i) \<lparr>w_db = vs_db s, w_tick = 0\<rparr> = (Inr (), w)" and w: "w_db w = vs_db s'"
      using commit_is_handler [of L "vs_db s" "raws ! i" row utc now] commit(1,2) ok utc(3) by auto
    have "own_events i ans (vs_pcs s ! i) (vs_pcs s' ! i) = [Commits i]"
      using commit(1,3) by (simp add: own_events_def)
    moreover have "one_by_one L raws (es @ [Commits i]) d (vs_db s')"
      using one_by_one.request [OF _ utc(1,2) V] own(4) w by simp
    moreover have "i \<notin> set (committed es)" using own(4) commit(1) by simp
    moreover have "{k. k < length raws \<and> used_token (vs_pcs s' ! k) \<noteq> None} = insert i (set (committed es))"
      using i own(4) commit(3) by auto
    ultimately show ?thesis using own(4) by simp
  qed
next
  case (other es s d')
  then show ?case by (auto intro: one_by_one.other)
qed

text \<open>Two requests with the same token: both read it, the first commits, and the second, which had
  to wait, is told that the token was consumed.\<close>

definition race_schedule :: "(nat \<times> v_answer) list" where
  "race_schedule = map (\<lambda>i. (i, V_Answered (minutes 10))) [0, 1, 0, 1, 0, 1, 0, 1, 0, 0, 0, 1]"

fun race_run :: "'kp libs \<Rightarrow> string list \<Rightarrow> (nat \<times> v_answer) list \<Rightarrow> verify_sys \<Rightarrow> verify_sys option" where
  "race_run L raws [] s = Some s"
| "race_run L raws ((i, a) # as) s =
     (if i < length (vs_pcs s) then (case own_step L raws i a s of None \<Rightarrow> None | Some s' \<Rightarrow> race_run L raws as s')
      else None)"

lemma race_run_reach: "race_run L raws as s = Some s' \<Longrightarrow> (race_step L raws)\<^sup>*\<^sup>* s s'"
proof (induction as arbitrary: s)
  case (Cons a as)
  then obtain s1 where "race_step L raws s s1" "race_run L raws as s1 = Some s'"
    by (cases a) (auto split: if_splits option.splits intro: race_step.own)
  then show ?case using Cons.IH converse_rtranclp_into_rtranclp by metis
qed simp

lemma race_run_log:
  "race_run L raws as s = Some s' \<Longrightarrow> race_log L raws d es s \<Longrightarrow> \<exists>fs. race_log L raws d (es @ fs) s'"
proof (induction as arbitrary: s es)
  case Nil
  then show ?case by (intro exI [of _ "[]"]) simp
next
  case (Cons a as)
  then obtain i ans s1 where "i < length (vs_pcs s)" "own_step L raws i ans s = Some s1" "race_run L raws as s1 = Some s'"
    by (cases a) (auto split: if_splits option.splits)
  with Cons.IH race_log.own [OF Cons.prems(2)] show ?case by (metis append.assoc)
qed

abbreviation race_tokens :: "string list" where
  "race_tokens \<equiv> [hex_encode [1, 2, 3], hex_encode [1, 2, 3]]"

lemma race_sample_rows:
  "sql_token_by_hash [3, 2, 1] now sample_db = Inr (Some sample_token, sample_db)"
  "sql_consume_token (t_id sample_token) now sample_db = Inr (1, sample_db\<lparr>tokens := [consume_row now sample_token]\<rparr>)"
  "sql_consume_token (t_id sample_token) now (verified sample_token now sample_db) =
     Inr (0, verified sample_token now sample_db)"
  "sql_mark_email_verified (\<lambda>s. s) ''active'' (t_user_id sample_token) now
     (sample_db\<lparr>tokens := ts\<rparr>) = Inr (1, sample_db\<lparr>tokens := ts, users := [sample_user, activate_row now sample_pending]\<rparr>)"
  "sql_mark_email_verified (\<lambda>s. s) ''active'' (t_user_id sample_token) now sample_db =
     Inr (1, sample_db\<lparr>users := [sample_user, activate_row now sample_pending]\<rparr>)"
  "sample_db\<lparr>tokens := [consume_row now sample_token], users := [sample_user, activate_row now sample_pending]\<rparr> =
     verified sample_token now sample_db"
  by (simp_all add: sql_token_by_hash_def query_opt_def sql_consume_token_def sql_mark_email_verified_def
      write_checked_def update_where_def affected_def verified_def consume_row_def activate_row_def
      tokens_violation_def users_violation_def live_def sample_db_def sample_token_def sample_pending_def
      sample_user_def)

lemma race_example:
  "race_run login_libs race_tokens race_schedule (race_start race_tokens sample_db) =
     Some \<lparr>vs_db = verified sample_token (minutes 10) sample_db, vs_pcs = [V_Done sample_token, V_Over AlreadyConsumed]\<rparr>"
proof -
  have time: "\<not> t_expires_at sample_token < minutes 10"
    by (simp add: sample_token_def minutes_def seconds_def one_second_def)
  have two: "(\<forall>j < Suc (Suc 0). P j) \<longleftrightarrow> P 0 \<and> P (Suc 0)" for P by (auto simp: less_Suc_eq)
  show ?thesis
    by (simp add: race_schedule_def race_start_def own_step_def verify_next_def sample_token_hash race_sample_rows
        lock_free_def time two)
qed

theorem verify_serializable_witness:
  "\<exists>es. race_log login_libs race_tokens sample_db es \<lparr>vs_db = verified sample_token (minutes 10) sample_db,
       vs_pcs = [V_Done sample_token, V_Over AlreadyConsumed]\<rparr> \<and>
     one_by_one login_libs race_tokens es sample_db (verified sample_token (minutes 10) sample_db) \<and>
     committed es = [0]"
proof -
  have inv: "inv login_libs sample_db" by (simp add: sample_db_inv)
  obtain es where es: "race_log login_libs race_tokens sample_db es \<lparr>vs_db = verified sample_token (minutes 10) sample_db,
       vs_pcs = [V_Done sample_token, V_Over AlreadyConsumed]\<rparr>"
    using race_run_log [OF race_example race_log.start] by auto
  have "{i. i < 2 \<and> used_token ([V_Done sample_token, V_Over AlreadyConsumed] ! i) \<noteq> None} = {0}"
    by (auto simp: less_2_cases_iff)
  with verify_serializable [OF inv es] have "one_by_one login_libs race_tokens es sample_db
      (verified sample_token (minutes 10) sample_db)" "distinct (committed es)" "set (committed es) = {0}"
    by (simp_all add: numeral_2_eq_2)
  then have "committed es = [0]"
    by (cases "committed es"; cases "tl (committed es)") auto
  with es \<open>one_by_one login_libs race_tokens es sample_db _\<close> show ?thesis by blast
qed

section \<open>A token is used once\<close>

lemma race_uses_distinct:
  assumes "inv L d" and "race_reach L raws d s"
  shows "\<forall>i j row row'. i < length raws \<longrightarrow> j < length raws \<longrightarrow> i \<noteq> j \<longrightarrow> used_token (vs_pcs s ! i) = Some row \<longrightarrow>
    used_token (vs_pcs s ! j) = Some row' \<longrightarrow> t_id row \<noteq> t_id row'"
  using assms(2)
proof (induction rule: rtranclp_induct)
  case base
  then show ?case by (simp add: race_start_def)
next
  case (step s s')
  note I = race_reach_inv [OF step(1) assms(1)]
  from step(2) show ?case
  proof cases
    case (own i ans)
    have i: "i < length raws" using own(1) I by (simp add: race_inv_def)
    from I i own(2) show ?thesis
    proof (cases rule: own_step_used)
      case same
      then show ?thesis using step.IH by simp
    next
      case (commit now row)
      have held: "row_held L (raws ! i) (vs_db s) row" and inv: "inv L (vs_db s)"
        and ok: "\<And>j. j < length raws \<Longrightarrow> pc_ok L (raws ! j) (vs_db s) (vs_pcs s ! j)"
        using I i commit(1) by (auto simp: race_inv_def dest: spec [of _ i])
      have "t_id row' \<noteq> t_id row" if j: "j < length raws" and used: "used_token (vs_pcs s ! j) = Some row'" for j row'
      proof -
        obtain x where x: "consume_row x row' \<in> set (tokens (vs_db s))"
          using ok [OF j] used by (cases "vs_pcs s ! j") (auto simp: row_used_def)
        show ?thesis
        proof
          assume "t_id row' = t_id row"
          then have "t_id (consume_row x row') = t_id row" by (simp add: consume_row_def)
          then have "consume_row x row' = row"
            using distinct_map_inj [OF db_inv_unique(4) [OF inv] x, of row] held by (simp add: row_held_def)
          from arg_cong [OF this, of t_consumed_at] held show False by (simp add: row_held_def consume_row_def)
        qed
      qed
      then show ?thesis using step.IH commit(3) by (metis option.inject)
    qed
  next
    case (other d')
    then show ?thesis using step.IH by simp
  qed
qed

text \<open>C11. Of any number of requests that run at the same time, no two use the same token: the rows of
  the tokens that requests used up are different and each is consumed for good, so if digests of
  tokens do not repeat, at most one of the requests that present a token commits.\<close>
theorem verify_race_single_use:
  assumes "inv L d" and "race_reach L raws d s" and "i < length raws" and "j < length raws" and "i \<noteq> j"
    and "used_token (vs_pcs s ! i) = Some row" and "used_token (vs_pcs s ! j) = Some row'"
  shows "t_id row \<noteq> t_id row' \<and> (\<exists>x. consume_row x row \<in> set (tokens (vs_db s))) \<and>
    (distinct (map t_token_hash (tokens (vs_db s))) \<longrightarrow> raws ! i \<noteq> raws ! j)"
proof -
  have I: "race_inv L raws s" by (rule race_reach_inv [OF assms(2,1)])
  have ids: "t_id row \<noteq> t_id row'" using race_uses_distinct [OF assms(1,2)] assms(3-7) by blast
  have used: "row_used L (raws ! k) (vs_db s) r" if "k < length raws" "used_token (vs_pcs s ! k) = Some r" for k r
  proof -
    have "pc_ok L (raws ! k) (vs_db s) (vs_pcs s ! k)" using I that(1) by (simp add: race_inv_def)
    with that(2) show ?thesis by (cases "vs_pcs s ! k") auto
  qed
  note u = used [OF assms(3,6)] used [OF assms(4,7)]
  obtain x y where xy: "consume_row x row \<in> set (tokens (vs_db s))" "consume_row y row' \<in> set (tokens (vs_db s))"
    using u by (auto simp: row_used_def)
  have "raws ! i \<noteq> raws ! j" if "distinct (map t_token_hash (tokens (vs_db s)))"
  proof
    assume "raws ! i = raws ! j"
    then have "consume_row x row = consume_row y row'"
      using distinct_map_inj [OF that xy] u by (simp add: row_used_def consume_row_def)
    from arg_cong [OF this, of t_id] ids show False by (simp add: consume_row_def)
  qed
  with ids xy show ?thesis by blast
qed

definition second_token :: token_row where
  "second_token = sample_token\<lparr>t_id := 51, t_user_id := 1, t_token_hash := [6, 5, 4]\<rparr>"

definition two_tokens_db :: db where
  "two_tokens_db = sample_db\<lparr>tokens := [sample_token, second_token]\<rparr>"

abbreviation two_tokens :: "string list" where
  "two_tokens \<equiv> [hex_encode [1, 2, 3], hex_encode [4, 5, 6]]"

lemma second_token_hash: "hash_verification_token hex64 rev (hex_encode [4, 5, 6]) = Inr [6, 5, 4]"
  by (simp add: hash_verification_token_def hex64_def hex_decode_opt_def decode_hex_encode)

lemma two_tokens_inv: "inv login_libs two_tokens_db"
  by (simp add: two_tokens_db_def second_token_def db_inv_def sample_db_def users_violation_def tokens_violation_def
      refresh_violation_def outbox_violation_def signing_keys_violation_def sample_user_def sample_pending_def
      sample_token_def live_def valid_status_def user_status_from_str_def)

definition after_first :: db where
  "after_first = two_tokens_db\<lparr>tokens := [consume_row (minutes 10) sample_token, second_token],
     users := [sample_user, activate_row (minutes 10) sample_pending]\<rparr>"

lemma two_tokens_rows:
  "sql_token_by_hash [3, 2, 1] now two_tokens_db = Inr (Some sample_token, two_tokens_db)"
  "sql_token_by_hash [6, 5, 4] now two_tokens_db = Inr (Some second_token, two_tokens_db)"
  "sql_consume_token (t_id sample_token) now two_tokens_db =
     Inr (1, two_tokens_db\<lparr>tokens := [consume_row now sample_token, second_token]\<rparr>)"
  "\<exists>d. sql_consume_token (t_id second_token) now two_tokens_db = Inr (1, d)"
  "\<exists>d. sql_mark_email_verified (\<lambda>s. s) ''active'' (t_user_id sample_token) now two_tokens_db = Inr (1, d)"
  "\<exists>d. sql_mark_email_verified (\<lambda>s. s) ''active'' (t_user_id second_token) now two_tokens_db = Inr (1, d)"
  "sql_mark_email_verified (\<lambda>s. s) ''active'' (t_user_id sample_token) (minutes 10)
     (two_tokens_db\<lparr>tokens := [consume_row (minutes 10) sample_token, second_token]\<rparr>) = Inr (1, after_first)"
  "\<exists>ts. sql_consume_token (t_id second_token) now after_first = Inr (1, after_first\<lparr>tokens := ts\<rparr>)"
  "\<exists>d. sql_mark_email_verified (\<lambda>s. s) ''active'' (t_user_id second_token) now (after_first\<lparr>tokens := ts\<rparr>) = Inr (1, d)"
  by (simp_all add: sql_token_by_hash_def query_opt_def sql_consume_token_def sql_mark_email_verified_def
      write_checked_def update_where_def affected_def consume_row_def activate_row_def after_first_def
      tokens_violation_def users_violation_def live_def two_tokens_db_def second_token_def sample_db_def
      sample_token_def sample_pending_def sample_user_def)

lemma two_tokens_example:
  "\<exists>d. race_run login_libs two_tokens (map (\<lambda>i. (i, V_Answered (minutes 10))) [0, 1, 0, 1, 0, 1, 0, 1, 0, 1, 0, 1, 0, 1])
     (race_start two_tokens two_tokens_db) = Some \<lparr>vs_db = d, vs_pcs = [V_Done sample_token, V_Done second_token]\<rparr>"
proof -
  have time: "\<not> t_expires_at sample_token < minutes 10" "\<not> t_expires_at second_token < minutes 10"
    by (simp_all add: second_token_def sample_token_def minutes_def seconds_def one_second_def)
  have rows: "t_id sample_token \<noteq> t_id second_token" "t_user_id sample_token \<noteq> t_user_id second_token"
    by (simp_all add: second_token_def sample_token_def)
  have two: "(\<forall>j < Suc (Suc 0). P j) \<longleftrightarrow> P 0 \<and> P (Suc 0)" for P by (auto simp: less_Suc_eq)
  from two_tokens_rows(4-6) [of "minutes 10"] two_tokens_rows(8) [of "minutes 10"] obtain d1 d2 d3 ts where
      d: "sql_consume_token (t_id second_token) (minutes 10) two_tokens_db = Inr (1, d1)"
      "sql_mark_email_verified (\<lambda>s. s) ''active'' (t_user_id sample_token) (minutes 10) two_tokens_db = Inr (1, d2)"
      "sql_mark_email_verified (\<lambda>s. s) ''active'' (t_user_id second_token) (minutes 10) two_tokens_db = Inr (1, d3)"
      "sql_consume_token (t_id second_token) (minutes 10) after_first = Inr (1, after_first\<lparr>tokens := ts\<rparr>)" by blast
  obtain d4 where "sql_mark_email_verified (\<lambda>s. s) ''active'' (t_user_id second_token) (minutes 10)
      (after_first\<lparr>tokens := ts\<rparr>) = Inr (1, d4)" using two_tokens_rows(9) by blast
  with d rows show ?thesis
    by (simp add: race_start_def own_step_def verify_next_def sample_token_hash second_token_hash
        two_tokens_rows(1-3,7) lock_free_def time two)
qed

theorem verify_race_single_use_witness:
  "\<exists>s. race_reach login_libs two_tokens two_tokens_db s \<and> used_token (vs_pcs s ! 0) = Some sample_token \<and>
     used_token (vs_pcs s ! 1) = Some second_token \<and> t_id sample_token \<noteq> t_id second_token \<and>
     (\<exists>x. consume_row x sample_token \<in> set (tokens (vs_db s)))"
proof -
  obtain d where r: "race_reach login_libs two_tokens two_tokens_db
      \<lparr>vs_db = d, vs_pcs = [V_Done sample_token, V_Done second_token]\<rparr>"
    using two_tokens_example race_run_reach by blast
  have "t_id sample_token \<noteq> t_id second_token \<and> (\<exists>x. consume_row x sample_token \<in> set (tokens d))"
    using verify_race_single_use [OF two_tokens_inv r, of 0 1 sample_token second_token] by simp
  then show ?thesis using r by (intro exI [of _ "\<lparr>vs_db = d, vs_pcs = [V_Done sample_token, V_Done second_token]\<rparr>"]) simp
qed

section \<open>No request waits for ever\<close>

text \<open>How many steps a request has left at most.\<close>

fun steps_left :: "verify_pc \<Rightarrow> nat" where
  "steps_left V_Idle = 7"
| "steps_left (V_Connected h) = 6"
| "steps_left (V_Open h now) = 5"
| "steps_left (V_Read now row) = 4"
| "steps_left (V_Valid now row) = 3"
| "steps_left (V_Consumed now row) = 2"
| "steps_left (V_Marked now row) = 1"
| "steps_left _ = 0"

definition all_steps_left :: "verify_sys \<Rightarrow> nat" where
  "all_steps_left s = sum_list (map steps_left (vs_pcs s))"

lemma verify_next_decreases:
  "verify_next L raw tfree ufree ans d pc = Some (pc', d') \<Longrightarrow> steps_left pc' < steps_left pc"
  by (cases pc) (auto simp: verify_next_def split: v_answer.splits sum.splits prod.splits option.splits if_splits)

lemma own_step_decreases:
  assumes "own_step L raws i ans s = Some s'" and "i < length (vs_pcs s)"
  shows "all_steps_left s' < all_steps_left s"
proof -
  obtain pc d where next_step: "verify_next L (raws ! i) (lock_free token_lock (vs_pcs s) i)
      (lock_free user_lock (vs_pcs s) i) ans (vs_db s) (vs_pcs s ! i) = Some (pc, d)"
    and s': "s' = \<lparr>vs_db = d, vs_pcs = (vs_pcs s)[i := pc]\<rparr>"
    using assms(1) by (auto simp: own_step_def split: option.splits prod.splits)
  have "steps_left pc < steps_left (vs_pcs s ! i)" by (rule verify_next_decreases [OF next_step])
  moreover have "all_steps_left s = sum_list (map steps_left (take i (vs_pcs s) @ vs_pcs s ! i # drop (Suc i) (vs_pcs s)))"
    unfolding all_steps_left_def by (subst id_take_nth_drop [OF assms(2), symmetric]) (rule refl)
  moreover have "all_steps_left s' = sum_list (map steps_left (take i (vs_pcs s) @ pc # drop (Suc i) (vs_pcs s)))"
    by (simp add: all_steps_left_def s' upd_conv_take_nth_drop [OF assms(2)])
  ultimately show ?thesis by simp
qed

text \<open>Whether a request can go on when its effect is answered.\<close>

definition can_step :: "'kp libs \<Rightarrow> string list \<Rightarrow> verify_sys \<Rightarrow> nat \<Rightarrow> bool" where
  "can_step L raws s i \<longleftrightarrow> (\<forall>a. \<exists>s'. own_step L raws i (V_Answered a) s = Some s')"

lemma can_step_iff:
  "can_step L raws s i \<longleftrightarrow> (\<forall>a. verify_next L (raws ! i) (lock_free token_lock (vs_pcs s) i)
     (lock_free user_lock (vs_pcs s) i) (V_Answered a) (vs_db s) (vs_pcs s ! i) \<noteq> None)"
  by (auto simp: can_step_def own_step_def split: option.splits)

lemma race_can_step:
  assumes "i < length (vs_pcs s)" and "verify_answer (vs_pcs s ! i) = None"
  shows "\<exists>j < length (vs_pcs s). can_step L raws s j"
proof (cases "\<exists>j now row. j < length (vs_pcs s) \<and> vs_pcs s ! j = V_Marked now row")
  case True
  then obtain j now row where j: "j < length (vs_pcs s)" "vs_pcs s ! j = V_Marked now row" by blast
  then have "can_step L raws s j"
    by (auto simp: can_step_iff verify_next_def split: sum.splits prod.splits)
  with j show ?thesis by blast
next
  case no_marked: False
  then have users: "lock_free user_lock (vs_pcs s) j x" for j x
    by (auto simp: lock_free_def elim!: user_lock.elims)
  show ?thesis
  proof (cases "\<exists>j now row. j < length (vs_pcs s) \<and> vs_pcs s ! j = V_Consumed now row")
    case True
    then obtain j now row where j: "j < length (vs_pcs s)" "vs_pcs s ! j = V_Consumed now row" by blast
    then have "can_step L raws s j" by (simp add: can_step_iff verify_next_def users)
    with j show ?thesis by blast
  next
    case False
    with no_marked have "lock_free token_lock (vs_pcs s) i x" for x
      by (auto simp: lock_free_def elim!: token_lock.elims)
    then have "can_step L raws s i"
      using assms(2) False no_marked assms(1)
      by (cases "vs_pcs s ! i") (auto simp: can_step_iff verify_next_def split: sum.splits)
    with assms(1) show ?thesis by blast
  qed
qed

text \<open>C23. Requests cannot block each other for good: as long as one of them is not answered, some
  request can take a step whatever clock it reads, and every step of a request brings them all
  nearer to the end.\<close>
theorem verify_race_progress:
  assumes "inv L d" and "race_reach L raws d s" and "i < length raws" and "verify_answer (vs_pcs s ! i) = None"
  shows "\<exists>j < length raws. \<forall>a. \<exists>s'. own_step L raws j (V_Answered a) s = Some s' \<and>
    race_reach L raws d s' \<and> all_steps_left s' < all_steps_left s"
proof -
  have n: "length (vs_pcs s) = length raws" using race_reach_inv [OF assms(2,1)] by (simp add: race_inv_def)
  from race_can_step [of i s L raws] assms(3,4) n obtain j where j: "j < length raws" "can_step L raws s j" by auto
  have "\<exists>s'. own_step L raws j (V_Answered a) s = Some s' \<and> race_reach L raws d s' \<and>
      all_steps_left s' < all_steps_left s" for a
  proof -
    obtain s' where s': "own_step L raws j (V_Answered a) s = Some s'" using j(2) by (auto simp: can_step_def)
    have "race_step L raws s s'" using race_step.own [OF _ s'] j(1) n by simp
    with assms(2) s' own_step_decreases [OF s'] j(1) n show ?thesis
      by (intro exI [of _ s']) (simp add: rtranclp.rtrancl_into_rtrancl)
  qed
  with j(1) show ?thesis by blast
qed

theorem verify_race_progress_witness:
  "\<exists>j < length race_tokens. \<exists>s'. own_step login_libs race_tokens j (V_Answered 0) (race_start race_tokens sample_db) = Some s' \<and>
     all_steps_left s' < all_steps_left (race_start race_tokens sample_db)"
proof -
  have I: "inv login_libs sample_db" by (simp add: sample_db_inv)
  have "verify_answer (vs_pcs (race_start race_tokens sample_db) ! 0) = None" by (simp add: race_start_def)
  from verify_race_progress [OF I rtranclp.rtrancl_refl _ this] show ?thesis by (simp only: list.size) blast
qed

end
