(* ===== verification/Resend_Race.thy ===== *)
theory Resend_Race
  imports Registration_Props
begin

text \<open>
  Requests for a new verification mail that run at the same time
  (\<open>services/identity/src/services/resend_verification.rs\<close>). The handler looks up the user, counts the
  tokens of the last hour and stores a new one in three separate accesses of the database, so that
  other requests act in between. The theory bounds how far the limit of three tokens an hour can be
  exceeded, and shows that the bound is reached.
\<close>

section \<open>One request, access by access\<close>

datatype resend_pc =
    R_Idle string
  | R_Found user
  | R_Allowed user
  | R_Over "resend_error exit + unit"

text \<open>The part of \<open>execute\<close> behind the rate limit.\<close>

definition resend_store :: "'kp libs \<Rightarrow> env \<Rightarrow> user \<Rightarrow> string \<Rightarrow> (resend_error, unit) io" where
  "resend_store L V user web_base_url =
     andThen (resend_prepare L V user web_base_url) (\<lambda>rs.
     transaction V RV_Db (\<lambda>tx.
       andThen (mapErr RV_Db (insert_token V tx (rs_token_id rs) (usr_id user) (rs_token_hash rs)
         (rs_expires_at rs))) (\<lambda>_.
       mapErr RV_Outbox (insert_event V tx (rs_outbox_id rs) ''user'' (usr_id user) ''auth_email''
         (rs_payload rs) (rs_trace_id rs) (rs_span_id rs)))))"

definition resend_next :: "'kp libs \<Rightarrow> env \<Rightarrow> string \<Rightarrow> resend_pc \<Rightarrow> world \<Rightarrow> (resend_pc \<times> world) option" where
  "resend_next L V web_base_url pc w =
     (case pc of
        R_Idle email \<Rightarrow>
          (case andThen (pool_get V Primary RV_Pool) (\<lambda>client. attempt (get_user_by_email L V client email)) w of
             (Inl x, w') \<Rightarrow> Some (R_Over (Inl x), w')
           | (Inr looked_up, w') \<Rightarrow>
               Some (case looked_up of
                   Inl _ \<Rightarrow> R_Over (Inr ())
                 | Inr found \<Rightarrow>
                     (case found of
                        None \<Rightarrow> R_Over (Inr ())
                      | Some user \<Rightarrow>
                          if usr_status user \<noteq> PendingVerification then R_Over (Inr ()) else R_Found user), w'))
      | R_Found user \<Rightarrow>
          (case mapErr RV_Db (count_recent_tokens V (Conn Primary) (usr_id user)) w of
             (Inl x, w') \<Rightarrow> Some (R_Over (Inl x), w')
           | (Inr recent_count, w') \<Rightarrow>
               Some (if recent_count \<ge> MAX_TOKENS_PER_HOUR then R_Over (Inl (Err RateLimited))
                     else R_Allowed user, w'))
      | R_Allowed user \<Rightarrow>
          (case resend_store L V user web_base_url w of (r, w') \<Rightarrow> Some (R_Over r, w'))
      | R_Over _ \<Rightarrow> None)"

fun resend_run :: "nat \<Rightarrow> 'kp libs \<Rightarrow> env \<Rightarrow> string \<Rightarrow> resend_pc \<Rightarrow> world \<Rightarrow> resend_pc \<times> world" where
  "resend_run 0 L V url pc w = (pc, w)"
| "resend_run (Suc n) L V url pc w =
     (case resend_next L V url pc w of None \<Rightarrow> (pc, w) | Some (pc', w') \<Rightarrow> resend_run n L V url pc' w')"

lemma resend_run_over [simp]: "resend_run n L V url (R_Over r) w = (R_Over r, w)"
  by (cases n) (simp_all add: resend_next_def)

text \<open>Three accesses in a row are the handler, whatever the environment does.\<close>

lemma resend_to_user_store:
  "resend_to_user L V client user url =
     andThen (mapErr RV_Db (count_recent_tokens V client (usr_id user))) (\<lambda>recent_count.
     if recent_count \<ge> MAX_TOKENS_PER_HOUR then throw RateLimited else resend_store L V user url)"
  unfolding resend_to_user_def resend_store_def by (rule refl)

lemma resend_run_alone:
  "resend_run 3 L V url (R_Idle email) w =
     (case resend_verification L V email url w of (r, w') \<Rightarrow> (R_Over r, w'))"
proof -
  have client: "c = Conn Primary" if "pool_get V Primary (RV_Pool :: resend_error) w = (Inr c, w1)" for c w1
    using that by (simp add: pool_get_Inr_iff)
  show ?thesis
    by (auto simp: eval_nat_numeral resend_next_def resend_verification_def resend_to_user_store andThen_def
        ret_def throw_def dest!: client split: prod.splits sum.splits option.splits)
qed

section \<open>Requests that run at the same time\<close>

text \<open>The world and the requests in flight, one per slot; a slot whose request is answered takes the
  next one.\<close>

record resend_sys =
  rr_world :: world
  rr_pcs :: "resend_pc list"

inductive resend_step :: "'kp libs \<Rightarrow> env \<Rightarrow> string \<Rightarrow> resend_sys \<Rightarrow> resend_sys \<Rightarrow> bool"
  for L :: "'kp libs" and V :: env and url :: string where
  arrives: "i < length (rr_pcs s) \<Longrightarrow> rr_pcs s ! i = R_Over r \<Longrightarrow>
     resend_step L V url s (s\<lparr>rr_pcs := (rr_pcs s)[i := R_Idle email]\<rparr>)"
| moves: "i < length (rr_pcs s) \<Longrightarrow> resend_next L V url (rr_pcs s ! i) (rr_world s) = Some (pc, w') \<Longrightarrow>
     resend_step L V url s \<lparr>rr_world = w', rr_pcs = (rr_pcs s)[i := pc]\<rparr>"

definition resend_start :: "nat \<Rightarrow> world \<Rightarrow> resend_sys" where
  "resend_start k w = \<lparr>rr_world = w, rr_pcs = replicate k (R_Over (Inr ()))\<rparr>"

abbreviation resend_reach :: "'kp libs \<Rightarrow> env \<Rightarrow> string \<Rightarrow> nat \<Rightarrow> world \<Rightarrow> resend_sys \<Rightarrow> bool" where
  "resend_reach L V url k w \<equiv> (resend_step L V url)\<^sup>*\<^sup>* (resend_start k w)"

text \<open>The creation times of a user's tokens, and how many lie in the hour after \<open>a\<close>.\<close>

definition token_times :: "db \<Rightarrow> uuid \<Rightarrow> instant list" where
  "token_times d uid = map t_created_at (filter (\<lambda>t. t_user_id t = uid) (tokens d))"

definition tokens_in_hour :: "db \<Rightarrow> uuid \<Rightarrow> instant \<Rightarrow> nat" where
  "tokens_in_hour d uid a = length (filter (\<lambda>c. a < c \<and> c \<le> a + minutes 60) (token_times d uid))"

text \<open>The clock of the database does not go back, and nobody else stores tokens for the user.\<close>

definition clock_forward :: "env \<Rightarrow> bool" where
  "clock_forward V \<longleftrightarrow> (\<forall>t t'. t \<le> t' \<longrightarrow> e_db_now V t \<le> e_db_now V t')"

definition only_resends :: "env \<Rightarrow> uuid \<Rightarrow> bool" where
  "only_resends V uid \<longleftrightarrow> (\<forall>t d. token_times (e_others V t d) uid = token_times d uid)"

definition allowed :: "uuid \<Rightarrow> resend_pc list \<Rightarrow> nat" where
  "allowed uid pcs = length (filter (\<lambda>pc. case pc of R_Allowed u \<Rightarrow> usr_id u = uid | _ \<Rightarrow> False) pcs)"

lemma recent_tokens_times: "recent_tokens d uid now = length (filter (\<lambda>c. c > now - minutes 60) (token_times d uid))"
  by (simp add: recent_tokens_def affected_def token_times_def filter_map comp_def conj_commute)

lemma length_filter_mono: "(\<And>x. P x \<Longrightarrow> Q x) \<Longrightarrow> length (filter P xs) \<le> length (filter Q xs)"
  by (induction xs) (auto simp: le_SucI)

lemma hour_le_recent:
  assumes "now \<le> a + minutes 60"
  shows "tokens_in_hour d uid a \<le> recent_tokens d uid now"
  unfolding recent_tokens_times tokens_in_hour_def by (rule length_filter_mono) (use assms in auto)

section \<open>What each access does\<close>

text \<open>Effects only move the tick forward.\<close>

definition forward :: "('e, 'a) io \<Rightarrow> bool" where
  "forward m \<longleftrightarrow> (\<forall>w r w'. m w = (r, w') \<longrightarrow> w_tick w \<le> w_tick w')"

lemma forward_pure: "forward (ret a)" "forward (throw e)" "forward (pureR f r)" "forward (ask h)"
  by (auto simp: forward_def ret_def throw_def pureR_def ask_def)

lemma forward_andThen: "forward m \<Longrightarrow> (\<And>a. forward (k a)) \<Longrightarrow> forward (andThen m k)"
  unfolding forward_def andThen_def by (fastforce split: prod.splits sum.splits intro: order_trans)

lemma forward_mapErr: "forward m \<Longrightarrow> forward (mapErr f m)"
  by (auto simp: forward_def mapErr_def split: prod.splits)

lemma forward_exec: "forward (exec V c q)"
  unfolding forward_def
proof (intro allI impI)
  fix w r w' assume "exec V c q w = (r, w')"
  then show "w_tick w \<le> w_tick w'"
    by (cases c; cases "case c of Conn p \<Rightarrow> p | _ \<Rightarrow> Primary")
      (auto simp: exec.simps Let_def split: outcome.splits sum.splits prod.splits if_splits)
qed

lemma forward_transaction:
  assumes "\<And>c. forward (body c)"
  shows "forward (transaction V f body)"
  unfolding forward_def
proof (intro allI impI)
  fix w r w' assume t: "transaction V f body w = (r, w')"
  let ?w0 = "\<lparr>w_db = e_others V (w_tick w) (w_db w), w_tick = Suc (w_tick w)\<rparr>"
  obtain r1 w1 where b: "body (Tx (e_db_now V (w_tick w))) ?w0 = (r1, w1)" by fastforce
  then have "Suc (w_tick w) \<le> w_tick w1" using assms by (fastforce simp: forward_def)
  then show "w_tick w \<le> w_tick w'"
    using t b by (auto simp: transaction_def Let_def split: outcome.splits sum.splits)
qed

lemma forward_resend_prepare: "forward (resend_prepare L V user url)"
  unfolding resend_prepare_def Let_def extract_trace_context_def
  by (intro forward_andThen forward_pure) (auto split: prod.split option.split intro!: forward_andThen forward_pure)

lemma forward_store: "forward (resend_store L V user url)"
  unfolding resend_store_def insert_token_def insert_event_def
  by (intro forward_andThen forward_transaction forward_mapErr forward_exec forward_pure forward_resend_prepare)

text \<open>Lookups and counts leave the user's tokens alone; storing adds at most one, created at the
  time of its transaction.\<close>

lemma exec_conn_times:
  assumes "only_resends V uid" and "exec V (Conn Primary) q w = (r, w')"
    and "\<And>now d a d'. q now d = Inr (a, d') \<Longrightarrow> d' = d"
  shows "token_times (w_db w') uid = token_times (w_db w) uid"
  using assms(1,2)
  by (auto simp: exec.simps Let_def only_resends_def split: outcome.splits sum.splits prod.splits if_splits dest!: assms(3))

lemma expect_user_world: "expect_user row w = (r, w') \<Longrightarrow> w' = w"
  by (auto simp: expect_user_def ret_def pureX_def split: option.splits sum.splits)

lemma lookup_times:
  assumes "only_resends V uid"
    and "andThen (pool_get V Primary RV_Pool) (\<lambda>client. attempt (get_user_by_email L V client email)) w = (r, w')"
  shows "token_times (w_db w') uid = token_times (w_db w) uid \<and> w_tick w \<le> w_tick w'"
proof -
  let ?w1 = "w\<lparr>w_tick := Suc (w_tick w)\<rparr>" and ?get = "get_user_by_email L V (Conn Primary) email"
  let ?att = "attempt ?get :: (resend_error, pg_error + user option) io"
  obtain r1 w1 where e: "exec V (Conn Primary) (sql_user_by_email (l_lower L) email) ?w1 = (r1, w1)" by fastforce
  have "w_tick ?w1 \<le> w_tick w1" using forward_exec e unfolding forward_def by blast
  moreover have "token_times (w_db w1) uid = token_times (w_db ?w1) uid"
    by (rule exec_conn_times [OF assms(1) e]) (auto simp: sql_user_by_email_def dest: query_opt_same)
  moreover have "snd (?get ?w1) = w1"
    using e by (auto simp: get_user_by_email_def andThen_def split: sum.splits dest: expect_user_world
        intro: prod.exhaust) (metis expect_user_world prod.collapse)
  then have "snd (?att ?w1) = w1" by (auto simp: attempt_def split: prod.splits sum.splits exit.splits)
  moreover have "w' = ?w1 \<or> w' = snd (?att ?w1)"
    using assms(2) by (cases "e_pool V (w_tick w)"; cases "?att ?w1")
      (simp_all add: andThen_def pool_get_def ask_def ret_def throw_def)
  ultimately show ?thesis by auto
qed

lemma count_times:
  assumes "only_resends V uid" and "mapErr RV_Db (count_recent_tokens V (Conn Primary) i) w = (r, w')"
  shows "token_times (w_db w') uid = token_times (w_db w) uid" and "w_tick w \<le> w_tick w'"
    and "r = Inr n \<Longrightarrow> i = uid \<Longrightarrow> n = int (recent_tokens (w_db w) uid (e_db_now V (w_tick w)))"
proof -
  obtain r1 where e: "exec V (Conn Primary) (sql_count_recent_tokens i) w = (r1, w')" and r: "r = map_err (map_exit RV_Db) r1"
    using assms(2) by (auto simp: mapErr_def count_recent_tokens_def split: prod.splits)
  show "token_times (w_db w') uid = token_times (w_db w) uid"
    by (rule exec_conn_times [OF assms(1) e]) (auto simp: sql_count_recent_tokens_def)
  show "w_tick w \<le> w_tick w'" using forward_exec e unfolding forward_def by blast
  show "n = int (recent_tokens (w_db w) uid (e_db_now V (w_tick w)))" if "r = Inr n" "i = uid"
  proof -
    have "r1 = Inr n" using r that(1) by (cases r1) (simp_all add: map_err_def)
    then have "n = int (recent_tokens (e_others V (w_tick w) (w_db w)) uid (e_db_now V (w_tick w)))"
      using e that(2) by (auto simp: exec_primary_Inr_iff sql_count_recent_tokens_def recent_tokens_def)
    then show ?thesis using assms(1) by (simp add: recent_tokens_times only_resends_def)
  qed
qed

lemma token_times_add_rows:
  "token_times (add_rows us [new_token i u h e now] os d) uid = token_times d uid @ (if u = uid then [now] else [])"
  by (simp add: token_times_def new_token_def)

lemma store_times:
  assumes "only_resends V uid" and "resend_store L V user url w = (r, w')"
  shows "token_times (w_db w') uid = token_times (w_db w) uid \<or>
     usr_id user = uid \<and> (\<exists>t. w_tick w \<le> t \<and> token_times (w_db w') uid = token_times (w_db w) uid @ [e_db_now V t])"
  using assms(2) unfolding resend_store_def
proof (cases rule: quiet_step [OF _ quiet_resend_prepare, consumes 1, case_names stop go])
  case (go rs w1)
  have w1: "w_tick w \<le> w_tick w1" using forward_resend_prepare go(1) unfolding forward_def by blast
  have others: "token_times (e_others V t d) uid = token_times d uid" for t d
    using assms(1) by (simp add: only_resends_def)
  let ?body = "\<lambda>tx. andThen (mapErr RV_Db (insert_token V tx (rs_token_id rs) (usr_id user) (rs_token_hash rs)
         (rs_expires_at rs))) (\<lambda>_.
       mapErr RV_Outbox (insert_event V tx (rs_outbox_id rs) ''user'' (usr_id user) ''auth_email''
         (rs_payload rs) (rs_trace_id rs) (rs_span_id rs)))"
    and ?d = "e_others V (w_tick w1) (w_db w1)" and ?now = "e_db_now V (w_tick w1)"
  have stored: "token_times (w_db w2) uid = token_times (w_db w) uid @ (if usr_id user = uid then [?now] else [])"
    if "?body (Tx ?now) \<lparr>w_db = ?d, w_tick = Suc (w_tick w1)\<rparr> = (Inr a, w2)" for a w2
    using that
    by (auto simp: andThen_Inr_iff mapErr_Inr_iff insert_token_tx_Inr_iff insert_event_tx_Inr_iff
        add_rows_add_rows token_times_add_rows others go(2))
  show ?thesis
  proof (cases r)
    case (Inl x)
    with go(3) have t: "transaction V RV_Db ?body w1 = (Inl x, w')" by simp
    from transaction_Inl [OF t] show ?thesis
    proof
      assume "w_db w' = ?d"
      then show ?thesis by (simp add: others go(2))
    next
      assume "\<exists>a w2. ?body (Tx ?now) \<lparr>w_db = ?d, w_tick = Suc (w_tick w1)\<rparr> = (Inr a, w2) \<and>
        e_stmt V (w_tick w2) = ReplyLost \<and> x = Err (RV_Db Other_Pg_Error) \<and> w_db w' = w_db w2"
      then show ?thesis using stored w1 by (auto split: if_splits)
    qed
  next
    case (Inr a)
    with go(3) have "transaction V RV_Db ?body w1 = (Inr a, w')" by simp
    then show ?thesis using stored w1 by (auto simp: transaction_Inr_iff split: if_splits)
  qed
qed simp

section \<open>The bound\<close>

definition resend_inv :: "env \<Rightarrow> uuid \<Rightarrow> instant \<Rightarrow> nat \<Rightarrow> resend_sys \<Rightarrow> bool" where
  "resend_inv V uid a k s \<longleftrightarrow> length (rr_pcs s) = k \<and> tokens_in_hour (w_db (rr_world s)) uid a \<le> 2 + k \<and>
     (e_db_now V (w_tick (rr_world s)) \<le> a + minutes 60 \<longrightarrow>
        tokens_in_hour (w_db (rr_world s)) uid a + allowed uid (rr_pcs s) \<le> 2 + k)"

lemma hour_append:
  "token_times d' uid = token_times d uid @ [c] \<Longrightarrow>
     tokens_in_hour d' uid a = tokens_in_hour d uid a + (if a < c \<and> c \<le> a + minutes 60 then 1 else 0)"
  by (simp add: tokens_in_hour_def)

lemma hour_same: "token_times d' uid = token_times d uid \<Longrightarrow> tokens_in_hour d' uid a = tokens_in_hour d uid a"
  by (simp add: tokens_in_hour_def)

lemma allowed_le: "allowed uid pcs \<le> length pcs"
  by (simp add: allowed_def)

text \<open>Whether a request is past the rate limit for this user.\<close>

definition counts :: "uuid \<Rightarrow> resend_pc \<Rightarrow> nat" where
  "counts uid pc = (case pc of R_Allowed u \<Rightarrow> if usr_id u = uid then 1 else 0 | _ \<Rightarrow> 0)"

lemma allowed_update:
  assumes "i < length pcs"
  shows "allowed uid (pcs[i := pc]) + counts uid (pcs ! i) = allowed uid pcs + counts uid pc"
proof -
  let ?P = "\<lambda>pc. case pc of R_Allowed u \<Rightarrow> usr_id u = uid | _ \<Rightarrow> False"
  have c: "counts uid q = (if ?P q then 1 else 0)" for q by (simp add: counts_def split: resend_pc.split)
  have "allowed uid pcs = length (filter ?P (take i pcs @ pcs ! i # drop (Suc i) pcs))"
    unfolding allowed_def by (subst id_take_nth_drop [OF assms, symmetric]) (rule refl)
  moreover have "allowed uid (pcs[i := pc]) = length (filter ?P (take i pcs @ pc # drop (Suc i) pcs))"
    by (simp add: allowed_def upd_conv_take_nth_drop [OF assms])
  ultimately show ?thesis unfolding c by simp
qed

text \<open>What one access means for the bound.\<close>

lemma resend_next_times:
  assumes "only_resends V uid" and "resend_next L V url pc w = Some (pc', w')"
  shows "w_tick w \<le> w_tick w'"
    and "counts uid pc' = 0 \<and> (token_times (w_db w') uid = token_times (w_db w) uid \<or>
        counts uid pc = 1 \<and> (\<exists>t. w_tick w \<le> t \<and> token_times (w_db w') uid = token_times (w_db w) uid @ [e_db_now V t])) \<or>
      counts uid pc' = 1 \<and> counts uid pc = 0 \<and> token_times (w_db w') uid = token_times (w_db w) uid \<and>
        recent_tokens (w_db w) uid (e_db_now V (w_tick w)) < 3"
proof -
  consider (idle) email where "pc = R_Idle email" | (found) u where "pc = R_Found u" | (allowed) u where "pc = R_Allowed u"
    using assms(2) by (cases pc) (auto simp: resend_next_def)
  then have "w_tick w \<le> w_tick w' \<and>
    (counts uid pc' = 0 \<and> (token_times (w_db w') uid = token_times (w_db w) uid \<or>
        counts uid pc = 1 \<and> (\<exists>t. w_tick w \<le> t \<and> token_times (w_db w') uid = token_times (w_db w) uid @ [e_db_now V t])) \<or>
      counts uid pc' = 1 \<and> counts uid pc = 0 \<and> token_times (w_db w') uid = token_times (w_db w) uid \<and>
        recent_tokens (w_db w) uid (e_db_now V (w_tick w)) < 3)"
  proof cases
    case idle
    obtain r w1 where r: "andThen (pool_get V Primary RV_Pool) (\<lambda>client. attempt (get_user_by_email L V client email)) w = (r, w1)"
      by fastforce
    have "counts uid pc' = 0 \<and> w' = w1"
      using assms(2) idle r by (auto simp: resend_next_def counts_def split: sum.splits option.splits if_splits)
    then show ?thesis using lookup_times [OF assms(1) r] by simp
  next
    case (found u)
    obtain r w1 where r: "mapErr RV_Db (count_recent_tokens V (Conn Primary) (usr_id u)) w = (r, w1)" by fastforce
    have "w' = w1" using assms(2) found r by (auto simp: resend_next_def split: sum.splits)
    moreover have "counts uid pc' = 0 \<or> usr_id u = uid \<and> counts uid pc' = 1 \<and> (\<exists>n. r = Inr n \<and> n < 3)"
      using assms(2) found r by (auto simp: resend_next_def counts_def MAX_TOKENS_PER_HOUR_def split: sum.splits if_splits)
    moreover have "counts uid pc = 0" using found by (simp add: counts_def)
    moreover note c = count_times [OF assms(1) r]
    moreover have "recent_tokens (w_db w) uid (e_db_now V (w_tick w)) < 3" if "usr_id u = uid" "r = Inr n" "n < 3" for n
      using c(3) [OF that(2,1)] that(3) by simp
    ultimately show ?thesis by metis
  next
    case (allowed u)
    obtain r w1 where r: "resend_store L V u url w = (r, w1)" by fastforce
    have "pc' = R_Over r" "w' = w1" using assms(2) allowed r by (simp_all add: resend_next_def)
    moreover have "w_tick w \<le> w_tick w1" using forward_store r unfolding forward_def by blast
    ultimately show ?thesis using store_times [OF assms(1) r] allowed by (auto simp: counts_def)
  qed
  then show "w_tick w \<le> w_tick w'"
    and "counts uid pc' = 0 \<and> (token_times (w_db w') uid = token_times (w_db w) uid \<or>
        counts uid pc = 1 \<and> (\<exists>t. w_tick w \<le> t \<and> token_times (w_db w') uid = token_times (w_db w) uid @ [e_db_now V t])) \<or>
      counts uid pc' = 1 \<and> counts uid pc = 0 \<and> token_times (w_db w') uid = token_times (w_db w) uid \<and>
        recent_tokens (w_db w) uid (e_db_now V (w_tick w)) < 3" by (rule conjunct1, rule conjunct2)
qed

lemma resend_step_inv:
  assumes "clock_forward V" and "only_resends V uid" and "resend_step L V url s s'" and "resend_inv V uid a k s"
  shows "resend_inv V uid a k s'"
  using assms(3)
proof cases
  case (arrives i r email)
  have "allowed uid ((rr_pcs s)[i := R_Idle email]) = allowed uid (rr_pcs s)"
    using allowed_update [OF arrives(2), of uid "R_Idle email"] arrives(3) by (simp add: counts_def)
  then show ?thesis using arrives(1) assms(4) by (simp add: resend_inv_def)
next
  case (moves i pc w')
  let ?w = "rr_world s" and ?h = "\<lambda>w. tokens_in_hour (w_db w) uid a"
  have tick: "e_db_now V (w_tick ?w) \<le> e_db_now V (w_tick w')"
    using resend_next_times(1) [OF assms(2) moves(3)] assms(1) by (simp add: clock_forward_def)
  have k: "length (rr_pcs s) = k" using assms(4) by (simp add: resend_inv_def)
  note upd = allowed_update [OF moves(2), of uid pc]
  have bound: "?h ?w \<le> 2 + k" "e_db_now V (w_tick ?w) \<le> a + minutes 60 \<Longrightarrow> ?h ?w + allowed uid (rr_pcs s) \<le> 2 + k"
    using assms(4) by (simp_all add: resend_inv_def)
  have ak: "allowed uid ((rr_pcs s)[i := pc]) \<le> k" using allowed_le [of uid "(rr_pcs s)[i := pc]"] k by simp
  from resend_next_times(2) [OF assms(2) moves(3)]
  have "?h w' \<le> 2 + k \<and> (e_db_now V (w_tick w') \<le> a + minutes 60 \<longrightarrow>
      ?h w' + allowed uid ((rr_pcs s)[i := pc]) \<le> 2 + k)"
  proof (elim disjE conjE exE)
    assume c: "counts uid pc = 0" and same: "token_times (w_db w') uid = token_times (w_db ?w) uid"
    show ?thesis using bound tick upd c hour_same [OF same, of a] by auto
  next
    fix t assume c: "counts uid pc = 0" "counts uid (rr_pcs s ! i) = 1" and t: "w_tick ?w \<le> t"
      and app: "token_times (w_db w') uid = token_times (w_db ?w) uid @ [e_db_now V t]"
    have "e_db_now V (w_tick ?w) \<le> e_db_now V t" using t assms(1) by (simp add: clock_forward_def)
    then show ?thesis using bound tick upd c hour_append [OF app, of a] by (auto split: if_splits)
  next
    assume c: "counts uid pc = 1" "counts uid (rr_pcs s ! i) = 0"
      and same: "token_times (w_db w') uid = token_times (w_db ?w) uid"
      and few: "recent_tokens (w_db ?w) uid (e_db_now V (w_tick ?w)) < 3"
    show ?thesis
      using bound hour_same [OF same, of a] hour_le_recent [of "e_db_now V (w_tick ?w)" a "w_db ?w" uid] few ak tick
      by auto
  qed
  then show ?thesis using moves(1) k by (simp add: resend_inv_def)
qed

text \<open>C21. The limit on verification mails is kept up to the requests that run at the same time: with
  at most \<open>k\<close> of them in flight, whatever fails, no hour sees more than \<open>2 + k\<close> new tokens of a user
  where resending is what creates them; the limit of three holds for one request at a time only.\<close>
theorem resend_race_bound:
  assumes "clock_forward V" and "only_resends V uid" and "resend_reach L V url k w s"
    and "tokens_in_hour (w_db w) uid a \<le> 2 + k"
  shows "tokens_in_hour (w_db (rr_world s)) uid a \<le> 2 + k"
proof -
  have none: "allowed uid (replicate k (R_Over (Inr ()))) = 0" by (simp add: allowed_def)
  from assms(3) have "resend_inv V uid a k s"
  proof (induction rule: rtranclp_induct)
    case base
    then show ?case using assms(4) none by (simp add: resend_inv_def resend_start_def)
  next
    case (step s s')
    then show ?case using resend_step_inv [OF assms(1,2)] by blast
  qed
  then show ?thesis by (simp add: resend_inv_def)
qed

section \<open>The bound is reached\<close>

text \<open>A user with two recent tokens and two requests that both count before either stores.\<close>

definition busy_db :: db where
  "busy_db = sample_db\<lparr>tokens := [sample_token, sample_token\<lparr>t_id := 51, t_token_hash := [6, 5, 4]\<rparr>]\<rparr>"

lemma busy_db_inv: "inv login_libs busy_db"
  by (simp add: busy_db_def db_inv_def sample_db_def users_violation_def tokens_violation_def
      refresh_violation_def outbox_violation_def signing_keys_violation_def sample_user_def sample_pending_def
      sample_token_def live_def valid_status_def user_status_from_str_def)

lemma sample_store:
  assumes "tokens_violation (users d) (tokens d @ [new_token (of_nat t) (usr_id u) (replicate 32 (of_nat (t + 2)))
      (minutes 10 + minutes TOKEN_EXPIRES_MINUTES) (minutes 10)]) = None"
    and "\<And>p. outbox_violation (outbox d @ [new_event (of_nat (Suc t)) (usr_id u) p None None (minutes 10)]) = None"
  shows "\<exists>e. ob_id e = of_nat (Suc t) \<and> resend_store login_libs sample_env u url \<lparr>w_db = d, w_tick = t\<rparr> =
    (Inr (), \<lparr>w_db = add_rows [] [new_token (of_nat t) (usr_id u) (replicate 32 (of_nat (t + 2)))
      (minutes 10 + minutes TOKEN_EXPIRES_MINUTES) (minutes 10)] [e] d, w_tick = t + 10\<rparr>)"
  using assms
  by (simp add: resend_store_def resend_prepare_def andThen_Inr_iff pureR_Inr_iff ask_Inr_iff
      extract_trace_context_Inr_iff ret_def generate_verification_token_def transaction_Inr_iff
      insert_token_tx_Inr_iff insert_event_tx_Inr_iff mapErr_Inr_iff Let_def add_rows_add_rows)
    (rule exI, rule conjI [rotated], rule refl, simp add: new_event_def)

lemma busy_user: "get_user_by_email login_libs sample_env (Conn Primary) ''b@b.c'' \<lparr>w_db = busy_db, w_tick = t\<rparr> =
    (Inr (Some (user_of sample_pending)), \<lparr>w_db = busy_db, w_tick = Suc t\<rparr>)"
proof -
  have "email_owner (\<lambda>s. s) busy_db ''b@b.c'' = Some sample_pending"
    by (simp add: email_owner_def busy_db_def sample_db_def sample_user_def sample_pending_def live_def)
  then show ?thesis
    using calm_user_by_email [OF sample_env_calm, of login_libs "\<lparr>w_db = busy_db, w_tick = t\<rparr>" "''b@b.c''"] busy_db_inv
    by simp
qed

lemma busy_moves:
  "resend_next login_libs sample_env url (R_Idle ''b@b.c'') \<lparr>w_db = busy_db, w_tick = t\<rparr> =
     Some (R_Found (user_of sample_pending), \<lparr>w_db = busy_db, w_tick = t + 2\<rparr>)"
  "resend_next login_libs sample_env url (R_Found (user_of sample_pending)) \<lparr>w_db = busy_db, w_tick = t\<rparr> =
     Some (R_Allowed (user_of sample_pending), \<lparr>w_db = busy_db, w_tick = t + 1\<rparr>)"
proof -
  have "usr_status (user_of sample_pending) = PendingVerification"
    by (simp add: user_of_def sample_pending_def user_status_from_str_def)
  then show "resend_next login_libs sample_env url (R_Idle ''b@b.c'') \<lparr>w_db = busy_db, w_tick = t\<rparr> =
     Some (R_Found (user_of sample_pending), \<lparr>w_db = busy_db, w_tick = t + 2\<rparr>)"
    by (simp add: resend_next_def andThen_def pool_get_def ask_def ret_def attempt_def busy_user)
  have "usr_id (user_of sample_pending) = 2" by (simp add: user_of_simps)
  then show "resend_next login_libs sample_env url (R_Found (user_of sample_pending)) \<lparr>w_db = busy_db, w_tick = t\<rparr> =
     Some (R_Allowed (user_of sample_pending), \<lparr>w_db = busy_db, w_tick = t + 1\<rparr>)"
    by (simp add: resend_next_def mapErr_def count_recent_tokens_def calm_exec [OF sample_env_calm] map_err_def
        sql_count_recent_tokens_def affected_def MAX_TOKENS_PER_HOUR_def,
      simp add: busy_db_def sample_token_def)
qed

lemma busy_stores:
  "\<exists>w1 w2. resend_next login_libs sample_env url (R_Allowed (user_of sample_pending)) \<lparr>w_db = busy_db, w_tick = 106\<rparr> =
      Some (R_Over (Inr ()), w1) \<and>
    resend_next login_libs sample_env url (R_Allowed (user_of sample_pending)) w1 = Some (R_Over (Inr ()), w2) \<and>
    token_times (w_db w2) 2 = [0, 0, minutes 10, minutes 10]"
proof -
  let ?e = "minutes 10 + minutes TOKEN_EXPIRES_MINUTES"
  let ?tk = "\<lambda>t. new_token (of_nat t) 2 (replicate 32 (of_nat (t + 2))) ?e (minutes 10)"
  have two: "usr_id (user_of sample_pending) = 2" by (simp add: user_of_simps)
  have differ: "replicate 32 x \<noteq> [6, 5, 4 :: byte]" "[6, 5, 4 :: byte] \<noteq> replicate 32 x" for x
    by (auto dest: arg_cong [of _ _ length])
  note rows = busy_db_def sample_db_def sample_user_def sample_pending_def sample_token_def tokens_violation_def
    outbox_violation_def new_token_def new_event_def replicate_not_short differ two
  have "tokens_violation (users busy_db) (tokens busy_db @ [?tk 106]) = None" "outbox busy_db = []"
    by (simp_all add: rows)
  then obtain e where e: "ob_id e = 107" and s1: "resend_store login_libs sample_env (user_of sample_pending) url \<lparr>w_db = busy_db, w_tick = 106\<rparr> =
      (Inr (), \<lparr>w_db = add_rows [] [?tk 106] [e] busy_db, w_tick = 116\<rparr>)"
    using sample_store [of busy_db 106 "user_of sample_pending" url] two by (auto simp: outbox_violation_def)
  let ?d = "add_rows [] [?tk 106] [e] busy_db"
  have "tokens_violation (users ?d) (tokens ?d @ [?tk 116]) = None" "outbox ?d = [e]"
    by (simp_all add: rows add_rows_def replicate_eq_replicate)
  then obtain e' where s2: "resend_store login_libs sample_env (user_of sample_pending) url \<lparr>w_db = ?d, w_tick = 116\<rparr> =
      (Inr (), \<lparr>w_db = add_rows [] [?tk 116] [e'] ?d, w_tick = 126\<rparr>)"
    using sample_store [of ?d 116 "user_of sample_pending" url] two e by (auto simp: outbox_violation_def new_event_def)
  have "token_times (add_rows [] [?tk 116] [e'] ?d) 2 = [0, 0, minutes 10, minutes 10]"
    by (simp add: token_times_def rows)
  with s1 s2 show ?thesis by (simp add: resend_next_def)
qed

text \<open>A schedule: requests that arrive at a slot, and slots that take their next access.\<close>

datatype resend_act = Arrive nat string | Access nat

fun resend_acts :: "'kp libs \<Rightarrow> env \<Rightarrow> string \<Rightarrow> resend_act list \<Rightarrow> resend_sys \<Rightarrow> resend_sys option" where
  "resend_acts L V url [] s = Some s"
| "resend_acts L V url (Arrive i email # as) s =
     (if i < length (rr_pcs s)
      then (case rr_pcs s ! i of
              R_Over r \<Rightarrow> resend_acts L V url as (s\<lparr>rr_pcs := (rr_pcs s)[i := R_Idle email]\<rparr>)
            | _ \<Rightarrow> None)
      else None)"
| "resend_acts L V url (Access i # as) s =
     (if i < length (rr_pcs s)
      then (case resend_next L V url (rr_pcs s ! i) (rr_world s) of
              None \<Rightarrow> None
            | Some (pc, w) \<Rightarrow> resend_acts L V url as \<lparr>rr_world = w, rr_pcs = (rr_pcs s)[i := pc]\<rparr>)
      else None)"

lemma resend_acts_reach: "resend_acts L V url as s = Some s' \<Longrightarrow> (resend_step L V url)\<^sup>*\<^sup>* s s'"
proof (induction as arbitrary: s)
  case (Cons a as)
  then obtain s1 where "resend_step L V url s s1" "resend_acts L V url as s1 = Some s'"
    by (cases a) (auto split: if_splits option.splits resend_pc.splits intro: resend_step.intros)
  then show ?case using Cons.IH converse_rtranclp_into_rtranclp by metis
qed simp

lemma busy_race:
  "\<exists>s. resend_acts login_libs sample_env url
       [Arrive 0 ''b@b.c'', Arrive 1 ''b@b.c'', Access 0, Access 1, Access 0, Access 1, Access 0, Access 1]
       (resend_start 2 \<lparr>w_db = busy_db, w_tick = 100\<rparr>) = Some s \<and>
     token_times (w_db (rr_world s)) 2 = [0, 0, minutes 10, minutes 10]"
proof -
  obtain w1 w2 where "resend_next login_libs sample_env url (R_Allowed (user_of sample_pending))
      \<lparr>w_db = busy_db, w_tick = 106\<rparr> = Some (R_Over (Inr ()), w1)"
    "resend_next login_libs sample_env url (R_Allowed (user_of sample_pending)) w1 = Some (R_Over (Inr ()), w2)"
    "token_times (w_db w2) 2 = [0, 0, minutes 10, minutes 10]" using busy_stores by blast
  then show ?thesis by (simp add: resend_start_def numeral_2_eq_2 busy_moves)
qed

theorem resend_race_bound_witness:
  "\<exists>s. resend_reach login_libs sample_env ''https://h'' 2 \<lparr>w_db = busy_db, w_tick = 100\<rparr> s \<and>
     tokens_in_hour (w_db (rr_world s)) 2 (- 1) = 4 \<and> tokens_in_hour (w_db (rr_world s)) 2 (- 1) \<le> 2 + 2"
proof -
  have hour: "tokens_in_hour busy_db 2 (- 1) \<le> 2 + 2"
    by (simp add: tokens_in_hour_def token_times_def busy_db_def sample_token_def)
  have env: "clock_forward sample_env" "only_resends sample_env 2"
    by (simp_all add: clock_forward_def only_resends_def)
  obtain s where s: "resend_reach login_libs sample_env ''https://h'' 2 \<lparr>w_db = busy_db, w_tick = 100\<rparr> s"
    "token_times (w_db (rr_world s)) 2 = [0, 0, minutes 10, minutes 10]" using busy_race resend_acts_reach by blast
  have "tokens_in_hour (w_db (rr_world s)) 2 (- 1) = 4"
    by (simp add: tokens_in_hour_def s(2) minutes_def seconds_def one_second_def)
  with resend_race_bound [OF env s(1)] hour s(1) show ?thesis by (intro exI [of _ s]) simp
qed

end
