(* ===== verification/Channel_Race.thy ===== *)
theory Channel_Race
  imports Gateway_Props
begin

text \<open>
  Requests of the gateway that use the channel to the identity service at the same time, while the
  certificate of the gateway is rotated (\<open>services/gateway/src/pool.rs\<close>). Each call of \<open>client\<close> is a
  machine with one step per access of the shared state: the sequence number of the source, the
  unlocked load of \<open>created_seq\<close>, the lock, the second look, the connection, the store. A task may be
  dropped wherever it awaits.

  The theory shows that a call alone is \<open>identity_client\<close>, that no call returns a connection older
  than the certificate that was current when it began, and that a call can always go on.
\<close>

section \<open>One call\<close>

text \<open>The sequence number after \<open>k\<close> rotations; a call carries the \<open>k\<close> of the number it read.\<close>

definition svid_seq :: "nat \<Rightarrow> u64" where
  "svid_seq k = of_nat k"

datatype client_pc =
    C_Idle
  | C_Sampled nat
  | C_Waiting nat
  | C_Locked nat
  | C_Connecting nat
  | C_Replaced nat nat
  | C_Reading nat
  | C_Done nat nat
  | C_Failed

text \<open>The calls that hold the write lock, those that await something, and those that returned.\<close>

fun holds_lock :: "client_pc \<Rightarrow> bool" where
  "holds_lock (C_Locked k) = True"
| "holds_lock (C_Connecting k) = True"
| "holds_lock (C_Replaced k c) = True"
| "holds_lock _ = False"

fun awaiting :: "client_pc \<Rightarrow> bool" where
  "awaiting (C_Waiting k) = True"
| "awaiting (C_Connecting k) = True"
| "awaiting (C_Reading k) = True"
| "awaiting _ = False"

fun returned :: "client_pc \<Rightarrow> bool" where
  "returned (C_Done k c) = True"
| "returned C_Failed = True"
| "returned _ = False"

text \<open>
  The next step after \<open>rot\<close> rotations; \<open>free\<close>: no other call holds the lock; \<open>connects\<close>: whether a
  connection can be made, and \<open>new\<close> names it. \<open>None\<close>: the call returned, or waits for the lock.
\<close>

fun client_next :: "nat \<Rightarrow> bool \<Rightarrow> bool \<Rightarrow> nat \<Rightarrow> identity_channel \<Rightarrow> client_pc
    \<Rightarrow> (client_pc \<times> identity_channel) option" where
  "client_next rot free connects new ch C_Idle = Some (C_Sampled rot, ch)"
| "client_next rot free connects new ch (C_Sampled k) =
     Some (if svid_seq k \<noteq> ic_created_seq ch then C_Waiting k else C_Reading k, ch)"
| "client_next rot free connects new ch (C_Waiting k) = (if free then Some (C_Locked k, ch) else None)"
| "client_next rot free connects new ch (C_Locked k) =
     Some (if ic_created_seq ch \<noteq> svid_seq k then C_Connecting k else C_Done k (ic_connection ch), ch)"
| "client_next rot free connects new ch (C_Connecting k) =
     Some (if connects then (C_Replaced k new, ch\<lparr>ic_connection := new\<rparr>) else (C_Failed, ch))"
| "client_next rot free connects new ch (C_Replaced k c) = Some (C_Done k c, ch\<lparr>ic_created_seq := svid_seq k\<rparr>)"
| "client_next rot free connects new ch (C_Reading k) =
     (if free then Some (C_Done k (ic_connection ch), ch) else None)"
| "client_next rot free connects new ch _ = None"

section \<open>A call alone is the function\<close>

fun client_run :: "nat \<Rightarrow> nat \<Rightarrow> bool \<Rightarrow> nat \<Rightarrow> identity_channel \<Rightarrow> client_pc \<Rightarrow> client_pc \<times> identity_channel" where
  "client_run 0 rot connects new ch pc = (pc, ch)"
| "client_run (Suc n) rot connects new ch pc =
     (case client_next rot True connects new ch pc of
        None \<Rightarrow> (pc, ch)
      | Some (pc', ch') \<Rightarrow> client_run n rot connects new ch' pc')"

fun client_result :: "client_pc \<Rightarrow> (channel_error exit + nat) option" where
  "client_result (C_Done k c) = Some (Inr c)"
| "client_result C_Failed = Some (Inl (Err Channel_Transport))"
| "client_result _ = None"

lemma client_run_alone:
  assumes "\<And>t ch. ge_rebuilt G t ch = ch" and "ge_svid_seq G (gw_tick g) = svid_seq rot"
    and "identity_client G g = (r, g')"
  shows "\<exists>pc. client_run 6 rot (ge_connect G (gw_tick g + 2)) (gw_tick g + 2) (gw_channel g) C_Idle =
    (pc, gw_channel g') \<and> client_result pc = Some r"
  using channel_follows_rotation [OF assms(1,3)] assms(2)
  by (cases "gw_channel g") (auto simp: eval_nat_numeral split: if_splits)

section \<open>Calls at the same time\<close>

text \<open>The rotations so far, the shared fields, the rotation at which each connection was made, and the
  calls.\<close>

record channel_sys =
  cs_rotations :: nat
  cs_channel :: identity_channel
  cs_handshakes :: "nat list"
  cs_calls :: "client_pc list"

definition lock_is_free :: "client_pc list \<Rightarrow> nat \<Rightarrow> bool" where
  "lock_is_free pcs i \<longleftrightarrow> (\<forall>j < length pcs. j \<noteq> i \<longrightarrow> \<not> holds_lock (pcs ! j))"

text \<open>A step of call \<open>i\<close>; a connection made in it presents the certificate of that moment.\<close>

definition call_step :: "nat \<Rightarrow> bool \<Rightarrow> channel_sys \<Rightarrow> channel_sys option" where
  "call_step i connects s =
     (let pc = cs_calls s ! i; new = length (cs_handshakes s)
      in case client_next (cs_rotations s) (lock_is_free (cs_calls s) i) connects new (cs_channel s) pc of
           None \<Rightarrow> None
         | Some (pc', ch) \<Rightarrow>
             Some (s\<lparr>cs_channel := ch, cs_calls := (cs_calls s)[i := pc'],
               cs_handshakes := (case pc' of C_Replaced _ _ \<Rightarrow> cs_handshakes s @ [cs_rotations s]
                                 | _ \<Rightarrow> cs_handshakes s)\<rparr>))"

inductive channel_step :: "channel_sys \<Rightarrow> channel_sys \<Rightarrow> bool" where
  rotates: "channel_step s (s\<lparr>cs_rotations := Suc (cs_rotations s)\<rparr>)"
| goes_on: "i < length (cs_calls s) \<Longrightarrow> call_step i connects s = Some s' \<Longrightarrow> channel_step s s'"
| dropped: "i < length (cs_calls s) \<Longrightarrow> awaiting (cs_calls s ! i) \<Longrightarrow>
     channel_step s (s\<lparr>cs_calls := (cs_calls s)[i := C_Idle]\<rparr>)"
| called_again: "i < length (cs_calls s) \<Longrightarrow> returned (cs_calls s ! i) \<Longrightarrow>
     channel_step s (s\<lparr>cs_calls := (cs_calls s)[i := C_Idle]\<rparr>)"

text \<open>A channel made by \<open>new\<close>: connected after \<open>j\<close> rotations, the number read after \<open>k\<close>.\<close>

definition channel_start :: "nat \<Rightarrow> nat \<Rightarrow> nat \<Rightarrow> channel_sys" where
  "channel_start j k n = \<lparr>cs_rotations = k, cs_channel = \<lparr>ic_created_seq = svid_seq k, ic_connection = 0\<rparr>,
     cs_handshakes = [j], cs_calls = replicate n C_Idle\<rparr>"

abbreviation channel_reach :: "channel_sys \<Rightarrow> channel_sys \<Rightarrow> bool" where
  "channel_reach \<equiv> channel_step\<^sup>*\<^sup>*"

section \<open>The invariant\<close>

text \<open>What a call knows: its number is not ahead of the source, and where it read \<open>created_seq\<close> as
  current, or rebuilt, the connection is no older than its number.\<close>

fun call_ok :: "channel_sys \<Rightarrow> client_pc \<Rightarrow> bool" where
  "call_ok s (C_Sampled k) \<longleftrightarrow> k \<le> cs_rotations s"
| "call_ok s (C_Waiting k) \<longleftrightarrow> k \<le> cs_rotations s"
| "call_ok s (C_Locked k) \<longleftrightarrow> k \<le> cs_rotations s"
| "call_ok s (C_Connecting k) \<longleftrightarrow> k \<le> cs_rotations s"
| "call_ok s (C_Replaced k c) \<longleftrightarrow> c = ic_connection (cs_channel s) \<and> k \<le> cs_handshakes s ! c \<and> c < length (cs_handshakes s)"
| "call_ok s (C_Reading k) \<longleftrightarrow> k \<le> cs_handshakes s ! ic_connection (cs_channel s)"
| "call_ok s (C_Done k c) \<longleftrightarrow> k \<le> cs_handshakes s ! c \<and> c < length (cs_handshakes s)"
| "call_ok s _ \<longleftrightarrow> True"

definition channel_inv :: "channel_sys \<Rightarrow> bool" where
  "channel_inv s \<longleftrightarrow>
     ic_connection (cs_channel s) < length (cs_handshakes s) \<and>
     (\<forall>h \<in> set (cs_handshakes s). h \<le> cs_rotations s) \<and>
     (\<exists>k \<le> cs_handshakes s ! ic_connection (cs_channel s). ic_created_seq (cs_channel s) = svid_seq k) \<and>
     (\<forall>pc \<in> set (cs_calls s). call_ok s pc) \<and>
     (\<forall>i < length (cs_calls s). holds_lock (cs_calls s ! i) \<longrightarrow> lock_is_free (cs_calls s) i)"

section \<open>Every step keeps it\<close>

lemma svid_seq_eq: "k < 2 ^ 64 \<Longrightarrow> c < 2 ^ 64 \<Longrightarrow> svid_seq k = svid_seq c \<longleftrightarrow> k = c"
  by (simp add: svid_seq_def word_of_nat_eq_iff take_bit_nat_eq_self)

lemma lock_is_free_other:
  assumes "i < length pcs" and "\<not> holds_lock pc"
  shows "lock_is_free pcs j \<Longrightarrow> lock_is_free (pcs[i := pc]) j"
  using assms by (auto simp: lock_is_free_def nth_list_update)

text \<open>A call that does not gain the lock keeps the exclusion; one that gains it found it free.\<close>

lemma exclusion_update:
  assumes excl: "\<forall>j < length pcs. holds_lock (pcs ! j) \<longrightarrow> lock_is_free pcs j" and i: "i < length pcs"
    and gain: "holds_lock pc \<Longrightarrow> holds_lock (pcs ! i) \<or> lock_is_free pcs i"
  shows "\<forall>j < length (pcs[i := pc]). holds_lock (pcs[i := pc] ! j) \<longrightarrow> lock_is_free (pcs[i := pc]) j"
proof (cases "holds_lock pc")
  case False
  then show ?thesis using excl i by (auto simp: nth_list_update intro: lock_is_free_other)
next
  case True
  then have "lock_is_free pcs i" using gain excl i by blast
  then show ?thesis using i by (auto simp: lock_is_free_def nth_list_update)
qed

text \<open>A step that only lets time pass, or adds a newer connection, keeps what a call knows.\<close>

lemma call_ok_mono:
  assumes "call_ok s pc" and "cs_rotations s \<le> cs_rotations s'"
    and "\<exists>ext. cs_handshakes s' = cs_handshakes s @ ext"
    and "\<not> holds_lock pc \<Longrightarrow> cs_handshakes s ! ic_connection (cs_channel s)
      \<le> cs_handshakes s' ! ic_connection (cs_channel s')"
    and "holds_lock pc \<Longrightarrow> ic_connection (cs_channel s') = ic_connection (cs_channel s)"
  shows "call_ok s' pc"
  using assms by (cases pc) (auto simp: nth_append)

lemma inv_of_parts:
  assumes "ic_connection (cs_channel s) < length (cs_handshakes s)"
    and "\<And>h. h \<in> set (cs_handshakes s) \<Longrightarrow> h \<le> cs_rotations s"
    and "k \<le> cs_handshakes s ! ic_connection (cs_channel s)" and "ic_created_seq (cs_channel s) = svid_seq k"
    and "\<And>i. i < length (cs_calls s) \<Longrightarrow> call_ok s (cs_calls s ! i)"
    and "\<forall>i < length (cs_calls s). holds_lock (cs_calls s ! i) \<longrightarrow> lock_is_free (cs_calls s) i"
  shows "channel_inv s"
  using assms by (auto simp: channel_inv_def in_set_conv_nth)

text \<open>What one step of a call does to the shared state.\<close>

lemma call_step_cases:
  assumes "call_step i connects s = Some s'"
  obtains (quiet) pc where "s' = s\<lparr>cs_calls := (cs_calls s)[i := pc]\<rparr>"
      and "holds_lock pc \<Longrightarrow> holds_lock (cs_calls s ! i) \<or> lock_is_free (cs_calls s) i"
      and "client_next (cs_rotations s) (lock_is_free (cs_calls s) i) connects (length (cs_handshakes s))
        (cs_channel s) (cs_calls s ! i) = Some (pc, cs_channel s)"
      and "\<And>k c. pc \<noteq> C_Replaced k c"
  | (rebuilt) k where "cs_calls s ! i = C_Connecting k"
      and "s' = s\<lparr>cs_channel := (cs_channel s)\<lparr>ic_connection := length (cs_handshakes s)\<rparr>,
        cs_calls := (cs_calls s)[i := C_Replaced k (length (cs_handshakes s))],
        cs_handshakes := cs_handshakes s @ [cs_rotations s]\<rparr>"
  | (stored) k c where "cs_calls s ! i = C_Replaced k c"
      and "s' = s\<lparr>cs_channel := (cs_channel s)\<lparr>ic_created_seq := svid_seq k\<rparr>,
        cs_calls := (cs_calls s)[i := C_Done k c]\<rparr>"
proof (cases "cs_calls s ! i")
  case (C_Connecting k)
  show ?thesis
  proof (cases connects)
    case True
    with assms C_Connecting show ?thesis by (intro rebuilt [of k]) (auto simp: call_step_def Let_def)
  next
    case False
    with assms C_Connecting show ?thesis by (intro quiet [of C_Failed]) (auto simp: call_step_def Let_def)
  qed
next
  case (C_Replaced k c)
  with assms show ?thesis by (intro stored [of k c]) (auto simp: call_step_def Let_def)
qed (use assms in \<open>auto simp: call_step_def Let_def split: if_splits intro!: quiet\<close>)

lemma quiet_call_ok:
  assumes I: "channel_inv s" and "cs_rotations s < 2 ^ 64" and "call_ok s pc"
    and "client_next (cs_rotations s) free connects new (cs_channel s) pc = Some (pc', cs_channel s)"
    and "\<And>k c. pc' \<noteq> C_Replaced k c"
  shows "call_ok s pc'"
proof -
  let ?c = "ic_connection (cs_channel s)"
  have conn: "?c < length (cs_handshakes s)" "cs_handshakes s ! ?c \<le> cs_rotations s"
    using I by (auto simp: channel_inv_def)
  from I obtain m where m: "m \<le> cs_handshakes s ! ?c" "ic_created_seq (cs_channel s) = svid_seq m"
    by (auto simp: channel_inv_def)
  have current: "k \<le> cs_handshakes s ! ?c" if "k \<le> cs_rotations s" "svid_seq k = ic_created_seq (cs_channel s)" for k
    using svid_seq_eq [of k m] that m conn(2) assms(2) by simp
  show ?thesis
    using assms(3-5) conn by (cases pc) (auto simp: current split: if_splits)
qed

lemma channel_inv_kept:
  assumes I: "channel_inv s" and step: "channel_step s s'" and "cs_rotations s' < 2 ^ 64"
  shows "channel_inv s'"
proof -
  let ?c = "ic_connection (cs_channel s)"
  have conn: "?c < length (cs_handshakes s)" and past: "\<And>h. h \<in> set (cs_handshakes s) \<Longrightarrow> h \<le> cs_rotations s"
    and calls: "\<And>i. i < length (cs_calls s) \<Longrightarrow> call_ok s (cs_calls s ! i)"
    and excl: "\<forall>i < length (cs_calls s). holds_lock (cs_calls s ! i) \<longrightarrow> lock_is_free (cs_calls s) i"
    using I by (auto simp: channel_inv_def)
  from I obtain m where m: "m \<le> cs_handshakes s ! ?c" "ic_created_seq (cs_channel s) = svid_seq m"
    by (auto simp: channel_inv_def)
  have stay: "channel_inv (s\<lparr>cs_calls := (cs_calls s)[i := pc]\<rparr>)"
    if "i < length (cs_calls s)" "call_ok s pc" "holds_lock pc \<Longrightarrow> holds_lock (cs_calls s ! i) \<or> lock_is_free (cs_calls s) i"
    for i pc
  proof (rule inv_of_parts [where k = m])
    fix j assume "j < length (cs_calls (s\<lparr>cs_calls := (cs_calls s)[i := pc]\<rparr>))"
    then have "call_ok s ((cs_calls s)[i := pc] ! j)" using calls that(1,2) by (simp add: nth_list_update)
    from call_ok_mono [OF this, of "s\<lparr>cs_calls := (cs_calls s)[i := pc]\<rparr>"]
    show "call_ok (s\<lparr>cs_calls := (cs_calls s)[i := pc]\<rparr>) (cs_calls (s\<lparr>cs_calls := (cs_calls s)[i := pc]\<rparr>) ! j)"
      by simp
  qed (use conn past m exclusion_update [OF excl that(1,3)] in auto)
  show ?thesis
    using step
  proof cases
    case rotates
    show ?thesis unfolding rotates
      by (rule inv_of_parts [where k = m])
        (use conn past m excl calls in \<open>auto intro: le_SucI call_ok_mono [where s = s]\<close>)
  next
    case (goes_on i connects)
    from goes_on(2) show ?thesis
    proof (cases rule: call_step_cases)
      case (quiet pc)
      then have "cs_rotations s < 2 ^ 64" using assms(3) by simp
      from quiet_call_ok [OF I this calls [OF goes_on(1)] quiet(3,4)]
      show ?thesis unfolding quiet(1) by (rule stay [OF goes_on(1) _ quiet(2)])
    next
      case (rebuilt k)
      let ?pcs = "(cs_calls s)[i := C_Replaced k (length (cs_handshakes s))]"
      have free: "lock_is_free (cs_calls s) i" using excl goes_on(1) rebuilt(1) by simp
      have k: "k \<le> cs_rotations s" using calls [OF goes_on(1)] rebuilt(1) by simp
      have others: "call_ok s' (cs_calls s ! j)" if "j < length (cs_calls s)" "j \<noteq> i" for j
        using free that past [OF nth_mem [OF conn]]
        by (intro call_ok_mono [OF calls [OF that(1)]]) (auto simp: lock_is_free_def rebuilt(2) nth_append)
      have excl': "\<forall>j < length ?pcs. holds_lock (?pcs ! j) \<longrightarrow> lock_is_free ?pcs j"
        by (rule exclusion_update [OF excl goes_on(1)]) (simp add: rebuilt(1))
      show ?thesis
      proof (rule inv_of_parts [where k = m])
        fix j assume "j < length (cs_calls s')"
        then show "call_ok s' (cs_calls s' ! j)"
          using others k by (cases "j = i") (auto simp: rebuilt(2) nth_list_update nth_append)
      qed (use past [OF nth_mem [OF conn]] past m excl' in \<open>auto simp: rebuilt(2) nth_append\<close>)
    next
      case (stored k c)
      let ?pcs = "(cs_calls s)[i := C_Done k c]"
      have k: "c = ?c" "k \<le> cs_handshakes s ! c" "c < length (cs_handshakes s)"
        using calls [OF goes_on(1)] unfolding stored(1) call_ok.simps by blast+
      have excl': "\<forall>j < length ?pcs. holds_lock (?pcs ! j) \<longrightarrow> lock_is_free ?pcs j"
        by (rule exclusion_update [OF excl goes_on(1)]) simp
      have others: "call_ok s' (cs_calls s ! j)" if "j < length (cs_calls s)" for j
        by (intro call_ok_mono [OF calls [OF that]]) (auto simp: stored(2))
      show ?thesis
      proof (rule inv_of_parts [where k = k])
        fix j assume "j < length (cs_calls s')"
        then show "call_ok s' (cs_calls s' ! j)"
          using others k by (cases "j = i") (auto simp: stored(2) nth_list_update)
      qed (use k conn past excl' in \<open>auto simp: stored(2)\<close>)
    qed
  next
    case (dropped i)
    show ?thesis unfolding dropped(1) by (rule stay) (use dropped in auto)
  next
    case (called_again i)
    show ?thesis unfolding called_again(1) by (rule stay) (use called_again in auto)
  qed
qed

lemma rotations_forward: "channel_step s s' \<Longrightarrow> cs_rotations s \<le> cs_rotations s'"
  by (induction rule: channel_step.induct) (auto simp: call_step_def Let_def split: option.splits prod.splits)

lemma channel_start_inv: "channel_inv (channel_start k k n)"
  by (auto simp: channel_inv_def channel_start_def)

lemma channel_reach_inv:
  assumes "channel_reach (channel_start k k n) s" and "cs_rotations s < 2 ^ 64"
  shows "channel_inv s"
  using assms
proof (induction rule: rtranclp_induct)
  case base
  show ?case by (rule channel_start_inv)
next
  case (step s s')
  from rotations_forward [OF step.hyps(2)] step.prems have "cs_rotations s < 2 ^ 64" by simp
  from channel_inv_kept [OF step.IH [OF this] step.hyps(2) step.prems] show ?case .
qed

section \<open>What callers get\<close>

text \<open>C22. Rotated certificates take effect: whatever the calls of \<open>client\<close> and the rotations do in
  between, dropped tasks and failed connections included, a call that returns hands out a connection
  made with a certificate at least as new as the one that was current when the call read the sequence
  number, and no two calls rebuild the channel at the same time. The channel is one whose number was
  read before the next rotation, and the numbers have not wrapped.\<close>
theorem channel_never_stale:
  assumes "channel_reach (channel_start k k n) s" and "cs_rotations s < 2 ^ 64"
    and "i < length (cs_calls s)" and "cs_calls s ! i = C_Done j c"
  shows "c < length (cs_handshakes s) \<and> j \<le> cs_handshakes s ! c \<and> cs_handshakes s ! c \<le> cs_rotations s \<and>
    (\<forall>x y. x < length (cs_calls s) \<and> y < length (cs_calls s) \<and>
       holds_lock (cs_calls s ! x) \<and> holds_lock (cs_calls s ! y) \<longrightarrow> x = y)"
proof -
  have I: "channel_inv s" by (rule channel_reach_inv [OF assms(1,2)])
  then have "call_ok s (cs_calls s ! i)" using assms(3) by (auto simp: channel_inv_def)
  then have c: "j \<le> cs_handshakes s ! c" "c < length (cs_handshakes s)" by (simp_all add: assms(4))
  then have "cs_handshakes s ! c \<le> cs_rotations s" using I by (simp add: channel_inv_def)
  moreover have "x = y" if "x < length (cs_calls s)" "y < length (cs_calls s)"
      "holds_lock (cs_calls s ! x)" "holds_lock (cs_calls s ! y)" for x y
    using that I by (auto simp: channel_inv_def lock_is_free_def)
  ultimately show ?thesis using c by blast
qed

text \<open>Schedules, to run the system.\<close>

datatype channel_event = Rotate | Go nat bool | Drop nat | Again nat

fun channel_move :: "channel_event \<Rightarrow> channel_sys \<Rightarrow> channel_sys option" where
  "channel_move Rotate s = Some (s\<lparr>cs_rotations := Suc (cs_rotations s)\<rparr>)"
| "channel_move (Go i connects) s = (if i < length (cs_calls s) then call_step i connects s else None)"
| "channel_move (Drop i) s =
     (if i < length (cs_calls s) \<and> awaiting (cs_calls s ! i)
      then Some (s\<lparr>cs_calls := (cs_calls s)[i := C_Idle]\<rparr>) else None)"
| "channel_move (Again i) s =
     (if i < length (cs_calls s) \<and> returned (cs_calls s ! i)
      then Some (s\<lparr>cs_calls := (cs_calls s)[i := C_Idle]\<rparr>) else None)"

fun channel_moves :: "channel_event list \<Rightarrow> channel_sys \<Rightarrow> channel_sys option" where
  "channel_moves [] s = Some s"
| "channel_moves (m # ms) s = (case channel_move m s of None \<Rightarrow> None | Some s' \<Rightarrow> channel_moves ms s')"

lemma channel_move_step: "channel_move m s = Some s' \<Longrightarrow> channel_step s s'"
  by (cases m) (auto split: if_splits intro: channel_step.intros)

lemma channel_moves_reach: "channel_moves ms s = Some s' \<Longrightarrow> channel_reach s s'"
  by (induction ms s rule: channel_moves.induct)
    (auto split: option.splits dest!: channel_move_step intro: converse_rtranclp_into_rtranclp)

text \<open>Call 0 reads the number after one rotation; after the next one, call 1 rebuilds the channel first.\<close>

definition overtaken :: "channel_event list" where
  "overtaken = [Rotate, Go 0 True, Go 0 True, Rotate, Go 1 True, Go 1 True, Go 1 True, Go 1 True, Go 1 True,
     Go 1 True, Go 0 True, Go 0 True, Go 0 True, Go 0 True]"

lemma overtaken_run:
  "channel_moves overtaken (channel_start 0 0 2) =
     Some \<lparr>cs_rotations = 2, cs_channel = \<lparr>ic_created_seq = 1, ic_connection = 2\<rparr>, cs_handshakes = [0, 2, 2],
       cs_calls = [C_Done 1 2, C_Done 2 1]\<rparr>"
  by (simp add: overtaken_def channel_start_def call_step_def Let_def svid_seq_def lock_is_free_def
      nth_Cons' eval_nat_numeral less_Suc_eq)

text \<open>Both calls return a connection made after the second rotation, but the number stored last is the
  older one: the next call rebuilds the channel once more.\<close>

theorem channel_never_stale_witness:
  "\<exists>s. channel_reach (channel_start 0 0 2) s \<and> cs_calls s = [C_Done 1 2, C_Done 2 1] \<and>
     2 \<le> cs_handshakes s ! 1 \<and> 1 \<le> cs_handshakes s ! 2 \<and> ic_created_seq (cs_channel s) = svid_seq 1"
proof -
  from channel_moves_reach [OF overtaken_run] obtain s where
      s: "channel_reach (channel_start 0 0 2) s" "cs_rotations s = 2" "cs_calls s = [C_Done 1 2, C_Done 2 1]"
      "ic_created_seq (cs_channel s) = 1" by auto
  have "2 \<le> cs_handshakes s ! 1" and "1 \<le> cs_handshakes s ! 2"
    using channel_never_stale [OF s(1), of 1 2 1] channel_never_stale [OF s(1), of 0 1 2]
    by (simp_all add: s(2,3))
  then show ?thesis using s by (auto simp: svid_seq_def)
qed

section \<open>Calls always go on\<close>

text \<open>The holder of the lock never waits, and without a holder nobody does: while a call has not
  returned, a call that has not returned can take a step.\<close>

lemma client_next_holder: "holds_lock pc \<Longrightarrow> client_next rot free connects new ch pc \<noteq> None"
  by (cases pc) auto

lemma client_next_free: "\<not> returned pc \<Longrightarrow> client_next rot True connects new ch pc \<noteq> None"
  by (cases pc) auto

lemma channel_progress:
  assumes "i < length (cs_calls s)" and "\<not> returned (cs_calls s ! i)"
  shows "\<exists>j < length (cs_calls s). \<not> returned (cs_calls s ! j) \<and> call_step j connects s \<noteq> None"
proof -
  have step: "call_step j connects s \<noteq> None"
    if "client_next (cs_rotations s) (lock_is_free (cs_calls s) j) connects (length (cs_handshakes s))
      (cs_channel s) (cs_calls s ! j) \<noteq> None" for j
    using that by (auto simp: call_step_def Let_def)
  show ?thesis
  proof (cases "lock_is_free (cs_calls s) i")
    case True
    then have "client_next (cs_rotations s) (lock_is_free (cs_calls s) i) connects (length (cs_handshakes s))
      (cs_channel s) (cs_calls s ! i) \<noteq> None"
      using client_next_free [OF assms(2)] by simp
    from step [OF this] show ?thesis using assms by blast
  next
    case False
    then obtain j where j: "j < length (cs_calls s)" "holds_lock (cs_calls s ! j)"
      by (auto simp: lock_is_free_def)
    then have "\<not> returned (cs_calls s ! j)" by (cases "cs_calls s ! j") auto
    with step [OF client_next_holder [OF j(2)]] j(1) show ?thesis by blast
  qed
qed

text \<open>A rotation between the connection that \<open>new\<close> makes and its reading of the number goes unnoticed:
  until the next one, every call returns the old connection.\<close>

lemma new_misses_rotation:
  "client_run 6 k connects conn (cs_channel (channel_start j k n)) C_Idle =
     (C_Done k 0, cs_channel (channel_start j k n)) \<and>
   cs_handshakes (channel_start j k n) ! 0 = j"
  by (simp add: channel_start_def eval_nat_numeral)

end
