(* ===== verification/Page_Views.thy ===== *)
theory Page_Views
  imports Web_Pages
begin

text \<open>
  What the web server renders (\<open>services/web/src/components/\<close>, \<open>pages/\<close> and \<open>app.rs\<close>): the \<open>view!\<close>
  markup as trees of elements with their attributes, one function per component and per page. Class
  names pass through \<open>tailwind_fuse::tw_merge!\<close>, a parameter; event listeners are not part of the
  markup and are functions of their own.
\<close>

section \<open>Markup\<close>

type_synonym attributes = "(string \<times> string) list"

datatype node = Txt string | El string attributes "node list"

text \<open>An attribute that may be absent, and one that is present or not.\<close>

definition opt_attr :: "string \<Rightarrow> string option \<Rightarrow> attributes" where
  "opt_attr name value = (case value of Some v \<Rightarrow> [(name, v)] | None \<Rightarrow> [])"

definition flag_attr :: "string \<Rightarrow> bool \<Rightarrow> attributes" where
  "flag_attr name present = (if present then [(name, [])] else [])"

section \<open>Components\<close>

definition cn :: "(string \<Rightarrow> string) \<Rightarrow> string list \<Rightarrow> string" where
  "cn tw_merge classes = tw_merge (join_with CHR '' '' classes)"

subsection \<open>Card\<close>

definition card_view :: "(string \<Rightarrow> string) \<Rightarrow> string \<Rightarrow> node list \<Rightarrow> node" where
  "card_view M class children =
     El ''div'' [(''class'', cn M [''rounded-xl border bg-card text-card-foreground shadow'', class])] children"

definition card_header :: "(string \<Rightarrow> string) \<Rightarrow> string \<Rightarrow> node list \<Rightarrow> node" where
  "card_header M class children = El ''div'' [(''class'', cn M [''flex flex-col space-y-1.5 p-6'', class])] children"

definition card_content :: "(string \<Rightarrow> string) \<Rightarrow> string \<Rightarrow> node list \<Rightarrow> node" where
  "card_content M class children = El ''div'' [(''class'', cn M [''p-6 pt-0'', class])] children"

definition card_footer :: "(string \<Rightarrow> string) \<Rightarrow> string \<Rightarrow> node list \<Rightarrow> node" where
  "card_footer M class children = El ''div'' [(''class'', cn M [''flex items-center p-6 pt-0'', class])] children"

subsection \<open>Label and input\<close>

definition label_view :: "(string \<Rightarrow> string) \<Rightarrow> string option \<Rightarrow> string \<Rightarrow> node list \<Rightarrow> node" where
  "label_view M for_id class children =
     El ''label'' (opt_attr ''for'' for_id @
       [(''class'', cn M [''text-sm font-medium leading-none peer-disabled:cursor-not-allowed peer-disabled:opacity-70'',
          class])]) children"

record input_props =
  ip_id :: "string option"
  ip_name :: "string option"
  ip_type :: "string option"
  ip_placeholder :: "string option"
  ip_class :: string
  ip_invalid :: bool
  ip_error_id :: "string option"
  ip_disabled :: bool
  ip_required :: bool

definition no_input_props :: input_props where
  "no_input_props = \<lparr>ip_id = None, ip_name = None, ip_type = None, ip_placeholder = None, ip_class = [],
     ip_invalid = False, ip_error_id = None, ip_disabled = False, ip_required = False\<rparr>"

definition input_base :: string where
  "input_base = ''flex h-9 w-full rounded-md border border-input bg-transparent px-3 py-1 text-sm shadow-sm transition-colors file:border-0 file:bg-transparent file:text-sm file:font-medium placeholder:text-muted-foreground focus-visible:outline-none focus-visible:ring-1 focus-visible:ring-ring disabled:cursor-not-allowed disabled:opacity-50''"

definition input_view :: "(string \<Rightarrow> string) \<Rightarrow> input_props \<Rightarrow> node" where
  "input_view M p =
     (let classes = (if ip_invalid p
            then cn M [input_base, ''border-destructive focus-visible:ring-destructive'', ip_class p]
            else cn M [input_base, ip_class p]);
          input_type = (case ip_type p of Some t \<Rightarrow> t | None \<Rightarrow> ''text'')
      in El ''input''
           (opt_attr ''id'' (ip_id p) @ opt_attr ''name'' (ip_name p) @ [(''type'', input_type)] @
            opt_attr ''placeholder'' (ip_placeholder p) @ [(''class'', classes)] @
            flag_attr ''disabled'' (ip_disabled p) @ flag_attr ''required'' (ip_required p) @
            opt_attr ''aria-invalid'' (if ip_invalid p then Some ''true'' else None) @
            opt_attr ''aria-describedby'' (if ip_invalid p then ip_error_id p else None)) [])"

text \<open>The listener of \<open>on:input\<close>: the caller's handler, where there is one.\<close>

definition input_event :: "('ev \<Rightarrow> 's \<Rightarrow> 's) option \<Rightarrow> 'ev \<Rightarrow> 's \<Rightarrow> 's" where
  "input_event on_input ev s = (case on_input of Some handler \<Rightarrow> handler ev s | None \<Rightarrow> s)"

subsection \<open>Button and alert\<close>

record button_props =
  bp_variant :: button_variant
  bp_size :: button_size
  bp_disabled :: bool
  bp_class :: string
  bp_type :: "string option"

definition no_button_props :: button_props where
  "no_button_props = \<lparr>bp_variant = Primary_Button, bp_size = Button_Md, bp_disabled = False, bp_class = [],
     bp_type = None\<rparr>"

definition button_base :: string where
  "button_base = ''inline-flex items-center justify-center whitespace-nowrap font-medium transition-colors focus-visible:outline-none focus-visible:ring-1 focus-visible:ring-ring disabled:pointer-events-none disabled:opacity-50''"

definition button_view :: "(string \<Rightarrow> string) \<Rightarrow> button_props \<Rightarrow> node list \<Rightarrow> node" where
  "button_view M p children =
     El ''button''
       ([(''type'', (case bp_type p of Some t \<Rightarrow> t | None \<Rightarrow> ''button'')),
         (''class'', cn M [button_base, button_variant_classes (bp_variant p), button_size_classes (bp_size p), bp_class p])] @
        flag_attr ''disabled'' (bp_disabled p) @
        opt_attr ''aria-disabled'' (if bp_disabled p then Some ''true'' else None)) children"

definition button_click :: "bool \<Rightarrow> ('ev \<Rightarrow> 's \<Rightarrow> 's) option \<Rightarrow> 'ev \<Rightarrow> 's \<Rightarrow> 's" where
  "button_click disabled on_click ev s =
     (if disabled then s else (case on_click of Some handler \<Rightarrow> handler ev s | None \<Rightarrow> s))"

definition alert_view :: "(string \<Rightarrow> string) \<Rightarrow> alert_variant \<Rightarrow> string \<Rightarrow> node list \<Rightarrow> node" where
  "alert_view M variant class children =
     El ''div''
       [(''class'', cn M [''relative w-full rounded-lg border px-4 py-3 text-sm [&>svg+div]:translate-y-[-3px] [&>svg]:absolute [&>svg]:left-4 [&>svg]:top-4 [&>svg~*]:pl-7'',
           alert_classes variant, class]),
        (''role'', alert_role variant)] children"

section \<open>Pages\<close>

text \<open>A page: what \<open><Title>\<close> sets, and its markup.\<close>

record page_view =
  pv_title :: string
  pv_body :: "node list"

definition home_page :: "(string \<Rightarrow> string) \<Rightarrow> page_view" where
  "home_page M = \<lparr>pv_title = ''Home | home.ryanseipp.com'',
     pv_body = [El ''div'' [(''class'', ''flex flex-col justify-center items-center space-y-8 min-h-[80vh]'')]
       [El ''h1'' [(''class'', ''text-4xl font-bold tracking-tight sm:text-6xl'')] [Txt ''Welcome''],
        El ''p'' [(''class'', ''max-w-2xl text-lg text-center text-muted-foreground'')] [Txt ''Your home on the web.''],
        El ''div'' [(''class'', ''flex gap-4'')]
          [El ''a'' [(''href'', ''/sign-up'')] [button_view M no_button_props [Txt ''Sign Up'']],
           El ''a'' [(''href'', ''/login'')]
             [button_view M (no_button_props\<lparr>bp_variant := Outline_Button\<rparr>) [Txt ''Sign In'']]]]]\<rparr>"

definition not_found_page :: "(string \<Rightarrow> string) \<Rightarrow> page_view" where
  "not_found_page M = \<lparr>pv_title = ''Not Found | home.ryanseipp.com'',
     pv_body = [El ''div'' [(''class'', ''flex min-h-[80vh] flex-col items-center justify-center space-y-4'')]
       [El ''h1'' [(''class'', ''text-6xl font-bold'')] [Txt ''404''],
        El ''p'' [(''class'', ''text-lg text-muted-foreground'')] [Txt ''Page not found.''],
        El ''a'' [(''href'', ''/'')]
          [button_view M (no_button_props\<lparr>bp_variant := Outline_Button\<rparr>) [Txt ''Go Home'']]]]\<rparr>"

text \<open>A labelled field of a form, as both forms write it.\<close>

definition form_field :: "(string \<Rightarrow> string) \<Rightarrow> string \<Rightarrow> string \<Rightarrow> string option \<Rightarrow> string \<Rightarrow> node" where
  "form_field M name caption type placeholder =
     El ''div'' [(''class'', ''space-y-2'')]
       [label_view M (Some name) [] [Txt caption],
        input_view M (no_input_props\<lparr>ip_id := Some name, ip_name := Some name, ip_type := type,
          ip_placeholder := Some placeholder, ip_required := True\<rparr>)]"

definition submit_button :: "(string \<Rightarrow> string) \<Rightarrow> string \<Rightarrow> node" where
  "submit_button M caption =
     button_view M (no_button_props\<lparr>bp_type := Some ''submit'', bp_class := ''w-full''\<rparr>) [Txt caption]"

definition login_page :: "(string \<Rightarrow> string) \<Rightarrow> page_view" where
  "login_page M = \<lparr>pv_title = ''Sign In | home.ryanseipp.com'',
     pv_body = [El ''div'' [(''class'', ''flex min-h-[80vh] items-center justify-center'')]
       [card_view M ''w-full max-w-md''
         [card_header M []
           [El ''h1'' [(''class'', ''text-2xl font-semibold tracking-tight'')] [Txt ''Sign In''],
            El ''p'' [(''class'', ''text-sm text-muted-foreground'')]
              [Txt ''Enter your credentials to access your account.'']],
          card_content M []
           [El ''form'' [(''class'', ''space-y-4''), (''method'', ''post''), (''action'', ''/api/v1/login'')]
             [form_field M ''email'' ''Email'' (Some ''email'') ''you@example.com'',
              form_field M ''password'' ''Password'' (Some ''password'') ''Enter your password'',
              submit_button M ''Sign In'']],
          card_footer M []
           [El ''p'' [(''class'', ''text-sm text-muted-foreground'')]
             [Txt (''Don'' @ CHR 0x27 # ''t have an account? ''),
              El ''a'' [(''href'', ''/sign-up''), (''class'', ''underline underline-offset-4 hover:text-primary'')]
                [Txt ''Sign up'']]]]]]\<rparr>"

definition sign_up_page :: "(string \<Rightarrow> string) \<Rightarrow> page_view" where
  "sign_up_page M = \<lparr>pv_title = ''Sign Up | home.ryanseipp.com'',
     pv_body = [El ''div'' [(''class'', ''flex min-h-[80vh] items-center justify-center'')]
       [card_view M ''w-full max-w-md''
         [card_header M []
           [El ''h1'' [(''class'', ''text-2xl font-semibold tracking-tight'')] [Txt ''Create Account''],
            El ''p'' [(''class'', ''text-sm text-muted-foreground'')]
              [Txt ''Enter your details to create a new account.'']],
          card_content M []
           [El ''form'' [(''class'', ''space-y-4''), (''method'', ''post''), (''action'', ''/api/v1/sign-up'')]
             [form_field M ''username'' ''Username'' None ''Choose a username'',
              form_field M ''email'' ''Email'' (Some ''email'') ''you@example.com'',
              form_field M ''password'' ''Password'' (Some ''password'') ''Choose a password'',
              submit_button M ''Create Account'']],
          card_footer M []
           [El ''p'' [(''class'', ''text-sm text-muted-foreground'')]
             [Txt ''Already have an account? '',
              El ''a'' [(''href'', ''/login''), (''class'', ''underline underline-offset-4 hover:text-primary'')]
                [Txt ''Sign in'']]]]]]\<rparr>"

section \<open>The application and the document around it\<close>

fun page_view_of :: "(string \<Rightarrow> string) \<Rightarrow> page \<Rightarrow> page_view" where
  "page_view_of M HomePage = home_page M"
| "page_view_of M LoginPage = login_page M"
| "page_view_of M SignUpPage = sign_up_page M"
| "page_view_of M NotFoundPage = not_found_page M"

text \<open>\<open>App\<close>: the page of the path in \<open>main\<close>; a page's own title replaces the default one.\<close>

definition app_view :: "(string \<Rightarrow> string) \<Rightarrow> string \<Rightarrow> node" where
  "app_view M path =
     El ''main'' [(''class'', ''px-4 mx-auto max-w-7xl sm:px-6 lg:px-8'')] (pv_body (page_view_of M (app_page path)))"

text \<open>What leptos puts into the document: the reload script, the hydration scripts, and the tags that
  \<open>Stylesheet\<close> (its id and address) and \<open>Title\<close> contribute. The document type is not part of the tree.\<close>

record leptos_lib =
  lp_auto_reload :: "node list"
  lp_hydration_scripts :: "node list"
  lp_meta_tags :: "string \<Rightarrow> string \<Rightarrow> string \<Rightarrow> node list"

definition shell :: "leptos_lib \<Rightarrow> (string \<Rightarrow> string) \<Rightarrow> string \<Rightarrow> node" where
  "shell P M path =
     El ''html'' [(''lang'', ''en'')]
       [El ''head'' []
          ([El ''meta'' [(''charset'', ''utf-8'')] [],
            El ''meta'' [(''name'', ''viewport''), (''content'', ''width=device-width, initial-scale=1'')] []] @
           lp_auto_reload P @ lp_hydration_scripts P @
           lp_meta_tags P ''leptos'' ''/pkg/web.css'' (pv_title (page_view_of M (app_page path)))),
        El ''body'' [(''class'', ''min-h-screen antialiased bg-background text-foreground'')] [app_view M path]]"

section \<open>Reading the markup\<close>

text \<open>All elements, in document order.\<close>

fun elements :: "node \<Rightarrow> (string \<times> attributes) list" where
  "elements (Txt s) = []"
| "elements (El tag attrs children) = (tag, attrs) # concat (map elements children)"

definition attr_values :: "string \<Rightarrow> string \<Rightarrow> (string \<times> attributes) list \<Rightarrow> string list" where
  "attr_values tag name es = map (\<lambda>e. the (map_of (snd e) name)) (filter (\<lambda>e. fst e = tag \<and> map_of (snd e) name \<noteq> None) es)"

definition all_ids :: "(string \<times> attributes) list \<Rightarrow> string list" where
  "all_ids es = concat (map (\<lambda>e. case map_of (snd e) ''id'' of Some i \<Rightarrow> [i] | None \<Rightarrow> []) es)"

text \<open>The fields that a browser submits with a form.\<close>

definition inputs_of :: "(string \<times> attributes) list \<Rightarrow> form_input list" where
  "inputs_of es = map (\<lambda>e. \<lparr>fi_name = the (map_of (snd e) ''name''), fi_type = the (map_of (snd e) ''type''),
     fi_required = (map_of (snd e) ''required'' \<noteq> None)\<rparr>)
     (filter (\<lambda>e. fst e = ''input'' \<and> map_of (snd e) ''name'' \<noteq> None) es)"

fun forms_in :: "node \<Rightarrow> page_form list" where
  "forms_in (Txt s) = []"
| "forms_in (El tag attrs children) =
     (if tag = ''form''
      then [\<lparr>pf_method = the (map_of attrs ''method''), pf_action = the (map_of attrs ''action''),
             pf_inputs = inputs_of (concat (map elements children))\<rparr>]
      else concat (map forms_in children))"

text \<open>Markup that a policy without \<open>unsafe-inline\<close> would refuse.\<close>

definition inline_code :: "string \<times> attributes \<Rightarrow> bool" where
  "inline_code e \<longleftrightarrow> fst e \<in> {''script'', ''style''} \<or>
     list_ex (\<lambda>a. fst a = ''style'' \<or> take 2 (fst a) = ''on'') (snd e)"

definition leads_somewhere :: "string \<Rightarrow> bool" where
  "leads_somewhere href \<longleftrightarrow> proxied_path href = None \<and> app_page href \<noteq> NotFoundPage"

definition view_ok :: "page_form option \<Rightarrow> node \<Rightarrow> bool" where
  "view_ok form v \<longleftrightarrow>
     (let es = elements v in
       distinct (all_ids es) \<and>
       attr_values ''label'' ''for'' es = attr_values ''input'' ''id'' es \<and>
       length (filter (\<lambda>e. fst e = ''label'') es) = length (filter (\<lambda>e. fst e = ''input'') es) \<and>
       list_all leads_somewhere (attr_values ''a'' ''href'' es) \<and>
       attr_values ''a'' ''href'' es \<noteq> [] \<and>
       forms_in v = (case form of Some f \<Rightarrow> [f] | None \<Rightarrow> []) \<and>
       length (filter (\<lambda>e. e = ''submit'') (attr_values ''button'' ''type'' es)) = length (forms_in v) \<and>
       length (filter (\<lambda>e. fst e = ''h1'') es) = 1 \<and>
       \<not> list_ex inline_code es)"

section \<open>Every page is sound\<close>

lemma leads: "leads_somewhere ''/sign-up''" "leads_somewhere ''/login''" "leads_somewhere ''/''"
  by (simp_all add: leads_somewhere_def app_page_def proxied_path_def strip_prefix_def)

lemmas views = home_page_def not_found_page_def login_page_def sign_up_page_def button_view_def no_button_props_def
  card_view_def card_header_def card_content_def card_footer_def form_field_def submit_button_def label_view_def
  input_view_def no_input_props_def opt_attr_def flag_attr_def

lemma page_view_ok: "view_ok (form_of pg) (El ''main'' [(''class'', c)] (pv_body (page_view_of M pg)))"
  by (cases pg) (simp_all add: view_ok_def views attr_values_def all_ids_def inputs_of_def inline_code_def Let_def leads
      login_form_def sign_up_form_def input_field_def)

lemma page_titles: "pv_title (page_view_of M p) = pv_title (page_view_of M' q) \<longleftrightarrow> p = q"
  by (cases p; cases q) (simp_all add: home_page_def not_found_page_def login_page_def sign_up_page_def)

text \<open>What the pages render is sound, on every path and whatever the class merger does: ids
  are unique, every input has exactly one label and that label names it, in order; every link leads to a
  page that exists; the forms in the markup are those of the page, each with one submit button; there is
  one main heading, and no inline script or style that the content security policy would refuse. Two
  paths have the same title only where they show the same page.\<close>
lemma rendered_pages_ok:
  "view_ok (form_of (app_page path)) (app_view M path) \<and>
   (pv_title (page_view_of M (app_page path)) = pv_title (page_view_of M (app_page path')) \<longleftrightarrow>
     app_page path = app_page path')"
  unfolding app_view_def by (rule conjI [OF page_view_ok page_titles])

section \<open>The components\<close>

lemma disabled_button: "bp_disabled p \<Longrightarrow> button_click (bp_disabled p) on_click ev s = s"
  by (simp add: button_click_def)

text \<open>Screen readers learn that a field is invalid, and why, exactly where the field is marked invalid.\<close>

lemma map_of_opt_attr: "map_of (opt_attr n v @ r) k = (if n = k \<and> v \<noteq> None then v else map_of r k)"
  by (cases v) (simp_all add: opt_attr_def)

lemma map_of_flag_attr: "map_of (flag_attr n b @ r) k = (if n = k \<and> b then Some [] else map_of r k)"
  by (simp add: flag_attr_def)

lemmas map_of_attrs = map_of_opt_attr map_of_opt_attr [where r = "[]", simplified] map_of_flag_attr

lemma input_attributes:
  assumes "input_view M p = El tag attrs children"
  shows "map_of attrs ''aria-invalid'' = (if ip_invalid p then Some ''true'' else None)"
    and "map_of attrs ''aria-describedby'' = (if ip_invalid p then ip_error_id p else None)"
    and "map_of attrs ''type'' = Some (case ip_type p of Some t \<Rightarrow> t | None \<Rightarrow> ''text'')"
proof -
  have a: "\<exists>classes t. attrs = opt_attr ''id'' (ip_id p) @ opt_attr ''name'' (ip_name p) @ [(''type'', t)] @
      opt_attr ''placeholder'' (ip_placeholder p) @ [(''class'', classes)] @
      flag_attr ''disabled'' (ip_disabled p) @ flag_attr ''required'' (ip_required p) @
      opt_attr ''aria-invalid'' (if ip_invalid p then Some ''true'' else None) @
      opt_attr ''aria-describedby'' (if ip_invalid p then ip_error_id p else None) \<and>
      t = (case ip_type p of Some t \<Rightarrow> t | None \<Rightarrow> ''text'')"
    using assms unfolding input_view_def Let_def node.inject by blast
  show "map_of attrs ''aria-invalid'' = (if ip_invalid p then Some ''true'' else None)"
    and "map_of attrs ''aria-describedby'' = (if ip_invalid p then ip_error_id p else None)"
    and "map_of attrs ''type'' = Some (case ip_type p of Some t \<Rightarrow> t | None \<Rightarrow> ''text'')"
    using a by (auto simp: map_of_attrs simp del: map_of_append)
qed

end
