(* ===== verification/Browser_Session.thy ===== *)
theory Browser_Session
  imports Web_Props Gateway_Props
begin

text \<open>
  A session as a browser sees it, through all three services: the login is posted to the web server,
  which proxies it to the gateway, which asks the identity service and starts a session; the
  cookie comes back the same way, and later requests that carry it are served.
\<close>

section \<open>A request to the web server\<close>

text \<open>What a browser sends below \<open>/api/v1\<close>.\<close>

definition api_request :: "http_method \<Rightarrow> string \<Rightarrow> headers \<Rightarrow> bytes \<Rightarrow> proxy_request" where
  "api_request m path hs body =
     \<lparr>pr_method = m, pr_path = path, pr_query = None, pr_headers = hs, pr_body = Some body\<rparr>"

text \<open>The cookie header of a browser that was given the session cookie with the value \<open>tok\<close>: other
  cookies, whose names do not begin like the session cookie's, may come before and after it.\<close>

definition carries_cookie :: "string \<Rightarrow> headers \<Rightarrow> bool" where
  "carries_cookie tok hs \<longleftrightarrow> (\<exists>pre post lead.
     map_of hs ''cookie'' = Some (join_with CHR '';'' (pre @ [lead @ SESSION_COOKIE @ ''='' @ tok] @ post)) \<and>
     (\<forall>p \<in> set (pre @ post). CHR '';'' \<notin> set p \<and> visible p) \<and> (\<forall>p \<in> set pre. \<not> is_session_pair p) \<and>
     lead \<in> {[], '' ''})"

text \<open>The client library resolves the two URLs that are used.\<close>

definition resolves :: "(string \<Rightarrow> string option) \<Rightarrow> proxy_state \<Rightarrow> bool" where
  "resolves resolve S \<longleftrightarrow> resolve (proxy_url S ''/login'' None) = Some ''/api/v1/login'' \<and>
     resolve (proxy_url S ''/userinfo'' None) = Some ''/api/v1/userinfo''"

lemma overriding_keeps:
  assumes "n \<notin> fst ` set hs"
  shows "(n, v) \<in> set (hp_headers (fold override_header hs r)) \<longleftrightarrow> (n, v) \<in> set (hp_headers r)"
  using assms by (induction hs arbitrary: r) (auto simp: override_header_def)

lemma cookie_passes:
  "(''set-cookie'', v) \<in> set (hp_headers (fold override_header security_headers r)) \<longleftrightarrow>
     (''set-cookie'', v) \<in> set (hp_headers r)"
  "(''set-cookie'', v) \<in> set (hp_headers (passed_on r)) \<longleftrightarrow> (''set-cookie'', v) \<in> set (hp_headers r)"
proof -
  show "(''set-cookie'', v) \<in> set (hp_headers (fold override_header security_headers r)) \<longleftrightarrow>
     (''set-cookie'', v) \<in> set (hp_headers r)"
    by (rule overriding_keeps) (simp add: security_headers_def)
  have "''set-cookie'' \<notin> fst ` set web_security_headers" by (simp add: web_security_headers_def)
  moreover have "\<not> is_hop_by_hop_response ''set-cookie''" by (simp add: is_hop_by_hop_response_def)
  ultimately show "(''set-cookie'', v) \<in> set (hp_headers (passed_on r)) \<longleftrightarrow> (''set-cookie'', v) \<in> set (hp_headers r)"
    by (simp add: passed_on_def overriding_keeps relayed_def append_headers_simps)
qed

lemma error_response_not_200: "hp_status (error_response e) \<noteq> 200"
  by (cases e) (auto simp: error_response_def plain_def split: grpc_code.splits)

section \<open>The login\<close>

lemma router_login_200:
  assumes "router D B True \<lparr>hr_method = POST, hr_path = ''/api/v1/login'', hr_headers = hs, hr_body = body\<rparr> g = (Inr r, g')"
    and "hp_status r = 200" and "bl_login B body = Inr b"
  obtains resp where "login_handler D b g = (Inr resp, g')" "r = fold override_header security_headers resp"
proof -
  let ?rq = "\<lparr>hr_method = POST, hr_path = ''/api/v1/login'', hr_headers = hs, hr_body = body\<rparr>"
  obtain r1 where r1: "respond (run_endpoint D B Ep_Login ?rq) g = (Inr r1, g')" "r = fold override_header security_headers r1"
    using assms(1)
    by (auto simp: router_def dispatch_def find_route_def routes_def method_allowed_def andThen_Inr_iff ret_def)
  have s: "hp_status r1 = 200" using assms(2) r1(2) by simp
  from r1(1) s have "login_handler D b g = (Inr r1, g')"
    using assms(3) error_response_not_200
    by (auto simp: respond_def with_body_def ret_def plain_def split: prod.splits sum.splits exit.splits if_splits)
  with that r1(2) show thesis by blast
qed

text \<open>What a successful login stored and sent, in terms of the session's token.\<close>

lemma login_handler_cookie:
  assumes "login_handler D b g = (Inr resp, g')"
  obtains tok h ex rnd where "generate_session_token (l_b64 (dp_libs D)) (l_sha256 (dp_libs D)) rnd = Inr (tok, h)"
    "\<And>v. (''set-cookie'', v) \<in> set (hp_headers resp) \<longleftrightarrow> v = set_session_cookie tok"
    "hp_status resp = 200" "hp_body resp = Expires_At_Json ex"
proof -
  from assms obtain ga lr where "start_session D lr ga = (Inr resp, g')" by (rule login_handler_Inr)
  then show thesis by (rule start_session_Inr) (rule that, auto simp: append_headers_simps plain_def)
qed

section \<open>From login to profile, through the web server\<close>

text \<open>C5. A browser logs in through the web server: where posting email and password is answered with
  200, the answer sets a cookie and tells when the access token expires; and a later request for the
  profile through the web server that carries that cookie, among others, is answered, while the
  token is valid and the session's row is there, with the profile of the very account whose email
  and password were given, which was active.\<close>
theorem browser_session:
  assumes libs: "libs_ok (dp_libs D)" "http_ok (l_json (dp_libs D)) (dp_http D)"
    and calm: "gcalm (dp_genv D)" "calm (dp_env D)" and I: "inv (dp_libs D) (w_db (gw_identity g))"
    and keys: "\<forall>r \<in> set (signing_keys (w_db (gw_identity g))). key_row_ok (dp_libs D) (is_kek (dp_service D)) r"
    and web: "content_type_only B" "\<forall>h \<in> set extra. fst h \<notin> {''cookie'', ''content-type''}" "resolves resolve S"
    and login: "web_router H S (to_gateway D B True resolve extra) pages ip (api_request POST ''/api/v1/login'' hs body) g =
        (r1, g1)" "hp_status r1 = 200" "length body \<le> MAX_BODY_SIZE" "bl_login B body = Inr b"
    and later: "gw_sessions g2 = gw_sessions g1" "w_db (gw_identity g2) = w_db (gw_identity g1)"
    and ttl: "\<forall>t t'. ge_scylla_now (dp_genv D) t < ge_scylla_now (dp_genv D) t' + seconds DEFAULT_TIME_TO_LIVE"
    and now: "e_unix_time (dp_env D) (w_tick (gw_identity g2) + 2) = Some n"
  shows "\<exists>tok ex. (''set-cookie'', set_session_cookie tok) \<in> set (hp_headers r1) \<and> hp_body r1 = Expires_At_Json ex \<and>
    (\<forall>hs2. carries_cookie tok hs2 \<and> 900 \<le> ex \<and> ex < 2 ^ 63 \<and> ex - 930 \<le> int (unat n) \<and> int (unat n) \<le> ex + 30 \<longrightarrow>
      (\<exists>u r2 g3. email_owner (l_lower (dp_libs D)) (w_db (gw_identity g)) (lb_email b) = Some u \<and>
        u_status u = user_status_as_str Active \<and>
        verify_password (l_password (dp_libs D)) (l_feature (dp_libs D)) (lb_password b) (u_password_hash u) = Inr () \<and>
        web_router H S (to_gateway D B True resolve extra) pages ip (api_request GET ''/api/v1/userinfo'' hs2 []) g2 =
          (r2, g3) \<and> hp_status r2 = 200 \<and> hp_body r2 = User_Info_Json (profile_of (dp_libs D) u)))"
proof -
  have paths: "proxied_path ''/api/v1/login'' = Some ''/login''" "proxied_path ''/api/v1/userinfo'' = Some ''/userinfo''"
    by (simp_all add: proxied_path_def strip_prefix_def)
  note urls = web(3) [unfolded resolves_def]
  note through = web_is_gateway [where H = H and S = S and D = D and B = B and b = True and ip = ip and extra = extra
      and resolve = resolve and pages = pages and q = None, OF web(1,2), folded api_request_def]
  let ?rq = "\<lparr>hr_method = POST, hr_path = ''/api/v1/login'', hr_headers = hs, hr_body = body\<rparr>"
  have "(case router D B True ?rq g of (Inr r, g') \<Rightarrow> (passed_on r, g') | (Inl _, g') \<Rightarrow> (bad_gateway, g')) = (r1, g1)"
    using through [OF paths(1) conjunct1 [OF urls] login(3), of POST hs g] login(1) by simp
  then obtain r where r: "router D B True ?rq g = (Inr r, g1)" "r1 = passed_on r"
    using login(2) by (auto simp: bad_gateway_def plain_def split: prod.splits sum.splits)
  then have "hp_status r = 200" using login(2) by (simp add: passed_on_simps)
  from router_login_200 [OF r(1) this login(4)] obtain resp where
      resp: "login_handler D b g = (Inr resp, g1)" "r = fold override_header security_headers resp" .
  from resp(1) obtain tok h ex rnd where
      tok: "generate_session_token (l_b64 (dp_libs D)) (l_sha256 (dp_libs D)) rnd = Inr (tok, h)"
    and sets: "\<And>v. (''set-cookie'', v) \<in> set (hp_headers resp) \<longleftrightarrow> v = set_session_cookie tok"
    and ex: "hp_body resp = Expires_At_Json ex"
    by (rule login_handler_cookie) blast
  have cookie: "(''set-cookie'', set_session_cookie tok) \<in> set (hp_headers resp)" "hp_body resp = Expires_At_Json ex"
    using sets ex by simp_all
  have "\<exists>u r2 g3. email_owner (l_lower (dp_libs D)) (w_db (gw_identity g)) (lb_email b) = Some u \<and>
        u_status u = user_status_as_str Active \<and>
        verify_password (l_password (dp_libs D)) (l_feature (dp_libs D)) (lb_password b) (u_password_hash u) = Inr () \<and>
        web_router H S (to_gateway D B True resolve extra) pages ip (api_request GET ''/api/v1/userinfo'' hs2 []) g2 =
          (r2, g3) \<and> hp_status r2 = 200 \<and> hp_body r2 = User_Info_Json (profile_of (dp_libs D) u)"
    if c: "carries_cookie tok hs2" and ex: "900 \<le> ex" "ex < 2 ^ 63" "ex - 930 \<le> int (unat n)" "int (unat n) \<le> ex + 30" for hs2
  proof -
    let ?get = "\<lparr>hr_method = GET, hr_path = ''/api/v1/userinfo'', hr_headers = hs2, hr_body = []\<rparr>"
    have found: "extract_session_cookie (dp_http D) (hr_headers ?get) = Inr tok"
      using c session_cookie_roundtrip [OF libs(2) libs_okD(1) [OF libs(1)] tok] by (auto simp: carries_cookie_def)
    have "hr_method ?get = GET" "hr_path ?get = ''/api/v1/userinfo''" by simp_all
    from gateway_profile_after_login [where B = B, OF libs calm I keys resp(1) cookie later ttl this found now ex] obtain u r2 g3 where
        u: "email_owner (l_lower (dp_libs D)) (w_db (gw_identity g)) (lb_email b) = Some u"
        "u_status u = user_status_as_str Active"
        "verify_password (l_password (dp_libs D)) (l_feature (dp_libs D)) (lb_password b) (u_password_hash u) = Inr ()"
      and r2: "router D B True ?get g2 = (Inr r2, g3)" "hp_status r2 = 200"
        "hp_body r2 = User_Info_Json (profile_of (dp_libs D) u)" by blast
    have "web_router H S (to_gateway D B True resolve extra) pages ip (api_request GET ''/api/v1/userinfo'' hs2 []) g2 =
        (passed_on r2, g3)"
      using through [OF paths(2) conjunct2 [OF urls], of "[]" GET hs2 g2] r2(1) by simp
    with u r2 show ?thesis by (intro exI conjI) (assumption+, simp_all add: passed_on_simps)
  qed
  then show ?thesis using cookie r(2) resp(2)
    by (intro exI [of _ tok] exI [of _ ex]) (simp add: cookie_passes passed_on_simps)
qed

theorem browser_session_witness:
  "\<exists>r1 g1 r2 g3. web_router sample_http (api_proxy ''http://g'') (to_gateway sample_deployment sample_body_lib True sample_resolve [])
       (\<lambda>_ g. (plain 200 No_Body, g)) ''10.0.0.1'' (api_request POST ''/api/v1/login'' [] []) sample_gateway = (r1, g1) \<and>
     hp_status r1 = 200 \<and>
     web_router sample_http (api_proxy ''http://g'') (to_gateway sample_deployment sample_body_lib True sample_resolve [])
       (\<lambda>_ g. (plain 200 No_Body, g)) ''10.0.0.1'' (api_request GET ''/api/v1/userinfo'' sample_cookie_header []) g1 = (r2, g3) \<and>
     hp_status r2 = 200 \<and> hp_body r2 = User_Info_Json (profile_of login_libs sample_user)"
proof -
  let ?D = sample_deployment and ?b = "\<lparr>lb_email = ''a@b.c'', lb_password = ''password''\<rparr>"
  let ?send = "to_gateway ?D sample_body_lib True sample_resolve []" and ?S = "api_proxy ''http://g''"
    and ?pages = "\<lambda>_ g. (plain 200 No_Body, g) :: http_response \<times> gateway"
  obtain resp g1 where l: "login_handler ?D ?b sample_gateway = (Inr resp, g1)"
    "(''set-cookie'', set_session_cookie sample_cookie_value) \<in> set (hp_headers resp)" "hp_body resp = Expires_At_Json 1500"
    using sample_login_handler by blast
  have sets: "hp_status resp = 200"
    "(''set-cookie'', set_session_cookie tok) \<in> set (hp_headers resp) \<Longrightarrow> tok = sample_cookie_value" for tok
    by (rule login_handler_cookie [OF l(1)], simp) (rule login_handler_cookie [OF l(1)], use l(2) in \<open>simp add: set_session_cookie_eq_iff\<close>)
  have web: "content_type_only sample_body_lib" "\<forall>h \<in> set ([] :: headers). fst h \<notin> {''cookie'', ''content-type''}"
    "resolves sample_resolve ?S" "length ([] :: bytes) \<le> MAX_BODY_SIZE"
    by (simp_all add: content_type_only_def sample_body_lib_def resolves_def sample_resolve_def proxy_url_def
        api_proxy_def strip_prefix_def)
  have "router ?D sample_body_lib True \<lparr>hr_method = POST, hr_path = ''/api/v1/login'', hr_headers = [], hr_body = []\<rparr>
      sample_gateway = (Inr (fold override_header security_headers resp), g1)"
    by (rule router_Inr [of _ _ POST Ep_Login])
      (simp_all add: find_route_def routes_def with_body_def sample_body_lib_def l(1))
  then obtain r1 where r1': "r1 = passed_on (fold override_header security_headers resp)"
    and r1: "web_router sample_http ?S ?send ?pages ''10.0.0.1'' (api_request POST ''/api/v1/login'' [] []) sample_gateway = (r1, g1)"
    "hp_status r1 = 200"
    using web_is_gateway [where H = sample_http and S = ?S and D = ?D and B = sample_body_lib and b = True and ip = "''10.0.0.1''"
        and extra = "[]" and resolve = sample_resolve and pages = ?pages and q = None and path = "''/api/v1/login''"
        and rest = "''/login''" and body = "[]" and hs = "[]" and m = POST and g = sample_gateway, OF web(1,2)] web(3,4) sets(1)
    by (simp add: resolves_def api_request_def proxied_path_def strip_prefix_def passed_on_simps)
  have login: "bl_login sample_body_lib [] = Inr ?b" by (simp add: sample_body_lib_def)
  have carried: "carries_cookie sample_cookie_value sample_cookie_header"
    unfolding carries_cookie_def sample_cookie_header_def
    by (intro exI [of _ "[''theme=dark'']"] exI [of _ "[]"] exI [of _ "'' ''"]) (simp add: sample_other_cookie)
  let ?Q = "\<lambda>hs2. \<exists>u r2 g3. email_owner (l_lower (dp_libs ?D)) (w_db (gw_identity sample_gateway)) (lb_email ?b) = Some u \<and>
        u_status u = user_status_as_str Active \<and>
        verify_password (l_password (dp_libs ?D)) (l_feature (dp_libs ?D)) (lb_password ?b) (u_password_hash u) = Inr () \<and>
        web_router sample_http ?S ?send ?pages ''10.0.0.1'' (api_request GET ''/api/v1/userinfo'' hs2 []) g1 =
          (r2, g3) \<and> hp_status r2 = 200 \<and> hp_body r2 = User_Info_Json (profile_of (dp_libs ?D) u)"
  have "\<exists>tok ex. (''set-cookie'', set_session_cookie tok) \<in> set (hp_headers r1) \<and> hp_body r1 = Expires_At_Json ex \<and>
    (\<forall>hs2. carries_cookie tok hs2 \<and> 900 \<le> ex \<and> ex < 2 ^ 63 \<and> ex - 930 \<le> int (unat (700 :: u64)) \<and>
      int (unat (700 :: u64)) \<le> ex + 30 \<longrightarrow> ?Q hs2)"
    by (rule browser_session [OF _ _ _ _ _ _ web(1-3) r1 web(4) login refl refl])
      (simp_all add: sample_libs_ok sample_http_ok sample_genv_calm sample_env_calm sample_db_inv
        sample_gateway_def,
       simp_all add: sample_db_def sample_key_row_ok minutes_def seconds_def one_second_def DEFAULT_TIME_TO_LIVE_def)
  then obtain tok ex where tok: "(''set-cookie'', set_session_cookie tok) \<in> set (hp_headers r1)" "hp_body r1 = Expires_At_Json ex"
    and served: "\<forall>hs2. carries_cookie tok hs2 \<and> 900 \<le> ex \<and> ex < 2 ^ 63 \<and> ex - 930 \<le> int (unat (700 :: u64)) \<and>
      int (unat (700 :: u64)) \<le> ex + 30 \<longrightarrow> ?Q hs2" by blast
  have "tok = sample_cookie_value" "ex = 1500"
    using tok sets(2) l(3) by (simp_all add: r1' cookie_passes passed_on_simps)
  then have "?Q sample_cookie_header" using served carried by simp
  then have "\<exists>r2 g3. web_router sample_http ?S ?send ?pages ''10.0.0.1''
      (api_request GET ''/api/v1/userinfo'' sample_cookie_header []) g1 = (r2, g3) \<and> hp_status r2 = 200 \<and>
      hp_body r2 = User_Info_Json (profile_of login_libs sample_user)"
    by (auto simp: sample_gateway_def sample_owner)
  with r1 show ?thesis by blast
qed

end
