(* ===== verification/Mailed_Accounts.thy ===== *)
theory Mailed_Accounts
  imports No_Panic Sample_Identity
begin

text \<open>
  What the identity service as a whole promises about its accounts: every verification token that it
  holds was put into a mail to the address of its account, and an account counts as verified only
  if such a token of its own was used. Sign-up, verification and resending each keep this in one
  transaction; the other operations do not touch what it speaks of.
\<close>

section \<open>The invariant\<close>

text \<open>An event of the outbox mails the token to the account's address.\<close>

definition mailed_to :: "'kp libs \<Rightarrow> string \<Rightarrow> db \<Rightarrow> user_row \<Rightarrow> token_row \<Rightarrow> bool" where
  "mailed_to L url d u t \<longleftrightarrow> (\<exists>e \<in> set (outbox d). ob_aggregate_id e = u_id u \<and> ob_event_type e = ''auth_email'' \<and>
     (\<exists>name. mails_token L url (ob_id e) (u_email u) name (t_token_hash t) (ob_payload e)))"

definition accounts_ok :: "'kp libs \<Rightarrow> string \<Rightarrow> db \<Rightarrow> bool" where
  "accounts_ok L url d \<longleftrightarrow>
     (\<forall>t \<in> set (tokens d). \<exists>u \<in> set (users d). u_id u = t_user_id t \<and> mailed_to L url d u t) \<and>
     (\<forall>u \<in> set (users d).
        (u_email_verified u \<longrightarrow> (\<exists>t \<in> set (tokens d). t_user_id t = u_id u \<and> t_consumed_at t \<noteq> None)) \<and>
        (u_status u = ''active'' \<longrightarrow> u_email_verified u) \<and>
        (u_status u = ''pending_verification'' \<longrightarrow> \<not> u_email_verified u))"

definition accounts_inv :: "'kp libs \<Rightarrow> string \<Rightarrow> db \<Rightarrow> bool" where
  "accounts_inv L url d \<longleftrightarrow> inv L d \<and> accounts_ok L url d"

text \<open>Other clients keep it, and neither remove an account nor change its address.\<close>

definition addresses_stay :: "env \<Rightarrow> bool" where
  "addresses_stay V \<longleftrightarrow> (\<forall>t d. \<forall>u \<in> set (users d). \<exists>u' \<in> set (users (e_others V t d)). u_id u' = u_id u \<and> u_email u' = u_email u)"

definition mail_env :: "'kp libs \<Rightarrow> identity_service \<Rightarrow> env \<Rightarrow> bool" where
  "mail_env L S V \<longleftrightarrow> env_keeps (accounts_inv L (is_web_base_url S)) V \<and> env_keeps (inv L) V \<and> addresses_stay V"

section \<open>Operations on other data\<close>

definition same_account :: "user_row \<Rightarrow> user_row \<Rightarrow> bool" where
  "same_account u u' \<longleftrightarrow> u_id u' = u_id u \<and> u_email u' = u_email u \<and> u_status u' = u_status u \<and>
     u_email_verified u' = u_email_verified u"

lemma same_account_refl [simp]: "same_account u u"
  by (simp add: same_account_def)

lemma mailed_to_mono:
  assumes "mailed_to L url d u t" and "set (outbox d) \<subseteq> set (outbox d')" and "u_id u' = u_id u"
    and "u_email u' = u_email u" and "t_token_hash t' = t_token_hash t"
  shows "mailed_to L url d' u' t'"
  using assms by (fastforce simp: mailed_to_def)

lemma accounts_ok_mono:
  assumes "accounts_ok L url d" and "tokens d' = tokens d" and "set (outbox d) \<subseteq> set (outbox d')"
    and "\<And>u. u \<in> set (users d) \<Longrightarrow> \<exists>u' \<in> set (users d'). same_account u u'"
    and "\<And>u'. u' \<in> set (users d') \<Longrightarrow> \<exists>u \<in> set (users d). same_account u u'"
  shows "accounts_ok L url d'"
  unfolding accounts_ok_def
proof (intro conjI ballI)
  fix t assume "t \<in> set (tokens d')"
  then obtain u where u: "u \<in> set (users d)" "u_id u = t_user_id t" "mailed_to L url d u t"
    using assms(1,2) by (auto simp: accounts_ok_def)
  from assms(4) [OF u(1)] obtain u' where "u' \<in> set (users d')" "same_account u u'" by blast
  then show "\<exists>u' \<in> set (users d'). u_id u' = t_user_id t \<and> mailed_to L url d' u' t"
    using u(2) mailed_to_mono [OF u(3) assms(3)] by (auto simp: same_account_def)
next
  fix u' assume "u' \<in> set (users d')"
  with assms(5) obtain u where "u \<in> set (users d)" "same_account u u'" by blast
  then show "u_email_verified u' \<longrightarrow> (\<exists>t \<in> set (tokens d'). t_user_id t = u_id u' \<and> t_consumed_at t \<noteq> None)"
    "u_status u' = ''active'' \<longrightarrow> u_email_verified u'"
    "u_status u' = ''pending_verification'' \<longrightarrow> \<not> u_email_verified u'"
    using assms(1,2) by (auto simp: accounts_ok_def same_account_def)
qed

lemma accounts_ok_update_user:
  assumes "accounts_ok L url d" and "\<And>u. same_account u (f u)"
  shows "accounts_ok L url (d\<lparr>users := update_where P f (users d)\<rparr>)"
proof (rule accounts_ok_mono [OF assms(1)])
  fix u assume "u \<in> set (users d)"
  then show "\<exists>u' \<in> set (users (d\<lparr>users := update_where P f (users d)\<rparr>)). same_account u u'"
    using assms(2) by (intro bexI [of _ "if P u then f u else u"]) (auto simp: update_where_def)
next
  fix u' assume "u' \<in> set (users (d\<lparr>users := update_where P f (users d)\<rparr>))"
  then show "\<exists>u \<in> set (users d). same_account u u'"
    using assms(2) by (auto simp: update_where_def intro: bexI [of _ u'])
qed simp_all

lemma keeps_accounts_inv:
  assumes "sql_keeps (inv L) s"
    and "\<And>now d a d'. accounts_ok L url d \<Longrightarrow> s now d = Inr (a, d') \<Longrightarrow> accounts_ok L url d'"
  shows "sql_keeps (accounts_inv L url) s"
  using assms unfolding accounts_inv_def sql_keeps_def by blast

interpretation mail_kept: account_invariant L "accounts_inv L url" for L :: "'kp libs" and url
proof (unfold_locales, goal_cases)
  case (1 i u h e)
  show ?case
    by (rule keeps_accounts_inv [OF sql_insert_refresh_token_keeps])
      (auto simp: sql_insert_refresh_token_def Let_def elim!: accounts_ok_mono intro: same_account_refl)
next
  case (2 i at ai p tr sp)
  show ?case
    by (rule keeps_accounts_inv [OF sql_insert_event_keeps])
      (auto simp: sql_insert_event_def Let_def elim!: accounts_ok_mono intro: same_account_refl)
next
  case (3 k a en j)
  show ?case
    by (rule keeps_accounts_inv [OF sql_insert_signing_key_keeps])
      (auto simp: sql_insert_signing_key_def Let_def elim!: accounts_ok_mono intro: same_account_refl)
next
  case (4 i ph)
  show ?case
    by (rule keeps_accounts_inv [OF sql_update_password_keeps])
      (auto simp: sql_update_password_def Let_def same_account_def intro: accounts_ok_update_user)
next
  case (5 i gn fn un)
  show ?case
    by (rule keeps_accounts_inv [OF sql_update_profile_keeps])
      (auto simp: sql_update_profile_def Let_def same_account_def intro: accounts_ok_update_user)
qed

section \<open>Registration\<close>

lemma accounts_ok_add_token:
  assumes "accounts_ok L url d" and "u \<in> set (users d @ us)" and "u_id u = uid" and "mails_token L url oid (u_email u) name h payload"
    and "\<And>v. v \<in> set us \<Longrightarrow> \<not> u_email_verified v \<and> u_status v = ''pending_verification''"
  shows "accounts_ok L url (add_rows us [new_token tid uid h expires now] [new_event oid uid payload tr sp now] d)"
proof -
  let ?d = "add_rows us [new_token tid uid h expires now] [new_event oid uid payload tr sp now] d"
  have "mailed_to L url ?d u (new_token tid uid h expires now)"
    using assms(3,4) by (auto simp: mailed_to_def new_event_def new_token_def)
  moreover have "mailed_to L url ?d v t" if "mailed_to L url d v t" for v t
    by (rule mailed_to_mono [OF that]) auto
  ultimately show ?thesis
    using assms(1-3,5) by (fastforce simp: accounts_ok_def new_token_def)
qed

lemma accounts_ok_verified:
  assumes "accounts_ok L url d" and "usable tk h utc d"
  shows "accounts_ok L url (verified tk now d)"
proof -
  have mailed: "mailed_to L url (verified tk now d) u' t'"
    if "mailed_to L url d u t" "u_id u' = u_id u" "u_email u' = u_email u" "t_token_hash t' = t_token_hash t" for u u' t t'
    by (rule mailed_to_mono [OF that(1)]) (simp_all add: verified_def that)
  let ?f = "\<lambda>u. if u_id u = t_user_id tk \<and> live u then activate_row now u else u"
  let ?g = "\<lambda>t. if t = tk then consume_row now t else t"
  have f: "u_id (?f u) = u_id u" "u_email (?f u) = u_email u" for u by (simp_all add: activate_row_def)
  have g: "t_user_id (?g t) = t_user_id t" "t_token_hash (?g t) = t_token_hash t"
    "t_consumed_at t \<noteq> None \<Longrightarrow> t_consumed_at (?g t) \<noteq> None" for t by (simp_all add: consume_row_def)
  have sets: "set (users (verified tk now d)) = ?f ` set (users d)" "set (tokens (verified tk now d)) = ?g ` set (tokens d)"
    by (simp_all add: verified_def)
  show ?thesis
    unfolding accounts_ok_def sets ball_simps
  proof (intro conjI ballI)
    fix t assume "t \<in> set (tokens d)"
    then obtain u where u: "u \<in> set (users d)" "u_id u = t_user_id t" "mailed_to L url d u t"
      using assms(1) by (auto simp: accounts_ok_def)
    have "mailed_to L url (verified tk now d) (?f u) (?g t)" by (rule mailed [OF u(3) f g(2)])
    moreover have "u_id (?f u) = t_user_id (?g t)" by (rule trans [OF trans [OF f(1) u(2)] g(1) [symmetric]])
    moreover have "?f u \<in> ?f ` set (users d)" using u(1) by (rule imageI)
    ultimately show "\<exists>u' \<in> ?f ` set (users d). u_id u' = t_user_id (?g t) \<and> mailed_to L url (verified tk now d) u' (?g t)"
      by blast
  next
    fix u assume u: "u \<in> set (users d)"
    show "u_email_verified (?f u) \<longrightarrow> (\<exists>t' \<in> ?g ` set (tokens d). t_user_id t' = u_id (?f u) \<and> t_consumed_at t' \<noteq> None)"
    proof (cases "u_id u = t_user_id tk \<and> live u")
      case True
      then show ?thesis
        using assms(2) by (auto simp: usable_def consume_row_def activate_row_def intro!: bexI [of _ tk])
    next
      case False
      then have "?f u = u" by (rule if_not_P)
      show ?thesis unfolding \<open>?f u = u\<close>
      proof
        assume "u_email_verified u"
        then obtain t where "t \<in> set (tokens d)" "t_user_id t = u_id u" "t_consumed_at t \<noteq> None"
          using assms(1) u by (auto simp: accounts_ok_def)
        then show "\<exists>t' \<in> ?g ` set (tokens d). t_user_id t' = u_id u \<and> t_consumed_at t' \<noteq> None"
          using g(1) [of t] by (intro bexI [of _ "?g t"] conjI imageI g(3)) simp_all
      qed
    qed
    show "u_status (?f u) = ''active'' \<longrightarrow> u_email_verified (?f u)"
      "u_status (?f u) = ''pending_verification'' \<longrightarrow> \<not> u_email_verified (?f u)"
      using assms(1) u by (auto simp: accounts_ok_def activate_row_def)
  qed
qed

lemma accounts_inv_others:
  "env_keeps (accounts_inv L url) V \<Longrightarrow> accounts_inv L url d \<Longrightarrow> accounts_inv L url (e_others V t d)"
  by (simp add: env_keeps_def)

lemma keeps_sign_up_mailed:
  assumes "env_keeps (accounts_inv L url) V" and "env_keeps (inv L) V"
  shows "io_keeps (accounts_inv L url) (sign_up L V un em gn fn pw url)"
proof (rule io_keepsI)
  fix w r w' assume I: "accounts_inv L url (w_db w)" and s: "sign_up L V un em gn fn pw url w = (r, w')"
  note others = accounts_inv_others [OF assms(1) I]
  have inv: "inv L (w_db w')"
    using io_keepsD [OF constraints_kept.keeps_sign_up [OF assms(2)] _ s] I by (simp add: accounts_inv_def)
  from sign_up_result [OF s] consider "w_db w' = w_db w" | t where "w_db w' = e_others V t (w_db w)"
    | t where "registered L V un em gn fn pw url (e_others V t (w_db w)) (w_db w')" by blast
  then show "accounts_inv L url (w_db w')"
  proof cases
    case 3
    then obtain uid ph tid h oid payload tr sp t1 now where
        mail: "mails_token L url oid em (gn @ '' '' @ fn) h payload"
      and w': "w_db w' = add_rows [new_user uid un em gn fn ph now] [new_token tid uid h (e_utc V t1 + minutes 60) now]
        [new_event oid uid payload tr sp now] (e_others V t (w_db w))"
      by (auto simp: registered_def)
    have "accounts_ok L url (w_db w')"
      unfolding w' by (rule accounts_ok_add_token [where u = "new_user uid un em gn fn ph now"])
        (use others mail in \<open>auto simp: accounts_inv_def new_user_def\<close>)
    with inv show ?thesis by (simp add: accounts_inv_def)
  qed (use I others in simp_all)
qed

lemma keeps_verify_email_mailed:
  assumes "env_keeps (accounts_inv L url) V" and "env_keeps (inv L) V"
  shows "io_keeps (accounts_inv L url) (verify_email L V tok)"
proof (rule io_keepsI)
  fix w r w' assume I: "accounts_inv L url (w_db w)" and v: "verify_email L V tok w = (r, w')"
  note others = accounts_inv_others [OF assms(1) I]
  have inv: "inv L (w_db w')"
    using io_keepsD [OF constraints_kept.keeps_verify_email [OF assms(2)] _ v] I by (simp add: accounts_inv_def)
  have "inv L (w_db w)" using I by (simp add: accounts_inv_def)
  from verify_email_result [OF assms(2) this v] consider "w_db w' = w_db w" | t where "w_db w' = e_others V t (w_db w)"
    | t h tk utc now where "usable tk h utc (e_others V t (w_db w))" "w_db w' = verified tk now (e_others V t (w_db w))"
    by blast
  then show "accounts_inv L url (w_db w')"
  proof cases
    case (3 t h tk utc now)
    have "accounts_ok L url (e_others V t (w_db w))" using others by (simp add: accounts_inv_def)
    from accounts_ok_verified [OF this 3(1), of now] 3(2) inv show ?thesis by (simp add: accounts_inv_def)
  qed (use I others in simp_all)
qed

text \<open>A read on the primary leaves what other clients left, whatever it answers.\<close>

lemma exec_read:
  assumes "\<And>now d a d'. s now d = Inr (a, d') \<Longrightarrow> d' = d" and "exec V (Conn Primary) s w = (r, w')"
  shows "w_db w' = e_others V (w_tick w) (w_db w)"
  using assms by (fastforce simp: exec.simps Let_def split: outcome.splits sum.splits prod.splits if_splits)

text \<open>The account is looked up before the transaction; its address is still that of the account when the
  token is stored.\<close>

lemma resend_to_user_mailed:
  assumes "env_keeps (accounts_inv L url) V" and "addresses_stay V" and "accounts_inv L url (w_db w)"
    and "u0 \<in> set (users (w_db w))" and "resend_to_user L V (Conn Primary) (user_of u0) url w = (r, w')"
  shows "accounts_ok L url (w_db w')"
proof -
  note stay = assms(2) [unfolded addresses_stay_def, rule_format]
  obtain r1 w1 where count: "mapErr RV_Db (count_recent_tokens V (Conn Primary) (usr_id (user_of u0))) w = (r1, w1)"
    by fastforce
  then have w1: "w_db w1 = e_others V (w_tick w) (w_db w)"
    by (auto simp: mapErr_def count_recent_tokens_def split: prod.splits
        intro: exec_read [where s = "sql_count_recent_tokens i" for i] simp: sql_count_recent_tokens_def)
  have I1: "accounts_inv L url (w_db w1)" using accounts_inv_others [OF assms(1,3)] w1 by simp
  obtain u1 where u1: "u1 \<in> set (users (w_db w1))" "u_id u1 = u_id u0" "u_email u1 = u_email u0"
    using stay [OF assms(4)] w1 by metis
  let ?tx = "\<lambda>rs. transaction V RV_Db (\<lambda>tx.
       andThen (mapErr RV_Db (insert_token V tx (rs_token_id rs) (usr_id (user_of u0)) (rs_token_hash rs) (rs_expires_at rs))) (\<lambda>_.
       mapErr RV_Outbox (insert_event V tx (rs_outbox_id rs) ''user'' (usr_id (user_of u0)) ''auth_email''
         (rs_payload rs) (rs_trace_id rs) (rs_span_id rs))))"
  from assms(5) count consider "w_db w' = w_db w1" | "andThen (resend_prepare L V (user_of u0) url) ?tx w1 = (r, w')"
    by (auto simp: resend_to_user_def andThen_def throw_def split: sum.splits if_splits)
  then show ?thesis
  proof cases
    case 2
    from 2 quiet_resend_prepare show ?thesis
    proof (cases rule: quiet_step)
      case 1
      then show ?thesis using I1 by (simp add: accounts_inv_def)
    next
      case (2 rs w2)
      note prep = resend_prepare_Inr(2) [OF 2(1)]
      let ?d = "e_others V (w_tick w2) (w_db w2)"
      have I2: "accounts_ok L url ?d" using accounts_inv_others [OF assms(1) I1] 2(2) by (simp add: accounts_inv_def)
      obtain u2 where u2: "u2 \<in> set (users ?d)" "u_id u2 = u_id u0" "u_email u2 = u_email u0"
        using stay [OF u1(1)] u1(2,3) 2(2) by metis
      have stored: "accounts_ok L url (w_db w3)"
        if "andThen (mapErr RV_Db (insert_token V (Tx now) (rs_token_id rs) (usr_id (user_of u0)) (rs_token_hash rs) (rs_expires_at rs))) (\<lambda>_.
          mapErr RV_Outbox (insert_event V (Tx now) (rs_outbox_id rs) ''user'' (usr_id (user_of u0)) ''auth_email''
            (rs_payload rs) (rs_trace_id rs) (rs_span_id rs))) \<lparr>w_db = ?d, w_tick = k\<rparr> = (Inr a, w3)" for now k a w3
      proof -
        from that have w3: "w_db w3 = add_rows [] [new_token (rs_token_id rs) (u_id u0) (rs_token_hash rs) (rs_expires_at rs) now]
          [new_event (rs_outbox_id rs) (u_id u0) (rs_payload rs) (rs_trace_id rs) (rs_span_id rs) now] ?d"
          by (auto simp: io_Inr_iff insert_token_tx_Inr_iff insert_event_tx_Inr_iff add_rows_add_rows user_of_simps)
        show ?thesis
          unfolding w3 by (rule accounts_ok_add_token [OF I2, where u = u2])
            (use u2 prep in \<open>auto simp: user_of_simps\<close>)
      qed
      show ?thesis
      proof (cases r)
        case (Inl x)
        from transaction_Inl [OF 2(3) [unfolded Inl]] stored I2 show ?thesis by auto
      next
        case (Inr a)
        from 2(3) [unfolded Inr transaction_Inr_iff] stored show ?thesis by auto
      qed
    qed
  qed (use I1 in \<open>simp add: accounts_inv_def\<close>)
qed

lemma get_user_by_email_db:
  assumes "get_user_by_email L V (Conn Primary) em w = (r, w')"
  shows "w_db w' = e_others V (w_tick w) (w_db w)"
proof -
  obtain r1 w1 where e: "exec V (Conn Primary) (sql_user_by_email (l_lower L) em) w = (r1, w1)" by fastforce
  have "w_db w1 = e_others V (w_tick w) (w_db w)"
    by (rule exec_read [OF _ e]) (auto simp: sql_user_by_email_def dest: query_opt_same)
  moreover have "w' = w1" using assms e
    by (auto simp: get_user_by_email_def andThen_def expect_user_def ret_def pureX_def
        split: sum.splits option.splits)
  ultimately show ?thesis by simp
qed

lemma keeps_resend_mailed:
  assumes "env_keeps (accounts_inv L url) V" and "env_keeps (inv L) V" and "addresses_stay V"
  shows "io_keeps (accounts_inv L url) (resend_verification L V em url)"
proof (rule io_keepsI)
  fix w r w' assume I: "accounts_inv L url (w_db w)" and s: "resend_verification L V em url w = (r, w')"
  have inv: "inv L (w_db w')"
    using io_keepsD [OF constraints_kept.keeps_resend_verification [OF assms(2)] _ s] I by (simp add: accounts_inv_def)
  let ?w1 = "w\<lparr>w_tick := Suc (w_tick w)\<rparr>"
  obtain g w2 where g: "get_user_by_email L V (Conn Primary) em ?w1 = (g, w2)" by fastforce
  have I2: "accounts_inv L url (w_db w2)"
    using get_user_by_email_db [OF g] accounts_inv_others [OF assms(1) I] by simp
  from s g consider "w_db w' = w_db w" | "w_db w' = w_db w2"
    | u where "g = Inr (Some u)" "resend_to_user L V (Conn Primary) u url w2 = (r, w')"
    by (auto simp: resend_verification_def andThen_def pool_get_def ask_def ret_def throw_def attempt_def
        split: sum.splits exit.splits option.splits if_splits)
  then have "accounts_ok L url (w_db w')"
  proof cases
    case (3 u)
    have "inv L (w_db ?w1)" using I by (simp add: accounts_inv_def)
    from get_user_by_email_primary_Inr(3) [OF assms(2) this g [unfolded 3(1)], symmetric] obtain u0 where
      "email_owner (l_lower L) (w_db w2) em = Some u0" "u = user_of u0" by auto
    with resend_to_user_mailed [OF assms(1,3) I2 _ 3(2) [unfolded \<open>u = user_of u0\<close>]] email_owner_Some show ?thesis
      by blast
  qed (use I I2 in \<open>simp_all add: accounts_inv_def\<close>)
  with inv show "accounts_inv L url (w_db w')" by (simp add: accounts_inv_def)
qed

section \<open>The service\<close>

lemma serve_keeps_mailed: "mail_env L S V \<Longrightarrow> io_keeps (accounts_inv L (is_web_base_url S)) (serve L V S rq)"
  unfolding mail_env_def
  by (intro mail_kept.serve_keeps_with keeps_sign_up_mailed keeps_verify_email_mailed keeps_resend_mailed) simp_all

interpretation mail_server: invariant_server mail_env "\<lambda>L S. accounts_inv L (is_web_base_url S)" serve
  by unfold_locales (rule serve_keeps_mailed)

text \<open>C12. Whatever requests are served, however each of them ends, and whatever other clients do that
  keep the same and leave the addresses of accounts alone: every stored verification token belongs
  to an account, and an event of the outbox mails exactly this token to this account's address; an
  account counts as verified only if a token of its own was used; active accounts are verified,
  pending ones are not; and the constraints of the tables hold.\<close>
theorem accounts_stay_mailed:
  assumes "mail_env L S V" and "accounts_inv L (is_web_base_url S) (w_db w)"
    and "serve_all (serve L V S) rqs w = (rs, w')"
  shows "inv L (w_db w') \<and>
    (\<forall>t \<in> set (tokens (w_db w')). \<exists>u \<in> set (users (w_db w')). \<exists>e \<in> set (outbox (w_db w')). \<exists>name.
       u_id u = t_user_id t \<and> ob_aggregate_id e = t_user_id t \<and> ob_event_type e = ''auth_email'' \<and>
       mails_token L (is_web_base_url S) (ob_id e) (u_email u) name (t_token_hash t) (ob_payload e)) \<and>
    (\<forall>u \<in> set (users (w_db w')).
       (u_email_verified u \<longrightarrow> (\<exists>t \<in> set (tokens (w_db w')). t_user_id t = u_id u \<and> t_consumed_at t \<noteq> None)) \<and>
       (u_status u = ''active'' \<longrightarrow> u_email_verified u) \<and>
       (u_status u = ''pending_verification'' \<longrightarrow> \<not> u_email_verified u))"
proof -
  have I: "accounts_inv L (is_web_base_url S) (w_db w')" by (rule mail_server.serve_all_keeps [OF assms])
  then have "\<exists>u \<in> set (users (w_db w')). \<exists>e \<in> set (outbox (w_db w')). \<exists>name.
       u_id u = t_user_id t \<and> ob_aggregate_id e = t_user_id t \<and> ob_event_type e = ''auth_email'' \<and>
       mails_token L (is_web_base_url S) (ob_id e) (u_email u) name (t_token_hash t) (ob_payload e)"
    if "t \<in> set (tokens (w_db w'))" for t
    using that unfolding accounts_inv_def accounts_ok_def mailed_to_def by metis
  with I show ?thesis unfolding accounts_inv_def accounts_ok_def by blast
qed

text \<open>The sample deployment before its first account, and its first sign-up.\<close>

definition no_accounts :: world where
  "no_accounts = \<lparr>w_db = sample_db\<lparr>users := [], tokens := []\<rparr>, w_tick = 100\<rparr>"

lemma no_accounts_inv: "accounts_inv login_libs url (w_db no_accounts)"
  by (simp add: accounts_inv_def accounts_ok_def no_accounts_def sample_db_def db_inv_def users_violation_def
      tokens_violation_def refresh_violation_def outbox_violation_def signing_keys_violation_def)

lemma sample_mail_env: "mail_env login_libs S sample_env"
  by (auto simp: mail_env_def addresses_stay_def calm_keeps [OF sample_env_calm])

lemma first_sign_up:
  "\<exists>w'. sign_up login_libs sample_env ''carol'' ''c@d.e'' ''Ca'' ''Rol'' (Some ''password'') url no_accounts = (Inr (), w') \<and>
     length (tokens (w_db w')) = 1"
proof -
  have "sign_up_validate ''carol'' ''c@d.e'' (Some ''password'') = Inr ''password''"
    by code_simp
  then show ?thesis
    by (simp add: no_accounts_def sign_up_def sign_up_prepare_def andThen_Inr_iff pureR_Inr_iff ask_Inr_iff
        hash_password_blocking_Inr_iff extract_trace_context_Inr_iff pool_get_Inr_iff ret_def
        hash_password_def sample_password_def generate_verification_token_def transaction_Inr_iff
        insert_user_tx_Inr_iff insert_token_tx_Inr_iff insert_event_tx_Inr_iff mapErr_Inr_iff Let_def)
      (simp add: sample_db_def users_violation_def tokens_violation_def outbox_violation_def new_user_def
        new_token_def new_event_def live_def)
qed

theorem accounts_stay_mailed_witness:
  "\<exists>rs w' t u e name. serve_all (serve login_libs sample_env \<lparr>is_db = database_pool_from_pool Primary,
       is_web_base_url = ''https://h'', is_kek = sample_kek\<rparr>)
       [SignUp \<lparr>rq_authorization = None, rq_message = \<lparr>sur_username = ''carol'', sur_email = ''c@d.e'',
          sur_given_name = ''Ca'', sur_family_name = ''Rol'', sur_password = Some ''password''\<rparr>\<rparr>] no_accounts = (rs, w') \<and>
     tokens (w_db w') = [t] \<and> u \<in> set (users (w_db w')) \<and> e \<in> set (outbox (w_db w')) \<and> u_id u = t_user_id t \<and>
     mails_token login_libs ''https://h'' (ob_id e) (u_email u) name (t_token_hash t) (ob_payload e)"
proof -
  let ?S = "\<lparr>is_db = database_pool_from_pool Primary, is_web_base_url = ''https://h'', is_kek = sample_kek\<rparr>"
  let ?rq = "SignUp \<lparr>rq_authorization = None, rq_message = \<lparr>sur_username = ''carol'', sur_email = ''c@d.e'',
    sur_given_name = ''Ca'', sur_family_name = ''Rol'', sur_password = Some ''password''\<rparr>\<rparr>"
  obtain w' where s: "sign_up login_libs sample_env ''carol'' ''c@d.e'' ''Ca'' ''Rol'' (Some ''password'') ''https://h'' no_accounts
      = (Inr (), w')" and n: "length (tokens (w_db w')) = 1"
    using first_sign_up by blast
  obtain t where t: "tokens (w_db w') = [t]" using n by (auto simp: length_Suc_conv)
  have r: "serve_all (serve login_libs sample_env ?S) [?rq] no_accounts = ([Inr SignedUp], w')"
    using s by (simp add: handle_sign_up_def andThen_def mapErr_def ret_def)
  from accounts_stay_mailed [OF sample_mail_env _ r] no_accounts_inv t obtain u e name where
    "u \<in> set (users (w_db w'))" "e \<in> set (outbox (w_db w'))" "u_id u = t_user_id t"
    "mails_token login_libs ''https://h'' (ob_id e) (u_email u) name (t_token_hash t) (ob_payload e)"
    by auto
  with r t show ?thesis by blast
qed

end
