(* ===== verification/Test_Cluster.thy ===== *)
theory Test_Cluster
  imports Startup
begin

text \<open>
  The test utilities (\<open>services/test-utils/src\<close>): the SPIRE cluster of \<open>spire.rs\<close>, with the containers
  and the volume that it starts, registers, awaits and removes, and the databases of \<open>lib.rs\<close>. Docker
  is a state; whether a container starts and what a command answers is decided by functions of a
  counter of effects. The helpers do not return errors: what fails panics.

  The theory shows that the loops end, that a cluster that was started knows its entries, and that
  starting and shutting down leaves nothing behind.
\<close>

section \<open>Numbers as text\<close>

fun decimal :: "nat \<Rightarrow> string" where
  "decimal n = (if n < 10 then [char_of (48 + n)] else decimal (n div 10) @ [char_of (48 + n mod 10)])"

declare decimal.simps [simp del]

definition digit :: "char \<Rightarrow> nat option" where
  "digit c = (let n = of_char c in if 48 \<le> n \<and> n < 58 then Some (n - 48) else None)"

fun digits_value :: "nat \<Rightarrow> string \<Rightarrow> nat option" where
  "digits_value acc [] = Some acc"
| "digits_value acc (c # s) = (case digit c of Some d \<Rightarrow> digits_value (10 * acc + d) s | None \<Rightarrow> None)"

text \<open>\<open>u64::from_str\<close>: digits after an optional plus sign.\<close>

definition parse_u64 :: "string \<Rightarrow> u64 option" where
  "parse_u64 s =
     (let t = (case strip_prefix ''+'' s of Some t \<Rightarrow> t | None \<Rightarrow> s)
      in if t = [] then None
         else (case digits_value 0 t of Some n \<Rightarrow> if n < 2 ^ 64 then Some (of_nat n) else None | None \<Rightarrow> None))"

section \<open>Docker\<close>

record container =
  ct_id :: nat
  ct_image :: string
  ct_volumes :: "string list"

record docker =
  dk_containers :: "container list"
  dk_volumes :: "string set"
  dk_entries :: "(nat \<times> string \<times> string) list"
  dk_tick :: nat

text \<open>\<open>de_start\<close>: a container starts, does not, or starts without becoming ready in time; \<open>de_exec\<close>: the
  exit code and the output of a command run in a container, where it can be run and is ready.\<close>

record docker_env =
  de_start :: "nat \<Rightarrow> outcome"
  de_exec :: "nat \<Rightarrow> string list \<Rightarrow> (int option \<times> string) option"
  de_bridge_ip :: "nat \<Rightarrow> string option"
  de_port :: "nat \<Rightarrow> nat \<Rightarrow> nat option"
  de_write :: "nat \<Rightarrow> bool"
  de_docker :: "nat \<Rightarrow> bool"
  de_probe :: "nat \<Rightarrow> bool"
  de_now :: "nat \<Rightarrow> instant"

type_synonym 'a dio = "(docker, unit, 'a) state_io"

definition unwrap :: "(nat \<Rightarrow> 'a option) \<Rightarrow> 'a dio" where
  "unwrap f d = (or_panic (f (dk_tick d)), d\<lparr>dk_tick := Suc (dk_tick d)\<rparr>)"

text \<open>Starting a container creates the volumes it mounts; one that is not ready in time is dropped.\<close>

definition run_container :: "docker_env \<Rightarrow> string \<Rightarrow> string list \<Rightarrow> container dio" where
  "run_container E img volumes d =
     (let t = dk_tick d; c = \<lparr>ct_id = t, ct_image = img, ct_volumes = volumes\<rparr>; d0 = d\<lparr>dk_tick := Suc t\<rparr>
      in case de_start E t of
           Delivered \<Rightarrow> (Inr c, d0\<lparr>dk_containers := c # dk_containers d, dk_volumes := dk_volumes d \<union> set volumes\<rparr>)
         | Refused \<Rightarrow> (Inl Panic, d0)
         | ReplyLost \<Rightarrow> (Inl Panic, d0\<lparr>dk_volumes := dk_volumes d \<union> set volumes\<rparr>))"

definition drop_container :: "container \<Rightarrow> docker \<Rightarrow> docker" where
  "drop_container c d = d\<lparr>dk_containers := filter (\<lambda>x. ct_id x \<noteq> ct_id c) (dk_containers d)\<rparr>"

text \<open>A panic drops the containers that the function holds.\<close>

definition holding :: "container \<Rightarrow> 'a dio \<Rightarrow> 'a dio" where
  "holding c m d = (case m d of (Inl x, d') \<Rightarrow> (Inl x, drop_container c d') | (Inr a, d') \<Rightarrow> (Inr a, d'))"

text \<open>\<open>docker volume rm -f\<close>, whose failure is ignored; a volume in use is not removed.\<close>

definition volume_rm :: "docker_env \<Rightarrow> string \<Rightarrow> docker \<Rightarrow> docker" where
  "volume_rm E v d =
     (let t = dk_tick d; d0 = d\<lparr>dk_tick := Suc t\<rparr>
      in if de_docker E t \<and> \<not> list_ex (\<lambda>c. v \<in> set (ct_volumes c)) (dk_containers d)
         then d0\<lparr>dk_volumes := dk_volumes d - {v}\<rparr> else d0)"

section \<open>The SPIRE cluster\<close>

definition SPIRE_VERSION :: string where
  "SPIRE_VERSION = ''1.12.0''"

definition TRUST_DOMAIN :: string where
  "TRUST_DOMAIN = ''home.ryanseipp.com''"

definition SOCAT_PORT :: nat where
  "SOCAT_PORT = 8443"

text \<open>\<open>GenericImage::new\<close> with the tag of each container.\<close>

definition server_image :: string where
  "server_image = ''ghcr.io/spiffe/spire-server:'' @ SPIRE_VERSION"

definition agent_image :: string where
  "agent_image = ''ghcr.io/spiffe/spire-agent:'' @ SPIRE_VERSION"

definition socat_image :: string where
  "socat_image = ''alpine/socat:latest''"

record spire_workload_entry =
  we_spiffe_id :: string
  we_dns :: string

definition agent_id :: string where
  "agent_id = ''spiffe://'' @ TRUST_DOMAIN @ ''/agent''"

definition token_command :: "string list" where
  "token_command = [''/opt/spire/bin/spire-server'', ''token'', ''generate'', ''-spiffeID'', agent_id, ''-output'', ''json'']"

definition entry_command :: "spire_workload_entry \<Rightarrow> string list" where
  "entry_command entry = [''/opt/spire/bin/spire-server'', ''entry'', ''create'', ''-spiffeID'', we_spiffe_id entry,
     ''-parentID'', agent_id, ''-selector'', ''unix:uid:0'', ''-dns'', we_dns entry]"

record spire_cluster =
  sc_server :: "container option"
  sc_agent :: "container option"
  sc_socat :: "container option"
  sc_socat_host_port :: nat
  sc_volume_name :: string

text \<open>\<open>SpiffeIdPicker::pick_svid\<close>: the position of the first SVID with the id.\<close>

fun pick_svid :: "string \<Rightarrow> string list \<Rightarrow> nat option" where
  "pick_svid i [] = None"
| "pick_svid i (s # ss) = (if s = i then Some 0 else map_option Suc (pick_svid i ss))"

definition endpoint :: "spire_cluster \<Rightarrow> string" where
  "endpoint c = ''tcp://127.0.0.1:'' @ decimal (sc_socat_host_port c)"

definition quoted :: "string \<Rightarrow> string" where
  "quoted s = CHR 0x22 # s @ [CHR 0x22]"

definition agent_conf :: "string \<Rightarrow> string" where
  "agent_conf server_ip = concat (map (\<lambda>l. l @ [CHR 0x0A])
     [''agent {'',
      ''    data_dir = '' @ quoted ''/opt/spire/data/agent'',
      ''    log_level = '' @ quoted ''DEBUG'',
      ''    server_address = '' @ quoted server_ip,
      ''    server_port = '' @ quoted ''8081'',
      ''    socket_path = '' @ quoted ''/tmp/spire-agent/public/api.sock'',
      ''    trust_domain = '' @ quoted TRUST_DOMAIN,
      ''    insecure_bootstrap = true'',
      ''}'',
      [],
      ''plugins {'',
      ''    KeyManager '' @ quoted ''disk'' @ '' {'',
      ''        plugin_data {'',
      ''            directory = '' @ quoted ''/opt/spire/data/agent'',
      ''        }'',
      ''    }'',
      [],
      ''    NodeAttestor '' @ quoted ''join_token'' @ '' {'',
      ''        plugin_data {}'',
      ''    }'',
      [],
      ''    WorkloadAttestor '' @ quoted ''unix'' @ '' {'',
      ''        plugin_data {}'',
      ''    }'',
      ''}''])"

text \<open>One \<open>spire-server entry create\<close>, whose exit code must be 0; then all of them in order.\<close>

definition register_entry :: "docker_env \<Rightarrow> container \<Rightarrow> spire_workload_entry \<Rightarrow> unit dio" where
  "register_entry E server entry =
     andThen (unwrap (\<lambda>t. de_exec E t (entry_command entry))) (\<lambda>result d.
     if fst result = Some 0
     then (Inr (), d\<lparr>dk_entries := dk_entries d @ [(ct_id server, we_spiffe_id entry, we_dns entry)]\<rparr>)
     else (Inl Panic, d))"

fun register_all :: "docker_env \<Rightarrow> container \<Rightarrow> spire_workload_entry list \<Rightarrow> unit dio" where
  "register_all E server [] = ret ()"
| "register_all E server (e # es) = andThen (register_entry E server e) (\<lambda>_. register_all E server es)"

text \<open>\<open>start\<close> up to the registration; \<open>json\<close> reads the field \<open>value\<close> of the answer as a string.\<close>

definition launch :: "docker_env \<Rightarrow> (string \<Rightarrow> string option) \<Rightarrow> nat \<Rightarrow> spire_workload_entry list \<Rightarrow> spire_cluster dio" where
  "launch E json pid entries =
     (let volume_name = ''spire-agent-sock-'' @ decimal pid in
     andThen (unwrap (\<lambda>t. if de_write E t then Some () else None)) (\<lambda>tmpdir.
     andThen (run_container E server_image []) (\<lambda>server. holding server (
     andThen (unwrap (\<lambda>t. map_option snd (de_exec E t token_command))) (\<lambda>token_stdout.
     andThen (pureX (\<lambda>e. e) (or_panic (json token_stdout))) (\<lambda>join_token.
     andThen (unwrap (de_bridge_ip E)) (\<lambda>server_ip.
     andThen (unwrap (\<lambda>t. if de_write E t then Some (agent_conf server_ip) else None)) (\<lambda>conf.
     andThen (run_container E agent_image [volume_name]) (\<lambda>agent. holding agent (
     andThen (run_container E socat_image [volume_name]) (\<lambda>socat. holding socat (
     andThen (unwrap (\<lambda>t. de_port E t SOCAT_PORT)) (\<lambda>socat_host_port.
     andThen (register_all E server entries) (\<lambda>_.
     ret \<lparr>sc_server = Some server, sc_agent = Some agent, sc_socat = Some socat,
          sc_socat_host_port = socat_host_port, sc_volume_name = volume_name\<rparr>))))))))))))))"

text \<open>The loop that probes the agent every half second until it answers or the deadline has passed.\<close>

partial_function (option) await_svids ::
    "docker_env \<Rightarrow> instant \<Rightarrow> docker \<Rightarrow> ((unit exit + unit) \<times> docker) option" where
  "await_svids E deadline d =
     (let t = dk_tick d
      in if de_probe E t then Some (Inr (), d\<lparr>dk_tick := t + 1\<rparr>)
         else if de_now E (t + 1) < deadline then await_svids E deadline (d\<lparr>dk_tick := t + 3\<rparr>)
         else Some (Inl Panic, d\<lparr>dk_tick := t + 2\<rparr>))"

definition drop_option :: "container option \<Rightarrow> docker \<Rightarrow> docker" where
  "drop_option c d = (case c of Some x \<Rightarrow> drop_container x d | None \<Rightarrow> d)"

definition drop_all :: "spire_cluster \<Rightarrow> docker \<Rightarrow> docker" where
  "drop_all c d = drop_option (sc_server c) (drop_option (sc_agent c) (drop_option (sc_socat c) d))"

definition start_cluster :: "docker_env \<Rightarrow> (string \<Rightarrow> string option) \<Rightarrow> nat \<Rightarrow> spire_workload_entry list
    \<Rightarrow> docker \<Rightarrow> ((unit exit + spire_cluster) \<times> docker) option" where
  "start_cluster E json pid entries d =
     (case launch E json pid entries d of
        (Inl x, d1) \<Rightarrow> Some (Inl x, d1)
      | (Inr c, d1) \<Rightarrow>
         (case await_svids E (de_now E (dk_tick d1) + seconds 60) (d1\<lparr>dk_tick := Suc (dk_tick d1)\<rparr>) of
            None \<Rightarrow> None
          | Some (Inl x, d2) \<Rightarrow> Some (Inl x, drop_all c d2)
          | Some (Inr _, d2) \<Rightarrow> Some (Inr c, d2)))"

text \<open>\<open>shutdown\<close>, which \<open>drop\<close> calls again: containers first, then the volume.\<close>

definition shutdown_cluster :: "docker_env \<Rightarrow> spire_cluster \<Rightarrow> docker \<Rightarrow> spire_cluster \<times> docker" where
  "shutdown_cluster E c d =
     (c\<lparr>sc_server := None, sc_agent := None, sc_socat := None\<rparr>, volume_rm E (sc_volume_name c) (drop_all c d))"

section \<open>The loop ends\<close>

text \<open>The clock does not go back, and a sleep of half a second takes at least as long.\<close>

definition sleeps :: "docker_env \<Rightarrow> bool" where
  "sleeps E \<longleftrightarrow> (\<forall>t. de_now E t + 500000000 \<le> de_now E (t + 3))"

lemma await_svids_rounds:
  assumes "sleeps E" and "deadline \<le> de_now E (dk_tick d + 1) + int n * 500000000"
  shows "\<exists>r t. t \<le> dk_tick d + 3 * n + 2 \<and> await_svids E deadline d = Some (r, d\<lparr>dk_tick := t\<rparr>)"
  using assms(2)
proof (induction n arbitrary: d)
  case 0
  then show ?case
    by (intro exI [of _ "if de_probe E (dk_tick d) then Inr () else Inl Panic"]
        exI [of _ "if de_probe E (dk_tick d) then dk_tick d + 1 else dk_tick d + 2"])
      (simp add: await_svids.simps [of E deadline d] Let_def)
next
  case (Suc n)
  let ?d = "d\<lparr>dk_tick := dk_tick d + 3\<rparr>"
  have "de_now E (dk_tick d + 1) + 500000000 \<le> de_now E ((dk_tick d + 1) + 3)"
    using assms(1) unfolding sleeps_def by blast
  moreover have "(dk_tick d + 1) + 3 = dk_tick ?d + 1" by simp
  ultimately have "de_now E (dk_tick d + 1) + 500000000 \<le> de_now E (dk_tick ?d + 1)" by (simp only:)
  with Suc.prems have "deadline \<le> de_now E (dk_tick ?d + 1) + int n * 500000000" by (simp add: algebra_simps)
  from Suc.IH [OF this] obtain r t where
    r: "t \<le> dk_tick d + 3 * Suc n + 2" "await_svids E deadline ?d = Some (r, d\<lparr>dk_tick := t\<rparr>)" by auto
  show ?case
  proof (cases "de_probe E (dk_tick d)")
    case True
    then show ?thesis
      by (intro exI [of _ "Inr ()"] exI [of _ "dk_tick d + 1"]) (simp add: await_svids.simps [of E deadline d] Let_def)
  next
    case False
    show ?thesis
    proof (cases "de_now E (dk_tick d + 1) < deadline")
      case True
      with False r show ?thesis
        by (intro exI [of _ r] exI [of _ t]) (simp add: await_svids.simps [of E deadline d] Let_def)
    next
      case late: False
      with False show ?thesis
        by (intro exI [of _ "Inl Panic"] exI [of _ "dk_tick d + 2"])
          (simp add: await_svids.simps [of E deadline d] Let_def)
    qed
  qed
qed

text \<open>Within 60 seconds there are at most 121 rounds, so \<open>start\<close> returns or panics.\<close>

lemma await_svids_returns:
  assumes "sleeps E" and "deadline \<le> de_now E (dk_tick d + 1) + seconds 60"
  shows "\<exists>r t. t \<le> dk_tick d + 362 \<and> await_svids E deadline d = Some (r, d\<lparr>dk_tick := t\<rparr>)"
  using await_svids_rounds [OF assms(1), of deadline d 120] assms(2)
  by (simp add: seconds_def one_second_def add.commute)

lemma start_cluster_returns:
  assumes "sleeps E" and "\<And>t t'. t \<le> t' \<Longrightarrow> de_now E t \<le> de_now E t'"
  shows "start_cluster E json pid entries d \<noteq> None"
proof (cases "launch E json pid entries d")
  case (Pair r d1)
  let ?deadline = "de_now E (dk_tick d1) + seconds 60" and ?d = "d1\<lparr>dk_tick := Suc (dk_tick d1)\<rparr>"
  have "?deadline \<le> de_now E (dk_tick ?d + 1) + seconds 60" using assms(2) by simp
  from await_svids_returns [OF assms(1) this] show ?thesis
    by (auto simp: start_cluster_def Pair split: sum.splits)
qed

section \<open>What a start does\<close>

lemma holding_Inr_iff: "holding c m d = (Inr a, d') \<longleftrightarrow> m d = (Inr a, d')"
  by (auto simp: holding_def split: prod.splits sum.splits)

lemma unwrap_Inr_iff: "unwrap f d = (Inr a, d') \<longleftrightarrow> f (dk_tick d) = Some a \<and> d' = d\<lparr>dk_tick := Suc (dk_tick d)\<rparr>"
  by (auto simp: unwrap_def)

lemma run_container_Inr_iff:
  "run_container E img vs d = (Inr c, d') \<longleftrightarrow>
     de_start E (dk_tick d) = Delivered \<and> c = \<lparr>ct_id = dk_tick d, ct_image = img, ct_volumes = vs\<rparr> \<and>
     d' = d\<lparr>dk_tick := Suc (dk_tick d), dk_containers := c # dk_containers d, dk_volumes := dk_volumes d \<union> set vs\<rparr>"
  by (auto simp: run_container_def Let_def split: outcome.splits)

lemma register_all_Inr:
  "register_all E server es d = (Inr (), d') \<Longrightarrow>
     d' = d\<lparr>dk_tick := dk_tick d + length es,
       dk_entries := dk_entries d @ map (\<lambda>e. (ct_id server, we_spiffe_id e, we_dns e)) es\<rparr>"
proof (induction es arbitrary: d)
  case (Cons e es)
  let ?d = "d\<lparr>dk_tick := Suc (dk_tick d), dk_entries := dk_entries d @ [(ct_id server, we_spiffe_id e, we_dns e)]\<rparr>"
  from Cons.prems have "register_all E server es ?d = (Inr (), d')"
    by (auto simp: andThen_Inr_iff register_entry_def unwrap_Inr_iff split: if_splits)
  from Cons.IH [OF this] show ?case by simp
qed (simp add: ret_def)

definition cluster_volume :: "nat \<Rightarrow> string" where
  "cluster_volume pid = ''spire-agent-sock-'' @ decimal pid"

lemma launch_Inr:
  assumes "launch E json pid entries d = (Inr c, d')"
  shows "\<exists>server agent socat. c = \<lparr>sc_server = Some server, sc_agent = Some agent, sc_socat = Some socat,
      sc_socat_host_port = sc_socat_host_port c, sc_volume_name = cluster_volume pid\<rparr> \<and>
    dk_tick d \<le> ct_id server \<and> dk_tick d \<le> ct_id agent \<and> dk_tick d \<le> ct_id socat \<and>
    dk_containers d' = [socat, agent, server] @ dk_containers d \<and>
    dk_volumes d' = insert (cluster_volume pid) (dk_volumes d) \<and>
    dk_entries d' = dk_entries d @ map (\<lambda>e. (ct_id server, we_spiffe_id e, we_dns e)) entries"
  using assms unfolding launch_def Let_def cluster_volume_def [symmetric]
  by (auto simp: andThen_Inr_iff holding_Inr_iff unwrap_Inr_iff run_container_Inr_iff pureX_Inr_iff ret_def
      split: if_splits dest!: register_all_Inr)

text \<open>The ids of containers are given out in order.\<close>

definition ids_used :: "docker \<Rightarrow> bool" where
  "ids_used d \<longleftrightarrow> (\<forall>c \<in> set (dk_containers d). ct_id c < dk_tick d)"

lemma drop_all_started:
  assumes "ids_used d" and "dk_tick d \<le> ct_id server" "dk_tick d \<le> ct_id agent" "dk_tick d \<le> ct_id socat"
    and "dk_containers d' = [socat, agent, server] @ dk_containers d"
    and "c = \<lparr>sc_server = Some server, sc_agent = Some agent, sc_socat = Some socat, sc_socat_host_port = port,
      sc_volume_name = v\<rparr>"
  shows "drop_all c d' = d'\<lparr>dk_containers := dk_containers d\<rparr>"
proof -
  have "filter (\<lambda>x. ct_id x \<noteq> ct_id a) (dk_containers d) = dk_containers d" if "dk_tick d \<le> ct_id a" for a
    using assms(1) that by (intro filter_True) (auto simp: ids_used_def)
  note fresh = this [OF assms(2)] this [OF assms(3)] this [OF assms(4)]
  show ?thesis by (simp add: drop_all_def drop_option_def drop_container_def assms(5,6) fresh del: filter_filter)
qed

lemma await_svids_tick: "await_svids E deadline x = Some y \<Longrightarrow> \<exists>t. snd y = x\<lparr>dk_tick := t\<rparr>"
proof (erule await_svids.raw_induct [rotated])
  fix aw :: "docker_env \<Rightarrow> instant \<Rightarrow> docker \<Rightarrow> ((unit exit + unit) \<times> docker) option" and E deadline x y
  assume "\<And>E deadline x y. aw E deadline x = Some y \<Longrightarrow> \<exists>t. snd y = x\<lparr>dk_tick := t\<rparr>"
  note IH = this [of E deadline "x\<lparr>dk_tick := dk_tick x + 3\<rparr>" y]
  assume "(let t = dk_tick x
      in if de_probe E t then Some (Inr (), x\<lparr>dk_tick := t + 1\<rparr>)
         else if de_now E (t + 1) < deadline then aw E deadline (x\<lparr>dk_tick := t + 3\<rparr>)
         else Some (Inl Panic, x\<lparr>dk_tick := t + 2\<rparr>)) = Some y"
  then show "\<exists>t. snd y = x\<lparr>dk_tick := t\<rparr>"
    using IH by (auto simp: Let_def split: if_splits)
qed

lemma start_cluster_Inr:
  assumes "start_cluster E json pid entries d = Some (Inr c, d')"
  shows "\<exists>d1 t. launch E json pid entries d = (Inr c, d1) \<and> d' = d1\<lparr>dk_tick := t\<rparr>"
  using assms
  by (auto simp: start_cluster_def split: prod.splits sum.splits option.splits dest!: await_svids_tick)

text \<open>A cluster that started knows every entry, under the server it started; shutting it down removes
  its containers and, where the docker command works and nobody else mounts it, its volume.\<close>

lemma cluster_leaves_nothing:
  assumes "start_cluster E json pid entries d = Some (Inr c, d1)" and "ids_used d"
    and "\<not> list_ex (\<lambda>x. cluster_volume pid \<in> set (ct_volumes x)) (dk_containers d)"
    and "cluster_volume pid \<notin> dk_volumes d" and "\<And>t. de_docker E t"
    and "shutdown_cluster E c d1 = (c', d2)"
  shows "dk_containers d2 = dk_containers d \<and> dk_volumes d2 = dk_volumes d \<and>
    (\<exists>i. dk_entries d2 = dk_entries d @ map (\<lambda>e. (i, we_spiffe_id e, we_dns e)) entries)"
proof -
  from start_cluster_Inr [OF assms(1)] obtain d0 t where
    l: "launch E json pid entries d = (Inr c, d0)" "d1 = d0\<lparr>dk_tick := t\<rparr>" by blast
  from launch_Inr [OF l(1)] obtain server agent socat where
      c: "c = \<lparr>sc_server = Some server, sc_agent = Some agent, sc_socat = Some socat,
        sc_socat_host_port = sc_socat_host_port c, sc_volume_name = cluster_volume pid\<rparr>"
    and ids: "dk_tick d \<le> ct_id server" "dk_tick d \<le> ct_id agent" "dk_tick d \<le> ct_id socat"
    and started: "dk_containers d0 = [socat, agent, server] @ dk_containers d"
      "dk_volumes d0 = insert (cluster_volume pid) (dk_volumes d)"
      "dk_entries d0 = dk_entries d @ map (\<lambda>e. (ct_id server, we_spiffe_id e, we_dns e)) entries" by blast
  have "dk_containers d1 = [socat, agent, server] @ dk_containers d" by (simp add: l(2) started)
  from drop_all_started [OF assms(2) ids this c]
  have "d2 = volume_rm E (cluster_volume pid) (d1\<lparr>dk_containers := dk_containers d\<rparr>)"
    using assms(6) c by (metis shutdown_cluster_def snd_conv spire_cluster.select_convs(5))
  then show ?thesis using assms(3-5) started by (auto simp: volume_rm_def Let_def l(2))
qed

text \<open>Dropping a cluster that was shut down, as \<open>Drop\<close> does, only asks for the volume again.\<close>

lemma volume_rm_again:
  assumes "\<And>t. de_docker E t"
  shows "volume_rm E v (volume_rm E v d) = (volume_rm E v d)\<lparr>dk_tick := Suc (dk_tick (volume_rm E v d))\<rparr>"
  by (simp add: volume_rm_def Let_def assms)

lemma shutdown_twice:
  assumes "shutdown_cluster E c d = (c', d')" and "\<And>t. de_docker E t"
  shows "shutdown_cluster E c' d' = (c', d'\<lparr>dk_tick := Suc (dk_tick d')\<rparr>)"
proof -
  have c': "c' = c\<lparr>sc_server := None, sc_agent := None, sc_socat := None\<rparr>"
    and d': "d' = volume_rm E (sc_volume_name c) (drop_all c d)"
    using assms(1) by (auto simp: shutdown_cluster_def)
  have "drop_all c' d' = d'" by (simp add: c' drop_all_def drop_option_def)
  then show ?thesis
    by (simp add: shutdown_cluster_def c' d' volume_rm_again [OF assms(2)])
qed

section \<open>Starts that fail\<close>

text \<open>A start that panics drops the containers it started, but not the volume they mounted: no cluster
  was built whose \<open>drop\<close> would remove it.\<close>

definition within :: "string \<Rightarrow> docker \<Rightarrow> docker \<Rightarrow> bool" where
  "within v d d' \<longleftrightarrow> dk_tick d \<le> dk_tick d' \<and> dk_volumes d \<subseteq> dk_volumes d' \<and> dk_volumes d' \<subseteq> insert v (dk_volumes d)"

definition fails_clean :: "string \<Rightarrow> 'a dio \<Rightarrow> bool" where
  "fails_clean v m \<longleftrightarrow> (\<forall>d x d'. ids_used d \<and> m d = (Inl x, d') \<longrightarrow>
     within v d d' \<and> dk_containers d' = dk_containers d)"

definition same_containers :: "'a dio \<Rightarrow> bool" where
  "same_containers m \<longleftrightarrow> (\<forall>d r d'. m d = (r, d') \<longrightarrow>
     dk_tick d \<le> dk_tick d' \<and> dk_volumes d' = dk_volumes d \<and> dk_containers d' = dk_containers d)"

lemma same_containers_steps: "same_containers (unwrap f)" "same_containers (pureX g r)" "same_containers (ret a)"
  by (auto simp: same_containers_def unwrap_def pureX_def ret_def)

lemma same_containers_andThen:
  "same_containers m \<Longrightarrow> (\<And>a. same_containers (k a)) \<Longrightarrow> same_containers (andThen m k)"
  unfolding same_containers_def andThen_def by (fastforce split: prod.splits sum.splits)

lemma same_containers_register: "same_containers (register_all E server es)"
proof (induction es)
  case (Cons e es)
  have "same_containers (register_entry E server e)"
    unfolding register_entry_def
    by (intro same_containers_andThen same_containers_steps) (auto simp: same_containers_def)
  then show ?case unfolding register_all.simps by (rule same_containers_andThen) (rule Cons.IH)
qed (simp add: same_containers_steps)

lemma fails_clean_same: "same_containers m \<Longrightarrow> fails_clean v m"
  by (auto simp: same_containers_def fails_clean_def within_def)

lemma fails_clean_andThen:
  assumes "same_containers m" and "\<And>a. fails_clean v (k a)"
  shows "fails_clean v (andThen m k)"
  unfolding fails_clean_def
proof (intro allI impI)
  fix d x d' assume "ids_used d \<and> andThen m k d = (Inl x, d')"
  then have used: "ids_used d" and "andThen m k d = (Inl x, d')" by simp_all
  then consider "m d = (Inl x, d')" | a d1 where "m d = (Inr a, d1)" "k a d1 = (Inl x, d')"
    by (auto simp: andThen_def split: prod.splits sum.splits)
  then show "within v d d' \<and> dk_containers d' = dk_containers d"
  proof cases
    case 1
    then show ?thesis using assms(1) by (auto simp: same_containers_def within_def)
  next
    case 2
    from 2(1) assms(1) have s: "dk_tick d \<le> dk_tick d1" "dk_volumes d1 = dk_volumes d" "dk_containers d1 = dk_containers d"
      by (auto simp: same_containers_def)
    then have "ids_used d1" using used by (force simp: ids_used_def)
    with assms(2) 2(2) have "within v d1 d' \<and> dk_containers d' = dk_containers d1" by (auto simp: fails_clean_def)
    with s show ?thesis by (auto simp: within_def)
  qed
qed

lemma fails_clean_holding:
  assumes "set vs \<subseteq> {v}" and "\<And>c. fails_clean v (k c)"
  shows "fails_clean v (andThen (run_container E img vs) (\<lambda>c. holding c (k c)))"
  unfolding fails_clean_def
proof (intro allI impI)
  fix d x d' assume "ids_used d \<and> andThen (run_container E img vs) (\<lambda>c. holding c (k c)) d = (Inl x, d')"
  then have used: "ids_used d" and run: "andThen (run_container E img vs) (\<lambda>c. holding c (k c)) d = (Inl x, d')"
    by simp_all
  let ?c = "\<lparr>ct_id = dk_tick d, ct_image = img, ct_volumes = vs\<rparr>"
  let ?d1 = "d\<lparr>dk_tick := Suc (dk_tick d), dk_containers := ?c # dk_containers d, dk_volumes := dk_volumes d \<union> set vs\<rparr>"
  show "within v d d' \<and> dk_containers d' = dk_containers d"
  proof (cases "de_start E (dk_tick d)")
    case Delivered
    then have r: "run_container E img vs d = (Inr ?c, ?d1)" by (simp add: run_container_Inr_iff)
    with run obtain d2 where k: "k ?c ?d1 = (Inl x, d2)" "d' = drop_container ?c d2"
      by (auto simp: andThen_def holding_def split: prod.splits sum.splits)
    have "ids_used ?d1" using used by (auto simp: ids_used_def)
    with assms(2) k(1) have w: "within v ?d1 d2" "dk_containers d2 = ?c # dk_containers d"
      by (auto simp: fails_clean_def)
    have "filter (\<lambda>y. ct_id y \<noteq> dk_tick d) (dk_containers d) = dk_containers d"
      using used by (intro filter_True) (auto simp: ids_used_def)
    then show ?thesis using w assms(1) by (auto simp: k(2) drop_container_def within_def)
  qed (use run assms(1) in \<open>auto simp: andThen_def run_container_def Let_def within_def\<close>)
qed

lemma launch_fails_clean: "fails_clean (cluster_volume pid) (launch E json pid entries)"
  unfolding launch_def Let_def cluster_volume_def [symmetric]
  by (intro fails_clean_andThen fails_clean_holding fails_clean_same same_containers_steps same_containers_register
      same_containers_andThen) auto

lemma failed_start_keeps_volume:
  assumes "start_cluster E json pid entries d = Some (Inl x, d')" and "ids_used d"
  shows "dk_containers d' = dk_containers d \<and> dk_volumes d \<subseteq> dk_volumes d' \<and>
    dk_volumes d' \<subseteq> insert (cluster_volume pid) (dk_volumes d)"
proof (cases "launch E json pid entries d")
  case (Pair r d1)
  show ?thesis
  proof (cases r)
    case (Inl y)
    with Pair assms(1) have "launch E json pid entries d = (Inl x, d')" by (simp add: start_cluster_def)
    with launch_fails_clean assms(2) show ?thesis by (auto simp: fails_clean_def within_def)
  next
    case (Inr c)
    from launch_Inr [OF Pair [unfolded Inr]] obtain server agent socat where
        c: "c = \<lparr>sc_server = Some server, sc_agent = Some agent, sc_socat = Some socat,
          sc_socat_host_port = sc_socat_host_port c, sc_volume_name = cluster_volume pid\<rparr>"
      and ids: "dk_tick d \<le> ct_id server" "dk_tick d \<le> ct_id agent" "dk_tick d \<le> ct_id socat"
      and started: "dk_containers d1 = [socat, agent, server] @ dk_containers d"
        "dk_volumes d1 = insert (cluster_volume pid) (dk_volumes d)" by blast
    from assms(1) obtain t where d': "d' = drop_all c (d1\<lparr>dk_tick := t\<rparr>)"
      by (auto simp: start_cluster_def Pair Inr split: option.splits sum.splits prod.splits dest!: await_svids_tick)
    have "dk_containers (d1\<lparr>dk_tick := t\<rparr>) = [socat, agent, server] @ dk_containers d" by (simp add: started)
    from drop_all_started [OF assms(2) ids this c] show ?thesis by (auto simp: d' started)
  qed
qed

text \<open>The volume does stay, for instance where the bridge does not start.\<close>

lemma failed_start_leaks:
  assumes "\<And>t. de_write E t" and "\<And>t. de_exec E t token_command = Some (code, out)" and "json out = Some tok"
    and "\<And>t. de_bridge_ip E t = Some ip"
    and "\<And>t. de_start E t = (if t = 6 then Refused else Delivered)"
  shows "\<exists>d'. start_cluster E json pid entries \<lparr>dk_containers = [], dk_volumes = {}, dk_entries = [], dk_tick = 0\<rparr> =
    Some (Inl Panic, d') \<and> dk_containers d' = [] \<and> dk_volumes d' = {cluster_volume pid}"
  unfolding start_cluster_def launch_def Let_def cluster_volume_def [symmetric]
  by (simp add: andThen_def unwrap_def run_container_def holding_def pureX_def Let_def assms drop_container_def)

section \<open>The databases of the tests\<close>

text \<open>\<open>ensure_aio_max_nr\<close>: the setting of the Docker host is read in a privileged container and raised
  where it is too low or cannot be read. The container is dropped at the end.\<close>

definition min_aio :: u64 where
  "min_aio = 1048576"

record aio_host =
  ah_docker :: docker
  ah_aio_max_nr :: string

definition ensure_aio_max_nr :: "docker_env \<Rightarrow> aio_host \<Rightarrow> (unit exit + unit) \<times> aio_host" where
  "ensure_aio_max_nr E h =
     (case andThen (run_container E ''alpine:latest'' []) (\<lambda>c. holding c (
             andThen (unwrap (\<lambda>t. if de_docker E t then Some () else None)) (\<lambda>_. ret c))) (ah_docker h) of
        (Inl x, d) \<Rightarrow> (Inl x, h\<lparr>ah_docker := d\<rparr>)
      | (Inr c, d) \<Rightarrow>
         (let current = (case parse_u64 (trim (ah_aio_max_nr h)) of Some n \<Rightarrow> n | None \<Rightarrow> 0)
          in if current < min_aio
             then (case unwrap (\<lambda>t. if de_docker E t then Some () else None) d of
                     (Inl x, d') \<Rightarrow> (Inl x, h\<lparr>ah_docker := drop_container c d'\<rparr>)
                   | (Inr _, d') \<Rightarrow> (Inr (), h\<lparr>ah_docker := drop_container c d',
                       ah_aio_max_nr := decimal (unat min_aio) @ [CHR 0x0A]\<rparr>))
             else (Inr (), h\<lparr>ah_docker := drop_container c d\<rparr>)))"

text \<open>The loop of \<open>test_scylla_store\<close>, where \<open>n\<close> attempts fit into its 60 seconds.\<close>

fun scylla_attempts :: "nat \<Rightarrow> genv \<Rightarrow> gateway \<Rightarrow> (unit exit + unit) \<times> gateway" where
  "scylla_attempts 0 G g = (Inl Panic, g)"
| "scylla_attempts (Suc n) G g =
     (case connect_store G g of
        (Inr _, g') \<Rightarrow> (Inr (), g')
      | (Inl _, g') \<Rightarrow> scylla_attempts n G g')"

text \<open>\<open>test_db_pool\<close>, once the container has a host and a port: a pool of five connections, migrated.\<close>

definition test_db_url :: "string \<Rightarrow> nat \<Rightarrow> string" where
  "test_db_url host port = ''postgres://postgres:postgres@'' @ host @ '':'' @ decimal port @ ''/postgres''"

definition test_db_pool :: "(string \<Rightarrow> pg_config option) \<Rightarrow> (unit pg_pool \<Rightarrow> bool) \<Rightarrow> env \<Rightarrow> (nat \<Rightarrow> bool)
    \<Rightarrow> string \<Rightarrow> nat \<Rightarrow> (unit, unit pg_pool) io" where
  "test_db_pool parse builds V migrated host port =
     (case database_pool_from_url parse builds (test_db_url host port) 5 of
        Inl _ \<Rightarrow> pureX (\<lambda>e. e) (Inl Panic)
      | Inr db \<Rightarrow>
         (\<lambda>w. case migrate V migrated w of
            (Inl _, w') \<Rightarrow> (Inl Panic, w')
          | (Inr (), w') \<Rightarrow> (Inr (dp_writer db), w')))"

text \<open>\<open>init_tracing\<close>: the first call of a process sets the subscriber, later ones change nothing.\<close>

definition init_tracing :: "otel_lib \<Rightarrow> string option \<Rightarrow> string option \<Rightarrow> string option" where
  "init_tracing T rust_log current =
     (case current of None \<Rightarrow> Some (env_filter T rust_log) | Some f \<Rightarrow> Some f)"

section \<open>What they guarantee\<close>

lemma digit_char_of: "n < 10 \<Longrightarrow> digit (char_of (48 + n)) = Some n"
  by (simp add: digit_def of_char_of)

lemma digits_value_append:
  "digits_value acc (s @ t) = (case digits_value acc s of Some n \<Rightarrow> digits_value n t | None \<Rightarrow> None)"
  by (induction acc s rule: digits_value.induct) (auto split: option.splits)

lemma digits_value_decimal: "digits_value 0 (decimal n) = Some n"
proof (induction n rule: decimal.induct)
  case (1 n)
  show ?case
  proof (cases "n < 10")
    case True
    then show ?thesis by (simp add: decimal.simps [of n] digit_char_of)
  next
    case False
    with 1 show ?thesis
      by (simp add: decimal.simps [of n] digits_value_append digit_char_of)
  qed
qed

lemma decimal_digits: "c \<in> set (decimal n) \<Longrightarrow> \<exists>k::nat. k < 10 \<and> c = char_of (48 + k)"
proof (induction n rule: decimal.induct)
  case (1 n)
  show ?case
  proof (cases "n < 10")
    case True
    then show ?thesis using 1(2) by (auto simp: decimal.simps [of n])
  next
    case False
    then have "c \<in> set (decimal (n div 10)) \<or> c = char_of (48 + n mod 10)" using 1(2) by (auto simp: decimal.simps [of n])
    then show ?thesis using 1(1) [OF False] by (auto intro: exI [of _ "n mod 10"])
  qed
qed

lemma decimal_not_Nil: "decimal n \<noteq> []"
  by (simp add: decimal.simps [of n])

text \<open>What is printed is read again; so the endpoint names the port, and the raised setting is seen.\<close>

lemma parse_decimal_u64: "n < 2 ^ 64 \<Longrightarrow> parse_u64 (decimal n) = Some (of_nat n)"
proof -
  assume n: "n < 2 ^ 64"
  have "strip_prefix ''+'' (decimal n) = None"
  proof (cases "strip_prefix ''+'' (decimal n)")
    case (Some t)
    then have "CHR ''+'' \<in> set (decimal n)" by (simp add: strip_prefix_Some_iff)
    from decimal_digits [OF this] obtain k :: nat where k: "k < 10" "CHR ''+'' = (char_of (48 + k) :: char)" by blast
    then have "(of_char CHR ''+'' :: nat) = (48 + k) mod 256" by (simp only: of_char_of)
    then show ?thesis using k(1) by simp
  qed
  then show ?thesis using n by (simp add: parse_u64_def Let_def decimal_not_Nil digits_value_decimal)
qed

lemma scylla_attempts_ready:
  assumes "scylla_attempts n G g = (Inr (), g')"
  shows "\<exists>g0. connect_store G g0 = (Inr (), g')"
  using assms
proof (induction n arbitrary: g)
  case (Suc n)
  obtain r g1 where c: "connect_store G g = (r, g1)" by fastforce
  show ?case
  proof (cases r)
    case (Inl x)
    with Suc.prems c have "scylla_attempts n G g1 = (Inr (), g')" by simp
    then show ?thesis by (rule Suc.IH)
  next
    case (Inr u)
    with Suc.prems c show ?thesis by (intro exI [of _ g]) simp
  qed
qed simp

lemma init_tracing_again: "init_tracing T r (init_tracing T r' s) = init_tracing T r' s"
  by (simp add: init_tracing_def split: option.splits)

end
