(* ===== verification/Spec2Isabelle.thy ===== *)
theory Spec2Isabelle
  imports Outbox_Queue Outbox_Shutdown Web_Pages Service_Types Startup_Props Verify_Race_Props Resend_Race
    Channel_Race Page_Views Browser_Session Mailed_Accounts Test_Cluster
begin

text \<open>
  Verification library of the Rust services of this repository (\<open>services/identity\<close>,
  \<open>services/gateway\<close>, \<open>services/web\<close>).

  THE PROGRAM. A browser talks to the web server, which renders pages and proxies everything below
  \<open>/api/v1\<close> to the gateway. The gateway keeps sessions in ScyllaDB under the digest of a cookie and
  calls the identity service over gRPC with the access token of the session. The identity service
  keeps accounts, verification tokens, refresh tokens, signing keys and an outbox in PostgreSQL. A
  background task in each of its replicas copies the outbox to Kafka, from which another service
  sends the mails.

  THE THEORIES. The definitions keep the names of the source where Isabelle allows it.
  \<^item> \<open>Prelude\<close>: machine types, \<open>Result\<close> and its \<open>?\<close> (\<open>'e + 'a\<close>, \<open>try_r\<close>), panics (\<open>'e exit\<close>), instants
    in nanoseconds, strings and \<open>str\<close> methods, the interface \<open>str_codec\<close> of enums stored as text.
  \<^item> \<open>Crypto_Base\<close>, \<open>Kek\<close>, \<open>Encryption\<close>, \<open>Jwk_Keys\<close>, \<open>Jwt\<close>, \<open>Opaque_Token\<close>, \<open>Password\<close>: the modules of
    \<open>identity/src/crypto\<close>, one theory each (\<open>crypto/token.rs\<close> with the gateway's session tokens).
  \<^item> \<open>Validation\<close>, \<open>User_Status\<close>: \<open>services/validation.rs\<close> and the status of \<open>services/mod.rs\<close>.
  \<^item> \<open>Database\<close>, \<open>Database_Inv\<close>: the tables and constraints of \<open>identity/migrations\<close>, every SQL
    statement of the service as a function on the tables, and the invariant they keep.
  \<^item> \<open>Effects\<close>: programs as state transformers with values, errors and panics; statements and
    transactions that may be refused or whose reply may be lost; other clients in between.
  \<^item> \<open>Identity_Core\<close>, \<open>Registration\<close>, \<open>Login_Auth\<close>, \<open>Account\<close>, \<open>Identity_Service\<close>: the operations of
    \<open>identity/src/services\<close>, file by file, and the gRPC handlers with \<open>serve\<close>.
  \<^item> \<open>Registration_Laws\<close>, \<open>Login_Laws\<close>, \<open>Account_Laws\<close>, \<open>No_Panic\<close>: what a successful or failed run of
    an operation did, in terms of the tables.
  \<^item> \<open>Verify_Race\<close>, \<open>Verify_Race_Props\<close>, \<open>Resend_Race\<close>: \<open>verify_email.rs\<close> and \<open>resend_verification.rs\<close> as
    machines with one step per awaited effect, many requests at the same time on one database; a
    machine alone is proved to be the handler.
  \<^item> \<open>Outbox\<close>, \<open>Outbox_Laws\<close>, \<open>Outbox_Exact\<close>, \<open>Outbox_Queue\<close>, \<open>Outbox_Shutdown\<close>: the publisher of \<open>identity/src/outbox\<close>
    as a state machine with one step per awaited effect, all replicas over a shared database, lock
    and log; the invariants; the refinement of an abstract queue; the end of a cancelled publisher.
  \<^item> \<open>Gateway_Session\<close>, \<open>Gateway_Routes\<close>, \<open>Gateway_Laws\<close>: cookie, session store, channel, handlers,
    error responses and router of \<open>gateway/src\<close>; a call runs \<open>serve\<close> on the service's state.
  \<^item> \<open>Channel_Race\<close>: the calls of \<open>client\<close> (\<open>gateway/src/pool.rs\<close>) at the same time, with certificates
    that are rotated and tasks that are dropped.
  \<^item> \<open>Web_Proxy\<close>, \<open>Web_Pages\<close>: the reverse proxy and the router of \<open>web/src/proxy.rs\<close> and \<open>main.rs\<close>;
    routes, forms and content security policy of \<open>web/src/app.rs\<close> and \<open>web/src/pages\<close>.
  \<^item> \<open>Page_Views\<close>: the markup of \<open>web/src/components\<close>, \<open>web/src/pages\<close> and \<open>web/src/app.rs\<close> as trees.
  \<^item> \<open>Mailed_Accounts\<close>: what the service as a whole keeps about tokens, mails and verified accounts.
  \<^item> \<open>Browser_Session\<close>: login and profile through web server, gateway and identity service at once.
  \<^item> \<open>Service_Config\<close>: \<open>config.rs\<close> of the three services: the structures, defaults and \<open>load\<close>.
  \<^item> \<open>Telemetry\<close>: \<open>telemetry.rs\<close> of the three services.
  \<^item> \<open>Startup\<close>: the \<open>main.rs\<close> of the three services step by step, with \<open>identity/src/spiffe.rs\<close>, \<open>db.rs\<close>,
    \<open>server.rs\<close>, \<open>gateway/src/server.rs\<close> (certificates, accept loop) and \<open>web/src/api/mod.rs\<close>.
  \<^item> \<open>Test_Cluster\<close>: \<open>test-utils/src\<close>, the containers, volume and loops of the test fixtures.
  \<^item> \<open>Sample_Libs\<close>, \<open>Sample_Identity\<close>: concrete libraries and a small deployment for the witnesses.
  \<^item> \<open>Crypto_Props\<close>, \<open>Identity_Props\<close>, \<open>Registration_Props\<close>, \<open>Account_Props\<close>, \<open>Service_Types\<close>,
    \<open>Outbox_Props\<close>, \<open>Gateway_Props\<close>, \<open>Web_Props\<close>, \<open>Config_Props\<close>, \<open>Startup_Props\<close> and this theory: the
    properties, beside those that stand with what they are about (\<open>Outbox_Queue\<close>, \<open>Outbox_Shutdown\<close>,
    \<open>Verify_Race_Props\<close>, \<open>Resend_Race\<close>, \<open>Channel_Race\<close>, \<open>Web_Pages\<close>, \<open>Mailed_Accounts\<close>, \<open>Browser_Session\<close>).

  INTERFACES. \<open>key_wrapping\<close> (sealing private keys), \<open>opaque_token\<close> (verification and session tokens),
  \<open>str_codec\<close> (stored enums), \<open>account_statements\<close> and \<open>account_invariant\<close> (what the statements outside
  registration, hence the operations that use them, keep; what is left for \<open>serve\<close> are sign-up,
  verification and resending) with the extensions \<open>statement_invariant\<close> and \<open>service_invariant\<close> (what
  all statements, hence all operations, keep), interpreted with the database constraints and the
  growth of the outbox (all statements) and with the invariant of tokens and mails (registration
  shown apart, a transaction at a time), \<open>invariant_server\<close> (sequences of requests),
  \<open>leader_lock\<close> (the advisory lock), \<open>expiring_store\<close> (the session table).

  THIRD-PARTY CODE is a parameter: records of functions (\<open>base64_lib\<close>, \<open>ecdsa_lib\<close>, \<open>aead_lib\<close>,
  \<open>json_lib\<close>, \<open>password_lib\<close>, \<open>uuid_lib\<close>, \<open>http_lib\<close>, \<open>body_lib\<close>, \<open>config_lib\<close>, \<open>spiffe_lib\<close>, \<open>pem_lib\<close>,
  \<open>otel_lib\<close>, \<open>leptos_lib\<close>, \<open>reqwest\<close> as a sender, \<open>tw_merge\<close> as a function) with documented
  behaviour as named hypotheses (\<open>libs_ok\<close>, \<open>http_ok\<close>, \<open>crate_ok\<close>). What the outside world decides (clocks,
  randomness, failures, other clients) is a function of a counter of effects (\<open>env\<close>, \<open>genv\<close>), or the
  \<open>reply\<close> of a publisher's step; the theorems hold for all of them, or under the stated
  restriction (\<open>calm\<close>, \<open>gcalm\<close>: no faults and no other clients; \<open>fault_free\<close>).

  BOUNDS. Unsigned 64-bit times wrap or panic with the build profile (\<open>l_checks\<close>), lengths and counts are
  unbounded. No definition uses fuel: the loops over the database, the batch and the headers are
  structural, the publisher's endless loop is a step relation, and one undisturbed poll ends after
  \<open>replies_needed\<close> steps. The wait of the test cluster is a partial function, shown to return.

  SIMPLIFICATIONS. In the handlers a transaction runs without interference from other clients. For
  \<open>verify_email\<close> the race of \<open>Verify_Race\<close> drops this: there its statements interleave with other
  requests and other clients under READ COMMITTED with row locks, and \<open>verify_serializable\<close> shows for
  the requests that commit, and for them only, that the handler run as a whole at the moment of the
  commit, with the clocks of the request, does the same to the database; what other clients commit
  is restricted to \<open>other_commit\<close>. The other operations have no such theorem. PostgreSQL's rounding
  of timestamps to microseconds and its refusal of NUL bytes in text are left out, \<open>LOWER\<close> is a
  parameter; ScyllaDB is one table whose rows expire, with one kind of failure per statement; Kafka
  keeps the records of a topic in the order they were appended; tracing has no effect but the
  header of a record; zeroization has none. The axum router is modelled for exact paths.

  NOT MODELLED. Hydration in the browser and the signals of the pages, which nothing reads; the
  consumer of spans, metrics and log lines; what happens inside the TLS configurations, connection
  pools and HTTP and gRPC connections of the libraries; what runs inside the containers of the test
  fixtures; tests and benchmarks; the mail service and the other languages of the repository.
\<close>

section \<open>From sign-up to the mail queue\<close>

text \<open>C17. The mail of a sign-up is delivered to the queue: after a successful sign-up, with no more
  unpublished rows than a batch, one undisturbed poll of a publisher appends to the topic
  \<open>email.auth\<close> a record keyed by the new user's id whose value is the verification mail, and the
  token in that mail is the one whose digest sign-up stored for that user.\<close>
theorem sign_up_mail_queued:
  assumes "libs_ok L" and "calm V" and "inv L (w_db w)"
    and "sign_up L V un em gn fn pw url w = (Inr (), w1)"
    and "sh_db s = w_db w1" and "length (pending (sh_db s)) \<le> nat (kafka_batch_size c)"
    and "pub_phase p = Waiting" and "pub_session_open p" and "sh_lock s \<in> {None, Some me}"
    and "\<forall>rp \<in> set rps. all_well rp" and "length rps = replies_needed c p (sh_db s)"
    and "run_publisher U c me rps (p, s) = (p', s')"
  shows "\<exists>rec log u tk tok oid tr sp at.
    sh_log s' ''email.auth'' = sh_log s ''email.auth'' @ log \<and> rec \<in> set log \<and>
    u \<in> set (users (w_db w1)) \<and> u_username u = un \<and> u_email u = em \<and>
    k_key rec = Some (as_bytes (uuid_to_string U (u_id u))) \<and>
    k_value rec = Some (l_encode L (verification_event L url oid em (gn @ '' '' @ fn) tr sp at tok)) \<and>
    tk \<in> set (tokens (w_db w1)) \<and> t_user_id tk = u_id u \<and> t_consumed_at tk = None \<and>
    hash_verification_token (l_b64 L) (l_sha256 L) tok = Inr (t_token_hash tk)"
proof -
  have I: "inv L (w_db w1)"
    using io_keepsD [OF constraints_kept.keeps_sign_up [OF calm_keeps [OF assms(2)]] assms(3,4)] .
  from sign_up_result [OF assms(4)] obtain t where
    "registered L V un em gn fn pw url (e_others V t (w_db w)) (w_db w1)" by auto
  then obtain uid ph tid h oid payload tr sp t1 now where
      mail: "mails_token L url oid em (gn @ '' '' @ fn) h payload"
    and w1: "w_db w1 = add_rows [new_user uid un em gn fn ph now]
      [new_token tid uid h (e_utc V t1 + minutes 60) now] [new_event oid uid payload tr sp now] (w_db w)"
    unfolding registered_def calmD(4) [OF assms(2)] by blast
  let ?u = "new_user uid un em gn fn ph now" and ?e = "new_event oid uid payload tr sp now"
    and ?tk = "new_token tid uid h (e_utc V t1 + minutes 60) now"
  from mail obtain rnd tok tr' sp' at where
      gen: "generate_verification_token (l_b64 L) (l_sha256 L) rnd = Inr (tok, h)"
    and payload: "payload = l_encode L (verification_event L url oid em (gn @ '' '' @ fn) tr' sp' at tok)"
    by (auto simp: mails_token_def)
  have hash: "hash_verification_token (l_b64 L) (l_sha256 L) tok = Inr h"
    by (rule verification_token.hash_generate [OF libs_okD(1) [OF assms(1)] gen])
  have "?e \<in> set (pending (sh_db s))" by (simp add: set_pending assms(5) w1 new_event_def)
  then have batch: "event_of_row ?e \<in> set (filter routable (batch_of c (sh_db s)))"
    using assms(6) by (simp add: batch_of_def) (simp add: routable_def event_of_row_def new_event_def)
  have size: "0 \<le> kafka_batch_size c"
    using batch by (cases "0 \<le> kafka_batch_size c") (simp_all add: batch_of_def)
  have dist: "distinct (map ob_id (outbox (sh_db s)))" using db_inv_unique(8) [OF I] assms(5) by simp
  obtain log where log: "sh_log s' ''email.auth'' = sh_log s ''email.auth'' @ log"
    "map kv log = map (kv_of U) (filter routable (batch_of c (sh_db s)))"
    using poll_run [OF assms(7-9) size dist assms(10,11), of U] unfolding assms(12) by auto
  have "kv_of U (event_of_row ?e) \<in> set (map kv log)" using batch unfolding log(2) by auto
  then obtain rec where rec: "rec \<in> set log" "kv rec = kv_of U (event_of_row ?e)" by auto
  have "k_key rec = Some (as_bytes (uuid_to_string U (u_id ?u)))" "k_value rec = Some payload"
    using rec(2) by (simp_all add: kv_def kv_of_def event_of_row_def new_event_def new_user_def)
  moreover have "?u \<in> set (users (w_db w1))" "?tk \<in> set (tokens (w_db w1))" by (simp_all add: w1)
  ultimately show ?thesis
    using log(1) rec(1) hash payload
    by (intro exI [of _ rec] exI [of _ log] exI [of _ ?u] exI [of _ ?tk] exI [of _ tok] exI [of _ oid]
        exI [of _ tr'] exI [of _ sp'] exI [of _ at]) (simp add: new_user_def new_token_def)
qed

theorem sign_up_mail_queued_witness:
  "\<exists>w1 p' s' rec. sign_up login_libs sample_env ''carol'' ''c@d.e'' ''Ca'' ''Rol'' (Some ''password'') ''https://h''
       sample_world = (Inr (), w1) \<and>
     run_publisher sample_uuid default_kafka_config 3
       (replicate (replies_needed default_kafka_config (spawn\<lparr>pub_phase := Waiting\<rparr>) (w_db w1)) sample_reply)
       (spawn\<lparr>pub_phase := Waiting\<rparr>, \<lparr>sh_db = w_db w1, sh_lock = None, sh_log = (\<lambda>_. [])\<rparr>) = (p', s') \<and>
     rec \<in> set (sh_log s' ''email.auth'') \<and> k_key rec \<noteq> None"
proof -
  let ?c = default_kafka_config and ?p = "spawn\<lparr>pub_phase := Waiting\<rparr>"
  obtain w1 where s: "sign_up login_libs sample_env ''carol'' ''c@d.e'' ''Ca'' ''Rol'' (Some ''password'') ''https://h''
      sample_world = (Inr (), w1)" using sample_sign_up by blast
  let ?s = "\<lparr>sh_db = w_db w1, sh_lock = None, sh_log = (\<lambda>_. [])\<rparr>"
  let ?rps = "replicate (replies_needed ?c ?p (w_db w1)) sample_reply"
  from sign_up_result [OF s] obtain t where
    "registered login_libs sample_env ''carol'' ''c@d.e'' ''Ca'' ''Rol'' (Some ''password'') ''https://h''
       (e_others sample_env t (w_db sample_world)) (w_db w1)" by auto
  then have "length (outbox (w_db w1)) = 1"
    by (auto simp: registered_def calmD(4) [OF sample_env_calm] sample_db_def)
  moreover have "length (pending (w_db w1)) \<le> length (outbox (w_db w1))" by (simp add: pending_def)
  ultimately have few: "length (pending (sh_db ?s)) \<le> nat (kafka_batch_size ?c)"
    by (simp add: default_kafka_config_def)
  obtain p' s' where run: "run_publisher sample_uuid ?c 3 ?rps (?p, ?s) = (p', s')" by fastforce
  have "inv login_libs (w_db sample_world)" by (simp add: sample_db_inv)
  from sign_up_mail_queued [OF sample_libs_ok sample_env_calm this s _ few _ _ _ _ _ run] s run
  show ?thesis using sample_well by (auto simp: spawn_def)
qed

end
